(* ===== verification/Chan_Prelude.thy ===== *)
theory Chan_Prelude
  imports Main "HOL-Library.Word"
begin

text \<open>
  The prelude of the development: the names of the machine types the Go sources use, the error
  values of package \<^verbatim>\<open>channel\<close>, results with early return (\<open>rbind\<close>), slice
  expressions with their run-time panic, little-endian integers as \<^verbatim>\<open>encoding/binary\<close>
  writes them, Go strings and byte slices, iteration orders of Go maps, and a locale for
  inductive invariants of step relations. The other theories import it.
\<close>

unbundle bit_operations_syntax

named_theorems res_simps \<open>unfolding the error monad\<close>

section \<open>Machine types\<close>

type_synonym byte = "8 word"
type_synonym bytes = "byte list"
type_synonym int32 = "32 word"
type_synonym uint32 = "32 word"
type_synonym uint16 = "16 word"
type_synonym int64 = "64 word"
type_synonym uint64 = "64 word"

lemma unat_32_less: "unat (w :: 32 word) < 2 ^ 32"
  using unsigned_less [of w, where 'a = nat] by simp

lemma sint_64_eqI: "- (2 ^ 63) \<le> k \<Longrightarrow> k < 2 ^ 63 \<Longrightarrow> sint (word_of_int k :: int64) = k"
  by (simp add: sint_sbintrunc' signed_take_bit_int_eq_self)

lemma sint_64_bounds: "- (2 ^ 63) \<le> sint (w :: int64)" "sint (w :: int64) < 2 ^ 63"
  using sint_greater_eq [of w] sint_less [of w] by simp_all

lemma sint_nonneg: "0 \<le> sint (w :: int64) \<Longrightarrow> int (unat w) = sint w"
proof -
  assume "0 \<le> sint w"
  moreover have "uint w = uint (word_of_int (sint w) :: int64)" by simp
  ultimately have "uint w = sint w" using sint_less [of w] by (simp only: uint_word_of_int) simp
  then show ?thesis by simp
qed

lemma unat_ucast_32_64 [simp]: "unat (ucast (w :: 32 word) :: 64 word) = unat w"
  using unat_32_less [of w] by (simp add: unsigned_ucast_eq take_bit_nat_eq_self)

lemma word_of_unat_32_64 [simp]: "(word_of_nat (unat (w :: 32 word)) :: 64 word) = ucast w"
  by simp

section \<open>Errors and results\<close>

text \<open>
  One constructor per error value or error type of the sources; \<open>ErrText\<close> is
  \<^verbatim>\<open>errors.New\<close> or \<^verbatim>\<open>fmt.Errorf\<close> with its constant text, \<open>ErrIO\<close>
  an error of the transport, \<open>ErrApp\<close> one returned by application code, \<open>ErrWrap\<close> an
  error that wraps another with more text. \<open>GoPanic\<close> is not an error value of the
  language: it marks the executions in which the run-time panics, so that the absence of
  panics can be stated.
\<close>

datatype err =
    ErrEOF
  | ErrUnexpectedEOF
  | ErrShortBuffer
  | ErrNetClosed
  | ErrIO nat
  | ErrApp string
  | ErrText string
  | BadMagicNumberError
  | UnsupportedVersionError "uint32 list"
  | DeadlineExceeded
  | Canceled
  | TimeoutError err
  | ClosedError
  | ListenerClosedError
  | RejectedError int32 string
  | NonRetryableError err
  | ErrWrap string err
  | ErrJoin "err list"
  | GoPanic

type_synonym 'a res = "err + 'a"

definition rbind :: "'a res \<Rightarrow> ('a \<Rightarrow> 'b res) \<Rightarrow> 'b res" where
  "rbind x f = (case x of Inl e \<Rightarrow> Inl e | Inr v \<Rightarrow> f v)"

lemma rbind_Inl [simp]: "rbind (Inl e) f = Inl e"
  and rbind_Inr [simp]: "rbind (Inr v) f = f v"
  by (simp_all add: rbind_def)

lemma rbind_cong [fundef_cong]:
  "x = y \<Longrightarrow> (\<And>v. y = Inr v \<Longrightarrow> f v = g v) \<Longrightarrow> rbind x f = rbind y g"
  by (simp add: rbind_def split: sum.splits)

lemma rbind_eq_Inr [res_simps]:
  "rbind x f = Inr w \<longleftrightarrow> (\<exists>v. x = Inr v \<and> f v = Inr w)"
  by (simp add: rbind_def split: sum.splits)

lemma rbind_eq_Inl [res_simps]:
  "rbind x f = Inl e \<longleftrightarrow> x = Inl e \<or> (\<exists>v. x = Inr v \<and> f v = Inl e)"
  by (auto simp: rbind_def split: sum.splits)

text \<open>A Go condition that returns an error early.\<close>

definition fail_if :: "bool \<Rightarrow> err \<Rightarrow> unit res" where
  "fail_if b e = (if b then Inl e else Inr ())"

lemma fail_if_simps [simp]: "fail_if True e = Inl e" "fail_if False e = Inr ()"
  by (simp_all add: fail_if_def)

lemma fail_if_eq [res_simps]:
  "fail_if b e = Inr u \<longleftrightarrow> \<not> b"
  "fail_if b e = Inl e' \<longleftrightarrow> b \<and> e = e'"
  by (auto simp: fail_if_def)

section \<open>Slices\<close>

text \<open>
  \<^verbatim>\<open>xs[lo:hi]\<close>. The run-time checks \<open>hi\<close> against the capacity, which is at least
  the length; the model checks it against the length, so an execution without \<open>GoPanic\<close> in
  the model has none in the program.
\<close>

definition slice :: "'a list \<Rightarrow> nat \<Rightarrow> nat \<Rightarrow> 'a list res" where
  "slice xs lo hi = (if lo \<le> hi \<and> hi \<le> length xs then Inr (take (hi - lo) (drop lo xs)) else Inl GoPanic)"

lemma slice_ok [simp]:
  "lo \<le> hi \<Longrightarrow> hi \<le> length xs \<Longrightarrow> slice xs lo hi = Inr (take (hi - lo) (drop lo xs))"
  by (simp add: slice_def)

lemma slice_eq_Inr [res_simps]:
  "slice xs lo hi = Inr ys \<longleftrightarrow> lo \<le> hi \<and> hi \<le> length xs \<and> ys = take (hi - lo) (drop lo xs)"
  by (auto simp: slice_def)

lemma slice_eq_Inl [res_simps]:
  "slice xs lo hi = Inl e \<longleftrightarrow> e = GoPanic \<and> \<not> (lo \<le> hi \<and> hi \<le> length xs)"
  by (auto simp: slice_def)

section \<open>Little-endian integers\<close>

text \<open>
  \<open>le_put n v\<close> is what \<^verbatim>\<open>binary.LittleEndian.PutUint\<close> of an \<open>n\<close>-byte integer
  stores; \<open>le_get\<close> assembles the bytes again.
\<close>

primrec le_put :: "nat \<Rightarrow> 'a::len word \<Rightarrow> bytes" where
  "le_put 0 v = []"
| "le_put (Suc n) v = ucast v # le_put n (drop_bit 8 v)"

primrec le_get :: "bytes \<Rightarrow> 'a::len word" where
  "le_get [] = 0"
| "le_get (b # bs) = ucast b OR push_bit 8 (le_get bs)"

lemma length_le_put [simp]: "length (le_put n v) = n"
  by (induction n arbitrary: v) auto

lemma bit_le_get_put:
  fixes v :: "'a::len word"
  shows "bit (le_get (le_put n v) :: 'a word) i \<longleftrightarrow> i < 8 * n \<and> bit v i"
proof (induction n arbitrary: v i)
  case 0
  then show ?case by simp
next
  case (Suc n)
  show ?case
  proof (cases "i < 8")
    case True
    then show ?thesis by (auto simp: bit_simps dest: bit_imp_le_length)
  next
    case False
    then have "i = 8 + (i - 8)" by simp
    with False Suc.IH [of "drop_bit 8 v" "i - 8"] show ?thesis
      by (auto simp: bit_simps dest: bit_imp_le_length)
  qed
qed

lemma le_get_put:
  fixes v :: "'a::len word"
  shows "LENGTH('a) \<le> 8 * n \<Longrightarrow> le_get (le_put n v) = v"
  by (rule bit_word_eqI) (auto simp: bit_le_get_put)

lemma le_get_put_32 [simp]: "le_get (le_put 4 (v :: 32 word)) = v"
  and le_get_put_64 [simp]: "le_get (le_put 8 (w :: 64 word)) = w"
  and le_get_put_16 [simp]: "le_get (le_put 2 (x :: 16 word)) = x"
  by (rule le_get_put; simp)+

text \<open>\<^verbatim>\<open>binary.LittleEndian.Uint32(b)\<close>: the first four bytes; a shorter slice panics.\<close>

definition Uint32 :: "bytes \<Rightarrow> uint32 res" where
  "Uint32 b = (if 4 \<le> length b then Inr (le_get (take 4 b)) else Inl GoPanic)"

definition Uint64 :: "bytes \<Rightarrow> uint64 res" where
  "Uint64 b = (if 8 \<le> length b then Inr (le_get (take 8 b)) else Inl GoPanic)"

definition Uint16 :: "bytes \<Rightarrow> uint16 res" where
  "Uint16 b = (if 2 \<le> length b then Inr (le_get (take 2 b)) else Inl GoPanic)"

definition PutUint32 :: "uint32 \<Rightarrow> bytes" where
  "PutUint32 v = le_put 4 v"

definition PutUint64 :: "uint64 \<Rightarrow> bytes" where
  "PutUint64 v = le_put 8 v"

definition PutUint16 :: "uint16 \<Rightarrow> bytes" where
  "PutUint16 v = le_put 2 v"

lemma length_PutUint [simp]:
  "length (PutUint32 v) = 4" "length (PutUint64 w) = 8" "length (PutUint16 x) = 2"
  by (simp_all add: PutUint32_def PutUint64_def PutUint16_def)

lemma PutUint32_not_Nil [simp]: "PutUint32 v \<noteq> []"
  by (metis length_PutUint(1) list.size(3) zero_neq_numeral)

lemma Uint32_Put [simp]: "Uint32 (PutUint32 v @ rest) = Inr v" "Uint32 (PutUint32 v) = Inr v"
  and Uint64_Put [simp]: "Uint64 (PutUint64 w) = Inr w"
  and Uint16_Put [simp]: "Uint16 (PutUint16 x) = Inr x"
  by (simp_all add: Uint32_def Uint64_def Uint16_def PutUint32_def PutUint64_def PutUint16_def)

lemma Uint32_eq_Inl [res_simps]: "Uint32 b = Inl e \<longleftrightarrow> e = GoPanic \<and> length b < 4"
  by (auto simp: Uint32_def)

lemma Uint32_ok: "4 \<le> length b \<Longrightarrow> Uint32 b = Inr (le_get (take 4 b))"
  by (simp add: Uint32_def)

section \<open>Strings\<close>

text \<open>
  A Go string is a byte sequence. Identifiers and texts are HOL strings (a \<open>char\<close> is a
  byte); the conversions \<^verbatim>\<open>[]byte(s)\<close> and \<^verbatim>\<open>string(b)\<close> are bijections.
\<close>

definition string_bytes :: "string \<Rightarrow> bytes" where
  "string_bytes s = map (\<lambda>c. word_of_nat (of_char c)) s"

definition bytes_string :: "bytes \<Rightarrow> string" where
  "bytes_string b = map (\<lambda>w. char_of (unat w)) b"

lemma length_string_bytes [simp]: "length (string_bytes s) = length s"
  by (simp add: string_bytes_def)

lemma length_bytes_string [simp]: "length (bytes_string b) = length b"
  by (simp add: bytes_string_def)

lemma unat_of_char: "unat (word_of_nat (of_char c) :: 8 word) = of_char c"
proof -
  have "of_char c = (of_char c mod 256 :: nat)"
    using of_char_of [of "of_char c :: nat"] by simp
  then have "of_char c < (256 :: nat)" by (metis mod_less_divisor zero_less_numeral)
  then show ?thesis by (simp add: unat_of_nat)
qed

lemma bytes_string_string_bytes [simp]: "bytes_string (string_bytes s) = s"
  by (simp add: bytes_string_def string_bytes_def unat_of_char map_idI)

lemma string_bytes_bytes_string [simp]: "string_bytes (bytes_string b) = b"
proof -
  have "of_char (char_of (unat w) :: char) = unat w" for w :: "8 word"
    using unsigned_less [of w, where 'a = nat] by (simp add: of_char_of)
  then show ?thesis by (simp add: bytes_string_def string_bytes_def map_idI)
qed

lemma string_bytes_inject [simp]: "string_bytes s = string_bytes t \<longleftrightarrow> s = t"
  by (metis bytes_string_string_bytes)

lemma string_bytes_Nil_iff [simp]: "string_bytes s = [] \<longleftrightarrow> s = []"
  by (simp add: string_bytes_def)

lemma bytes_string_Nil_iff [simp]: "bytes_string b = [] \<longleftrightarrow> b = []"
  by (simp add: bytes_string_def)

section \<open>Maps and their iteration order\<close>

text \<open>
  A Go map is a HOL map. \<^verbatim>\<open>range m\<close> visits every key once, in an order the language
  leaves open: an operation that ranges over a map takes the order as an argument, and its
  theorems hold for every order that \<open>enumerates\<close> the map.
\<close>

definition enumerates :: "'k list \<Rightarrow> ('k \<rightharpoonup> 'v) \<Rightarrow> bool" where
  "enumerates ks m \<longleftrightarrow> distinct ks \<and> set ks = dom m"

lemma enumerates_finite: "enumerates ks m \<Longrightarrow> finite (dom m)"
  by (metis List.finite_set enumerates_def)

lemma enumerates_length: "enumerates ks m \<Longrightarrow> length ks = card (dom m)"
  by (metis distinct_card enumerates_def)

lemma enumerates_mset:
  "enumerates ks m \<Longrightarrow> enumerates ks' m \<Longrightarrow> sum_list (map f ks) = sum_list (map f ks' :: nat list)"
  by (metis enumerates_def sum_list_distinct_conv_sum_set)

lemma enumerates_lookup: "enumerates ks m \<Longrightarrow> k \<in> set ks \<Longrightarrow> \<exists>v. m k = Some v"
  by (auto simp: enumerates_def)

text \<open>The entries of an enumeration, looked up again, are the map.\<close>

lemma map_of_enumerates:
  assumes "enumerates ks m"
  shows "map_of (rev (map (\<lambda>k. (k, the (m k))) ks)) = m"
proof (rule ext)
  fix k
  have "map_of (rev (map (\<lambda>k. (k, the (m k))) ks)) = map_of (map (\<lambda>k. (k, the (m k))) ks)"
    using assms by (intro map_of_inject_set [THEN iffD2]) (auto simp: enumerates_def rev_map comp_def)
  moreover have "map_of (map (\<lambda>k. (k, the (m k))) ks) k = m k"
    using assms by (cases "m k") (auto simp: map_of_map_restrict enumerates_def restrict_map_def)
  ultimately show "map_of (rev (map (\<lambda>k. (k, the (m k))) ks)) k = m k" by simp
qed

section \<open>Decimal numerals\<close>

text \<open>Decimal digits, as \<^verbatim>\<open>fmt.Sprintf\<close> prints an unsigned number.\<close>

function decimal :: "nat \<Rightarrow> string" where
  "decimal n = (if n < 10 then [char_of (48 + n)] else decimal (n div 10) @ [char_of (48 + n mod 10)])"
  by pat_completeness auto
termination by (relation "measure id") auto

declare decimal.simps [simp del]

definition undecimal :: "string \<Rightarrow> nat" where
  "undecimal s = foldl (\<lambda>n c. 10 * n + (of_char c - 48)) 0 s"

lemma undecimal_decimal [simp]: "undecimal (decimal n) = n"
proof (induction n rule: decimal.induct)
  case (1 n)
  then show ?case
    by (subst decimal.simps) (auto simp: undecimal_def)
qed

lemma decimal_inject [simp]: "decimal m = decimal n \<longleftrightarrow> m = n"
  by (metis undecimal_decimal)

section \<open>Inductive invariants\<close>

text \<open>
  The states that a step relation reaches from an initial state, and the proof principle all
  state machines of the development share: an invariant that holds initially and that every
  step keeps holds in every reachable state.
\<close>

inductive reach :: "('s \<Rightarrow> bool) \<Rightarrow> ('s \<Rightarrow> 's \<Rightarrow> bool) \<Rightarrow> 's \<Rightarrow> bool"
  for init :: "'s \<Rightarrow> bool" and step :: "'s \<Rightarrow> 's \<Rightarrow> bool" where
  reach_init: "init s \<Longrightarrow> reach init step s"
| reach_step: "reach init step s \<Longrightarrow> step s t \<Longrightarrow> reach init step t"

locale inductive_invariant =
  fixes init :: "'s \<Rightarrow> bool" and step :: "'s \<Rightarrow> 's \<Rightarrow> bool" and inv :: "'s \<Rightarrow> bool"
  assumes inv_init: "init s \<Longrightarrow> inv s"
    and inv_step: "inv s \<Longrightarrow> step s t \<Longrightarrow> inv t"
begin

lemma reach_inv: "reach init step s \<Longrightarrow> inv s"
  by (induction rule: reach.induct) (auto intro: inv_init inv_step)

lemma steps_inv: "step\<^sup>*\<^sup>* s t \<Longrightarrow> inv s \<Longrightarrow> inv t"
  by (induction rule: rtranclp_induct) (auto intro: inv_step)

end

end
