(* ===== verification/Headers.thy ===== *)
theory Headers
  imports Chan_Prelude
begin

text \<open>
  The message model of \<^verbatim>\<open>message.go\<close>, lines 41--408: the header keys, the
  \<^verbatim>\<open>Headers\<close> map with its typed accessors, \<^verbatim>\<open>MessageHeader\<close> with the cached
  reply number, \<^verbatim>\<open>Message\<close>, and the built-in messages of \<^verbatim>\<open>messages.go\<close>. A nil
  and an empty byte slice are the same value here, as for every operation of the sources on
  them. The locale \<open>typed_header\<close> states what a pair of a Put and a Get accessor
  promises; each pair of the sources is an interpretation.
\<close>

section \<open>Keys and content types\<close>

type_synonym headers = "int32 \<rightharpoonup> bytes"

definition ConnectionIdHeader :: int32 where "ConnectionIdHeader = 0"
definition ReplyForHeader :: int32 where "ReplyForHeader = 1"
definition ResultSuccessHeader :: int32 where "ResultSuccessHeader = 2"
definition HelloVersionHeader :: int32 where "HelloVersionHeader = 4"
definition HeartbeatHeader :: int32 where "HeartbeatHeader = 5"
definition HeartbeatResponseHeader :: int32 where "HeartbeatResponseHeader = 6"
definition TypeHeader :: int32 where "TypeHeader = 7"
definition IdHeader :: int32 where "IdHeader = 8"
definition IsGroupedHeader :: int32 where "IsGroupedHeader = 9"
definition GroupSecretHeader :: int32 where "GroupSecretHeader = 10"
definition IsFirstGroupConnection :: int32 where "IsFirstGroupConnection = 11"
definition UnderlayTypeHeader :: int32 where "UnderlayTypeHeader = 12"
definition HelloRejectClassHeader :: int32 where "HelloRejectClassHeader = 13"
definition ReflectedHeader :: int32 where "ReflectedHeader = 128"
definition replyForHeaderLen :: nat where "replyForHeaderLen = 4"

lemmas header_keys =
  ConnectionIdHeader_def ReplyForHeader_def ResultSuccessHeader_def HelloVersionHeader_def
  HeartbeatHeader_def HeartbeatResponseHeader_def TypeHeader_def IdHeader_def IsGroupedHeader_def
  GroupSecretHeader_def IsFirstGroupConnection_def UnderlayTypeHeader_def
  HelloRejectClassHeader_def ReflectedHeader_def

definition ContentTypeHelloType :: int32 where "ContentTypeHelloType = 0"
definition ContentTypePingType :: int32 where "ContentTypePingType = 1"
definition ContentTypeResultType :: int32 where "ContentTypeResultType = 2"
definition ContentTypeLatencyType :: int32 where "ContentTypeLatencyType = 3"
definition ContentTypeLatencyResponseType :: int32 where "ContentTypeLatencyResponseType = 4"
definition ContentTypeHeartbeat :: int32 where "ContentTypeHeartbeat = 5"
definition ContentTypeRaw :: int32 where "ContentTypeRaw = 6"
definition AnyContentType :: int32 where "AnyContentType = -1"
definition HelloSequence :: int32 where "HelloSequence = -1"

lemmas content_types =
  ContentTypeHelloType_def ContentTypePingType_def ContentTypeResultType_def
  ContentTypeLatencyType_def ContentTypeLatencyResponseType_def ContentTypeHeartbeat_def
  ContentTypeRaw_def AnyContentType_def

section \<open>Typed accessors of Headers\<close>

definition PutUint64Header :: "int32 \<Rightarrow> uint64 \<Rightarrow> headers \<Rightarrow> headers" where
  "PutUint64Header key value h = h(key \<mapsto> PutUint64 value)"

definition GetUint64Header :: "int32 \<Rightarrow> headers \<Rightarrow> uint64 \<times> bool" where
  "GetUint64Header key h =
     (case h key of
        None \<Rightarrow> (0, False)
      | Some encoded \<Rightarrow> if length encoded \<noteq> 8 then (0, True) else (le_get encoded, True))"

definition PutUint32Header :: "int32 \<Rightarrow> uint32 \<Rightarrow> headers \<Rightarrow> headers" where
  "PutUint32Header key value h = h(key \<mapsto> PutUint32 value)"

definition GetUint32Header :: "int32 \<Rightarrow> headers \<Rightarrow> uint32 \<times> bool" where
  "GetUint32Header key h =
     (case h key of
        None \<Rightarrow> (0, False)
      | Some encoded \<Rightarrow> if length encoded \<noteq> 4 then (0, False) else (le_get encoded, True))"

definition PutUint16Header :: "int32 \<Rightarrow> uint16 \<Rightarrow> headers \<Rightarrow> headers" where
  "PutUint16Header key value h = h(key \<mapsto> PutUint16 value)"

definition GetUint16Header :: "int32 \<Rightarrow> headers \<Rightarrow> uint16 \<times> bool" where
  "GetUint16Header key h =
     (case h key of
        None \<Rightarrow> (0, False)
      | Some encoded \<Rightarrow> if length encoded \<noteq> 2 then (0, False) else (le_get encoded, True))"

definition PutByteHeader :: "int32 \<Rightarrow> byte \<Rightarrow> headers \<Rightarrow> headers" where
  "PutByteHeader key value h = h(key \<mapsto> [value])"

definition PutStringHeader :: "int32 \<Rightarrow> string \<Rightarrow> headers \<Rightarrow> headers" where
  "PutStringHeader key value h = h(key \<mapsto> string_bytes value)"

definition GetByteHeader :: "int32 \<Rightarrow> headers \<Rightarrow> byte \<times> bool" where
  "GetByteHeader key h =
     (case h key of
        None \<Rightarrow> (0, False)
      | Some encoded \<Rightarrow> (case encoded of [] \<Rightarrow> (0, True) | b # _ \<Rightarrow> (b, True)))"

definition PutBoolHeader :: "int32 \<Rightarrow> bool \<Rightarrow> headers \<Rightarrow> headers" where
  "PutBoolHeader key value h = h(key \<mapsto> [if value then 1 else 0])"

definition GetBoolHeader :: "int32 \<Rightarrow> headers \<Rightarrow> bool \<times> bool" where
  "GetBoolHeader key h =
     (case h key of
        None \<Rightarrow> (False, False)
      | Some encoded \<Rightarrow> (case encoded of [] \<Rightarrow> False | b # _ \<Rightarrow> b = 1, True))"

text \<open>A missing key reads as the nil slice, whose string is empty.\<close>

definition GetStringHeader :: "int32 \<Rightarrow> headers \<Rightarrow> string \<times> bool" where
  "GetStringHeader key h =
     (case h key of None \<Rightarrow> ([], False) | Some encoded \<Rightarrow> (bytes_string encoded, True))"

text \<open>Indexing a Go map: the zero value for a missing key.\<close>

definition hget :: "headers \<Rightarrow> int32 \<Rightarrow> bytes" where
  "hget h key = (case h key of None \<Rightarrow> [] | Some b \<Rightarrow> b)"

lemma hget_upd [simp]: "hget (h(k \<mapsto> v)) k' = (if k' = k then v else hget h k')"
  by (simp add: hget_def)

lemma hget_empty [simp]: "hget Map.empty k = []"
  by (simp add: hget_def)

section \<open>The contract of a typed header\<close>

text \<open>
  The laws a Put/Get pair promises: the value put under a key is read back as found, the
  other keys are not touched, what Get returns depends on the entry of its own key alone, and
  a missing key is reported as not found.
\<close>

locale typed_header =
  fixes put :: "int32 \<Rightarrow> 'v \<Rightarrow> headers \<Rightarrow> headers"
    and get :: "int32 \<Rightarrow> headers \<Rightarrow> 'v \<times> bool"
  assumes get_put: "get k (put k v h) = (v, True)"
    and put_other: "k' \<noteq> k \<Longrightarrow> put k v h k' = h k'"
    and get_local: "h k = h' k \<Longrightarrow> get k h = get k h'"
    and get_missing: "h k = None \<Longrightarrow> \<not> snd (get k h)"
begin

lemma get_put_other: "k' \<noteq> k \<Longrightarrow> get k' (put k v h) = get k' h"
  by (rule get_local) (rule put_other)

lemma put_present: "put k v h k \<noteq> None"
  using get_missing [of "put k v h" k] by (auto simp: get_put)

lemma dom_put: "dom (put k v h) = insert k (dom h)"
proof (rule set_eqI)
  fix k'
  show "k' \<in> dom (put k v h) \<longleftrightarrow> k' \<in> insert k (dom h)"
    using put_present [of k v h] put_other [of k' k v h] by (cases "k' = k") (auto simp: domIff)
qed

lemma put_overwrites: "get k (put k w (put k v h)) = (w, True)"
  by (rule get_put)

end

interpretation uint64_header: typed_header PutUint64Header GetUint64Header
  by unfold_locales (auto simp: PutUint64Header_def GetUint64Header_def PutUint64_def)

interpretation uint32_header: typed_header PutUint32Header GetUint32Header
  by unfold_locales (auto simp: PutUint32Header_def GetUint32Header_def PutUint32_def)

interpretation uint16_header: typed_header PutUint16Header GetUint16Header
  by unfold_locales (auto simp: PutUint16Header_def GetUint16Header_def PutUint16_def)

interpretation byte_header: typed_header PutByteHeader GetByteHeader
  by unfold_locales (auto simp: PutByteHeader_def GetByteHeader_def)

interpretation bool_header: typed_header PutBoolHeader GetBoolHeader
  by unfold_locales (auto simp: PutBoolHeader_def GetBoolHeader_def)

interpretation string_header: typed_header PutStringHeader GetStringHeader
  by unfold_locales (auto simp: PutStringHeader_def GetStringHeader_def)

section \<open>Messages\<close>

text \<open>
  \<^verbatim>\<open>MessageHeader\<close> and, embedding it, \<^verbatim>\<open>Message\<close>. \<open>replyFor\<close> is the
  cache pointer: \<open>None\<close> is the nil pointer.
\<close>

record MessageHeader =
  ContentType :: int32
  sequence :: int32
  replyFor :: "int32 option"
  Headers :: headers

record Message = MessageHeader +
  Body :: bytes

definition cacheReplyFor :: "'a MessageHeader_scheme \<Rightarrow> 'a MessageHeader_scheme" where
  "cacheReplyFor header =
     (case replyFor header of
        Some _ \<Rightarrow> header
      | None \<Rightarrow>
          (let val = (case Headers header ReplyForHeader of
                        None \<Rightarrow> -1
                      | Some b \<Rightarrow> if length b = replyForHeaderLen then le_get b else -1)
           in header\<lparr>replyFor := Some val\<rparr>))"

definition ReplyFor :: "'a MessageHeader_scheme \<Rightarrow> int32" where
  "ReplyFor header = the (replyFor (cacheReplyFor header))"

definition IsReply :: "'a MessageHeader_scheme \<Rightarrow> bool" where
  "IsReply header \<longleftrightarrow> ReplyFor header \<noteq> -1"

definition IsReplyingTo :: "int32 \<Rightarrow> 'a MessageHeader_scheme \<Rightarrow> bool" where
  "IsReplyingTo s header \<longleftrightarrow> ReplyFor header = s"

definition NewMessage :: "int32 \<Rightarrow> bytes \<Rightarrow> Message" where
  "NewMessage contentType body =
     \<lparr>ContentType = contentType, sequence = -1, replyFor = None, Headers = Map.empty, Body = body\<rparr>"

definition SetSequence :: "int32 \<Rightarrow> Message \<Rightarrow> Message" where
  "SetSequence s m = m\<lparr>sequence := s\<rparr>"

text \<open>\<open>ReplyTo o m\<close> is \<^verbatim>\<open>m.ReplyTo(o)\<close>.\<close>

definition ReplyTo :: "Message \<Rightarrow> Message \<Rightarrow> Message" where
  "ReplyTo req m =
     (let m' = m\<lparr>replyFor := Some (sequence req)\<rparr>
      in case Headers req ReflectedHeader of
           None \<Rightarrow> m'
         | Some value \<Rightarrow> m'\<lparr>Headers := (Headers m')(ReflectedHeader \<mapsto> value)\<rparr>)"

text \<open>Copying the entries of one header map over another (\<^verbatim>\<open>for key, value := range\<close>).\<close>

definition copyHeaders :: "headers \<Rightarrow> headers \<Rightarrow> headers" where
  "copyHeaders src dst = dst ++ src"

section \<open>Hello and Result messages\<close>

record Hello =
  IdToken :: string
  HelloHeaders :: headers

definition NewHello :: "string \<Rightarrow> headers \<Rightarrow> Message" where
  "NewHello idToken attributes =
     (let result = NewMessage ContentTypeHelloType (string_bytes idToken)
      in result\<lparr>Headers := copyHeaders attributes (Headers result)\<rparr>)"

definition UnmarshalHello :: "Message \<Rightarrow> Hello" where
  "UnmarshalHello message = \<lparr>IdToken = bytes_string (Body message), HelloHeaders = Headers message\<rparr>"

definition NewResult :: "bool \<Rightarrow> string \<Rightarrow> Message" where
  "NewResult success message =
     (let msg = NewMessage ContentTypeResultType (string_bytes message)
      in msg\<lparr>Headers := PutBoolHeader ResultSuccessHeader success (Headers msg)\<rparr>)"

record Result =
  Success :: bool
  ResultMessage :: string

definition UnmarshalResult :: "Message \<Rightarrow> Result" where
  "UnmarshalResult message =
     \<lparr>Success = fst (GetBoolHeader ResultSuccessHeader (Headers message)),
      ResultMessage = bytes_string (Body message)\<rparr>"

section \<open>Behaviour of the message operations\<close>

text \<open>
  The accessors \<^verbatim>\<open>ReplyFor\<close>, \<^verbatim>\<open>IsReply\<close> and \<^verbatim>\<open>IsReplyingTo\<close> dereference
  the cached pointer; \<^verbatim>\<open>cacheReplyFor\<close> makes that safe on every path.
\<close>

lemma cacheReplyFor_Some: "replyFor (cacheReplyFor m) \<noteq> None"
  by (simp add: cacheReplyFor_def Let_def split: option.splits)

lemma cacheReplyFor_idem [simp]: "cacheReplyFor (cacheReplyFor m) = cacheReplyFor m"
  by (simp add: cacheReplyFor_def Let_def split: option.splits)

lemma cacheReplyFor_Headers [simp]: "Headers (cacheReplyFor m) = Headers m"
  by (simp add: cacheReplyFor_def Let_def split: option.splits)

lemma ReplyFor_cached: "replyFor m = Some s \<Longrightarrow> ReplyFor m = s"
  by (simp add: ReplyFor_def cacheReplyFor_def)

lemma ReplyFor_uncached:
  "replyFor m = None \<Longrightarrow> ReplyFor m =
     (case Headers m ReplyForHeader of
        None \<Rightarrow> -1 | Some b \<Rightarrow> if length b = 4 then le_get b else -1)"
  by (simp add: ReplyFor_def cacheReplyFor_def replyForHeaderLen_def Let_def split: option.splits)

lemma ReplyTo_simps [simp]:
  "replyFor (ReplyTo req m) = Some (sequence req)" "ContentType (ReplyTo req m) = ContentType m"
  "sequence (ReplyTo req m) = sequence m" "Body (ReplyTo req m) = Body m"
  by (simp_all add: ReplyTo_def Let_def split: option.splits)

lemma Headers_ReplyTo:
  "Headers (ReplyTo req m) k =
     (if k = ReflectedHeader \<and> Headers req ReflectedHeader \<noteq> None then Headers req ReflectedHeader
      else Headers m k)"
  by (auto simp: ReplyTo_def Let_def split: option.splits)

lemma UnmarshalHello_NewHello:
  "UnmarshalHello (NewHello tok attrs) = \<lparr>IdToken = tok, HelloHeaders = attrs\<rparr>"
  by (simp add: UnmarshalHello_def NewHello_def NewMessage_def copyHeaders_def)

lemma UnmarshalResult_NewResult:
  "UnmarshalResult (NewResult ok msg) = \<lparr>Success = ok, ResultMessage = msg\<rparr>"
  by (simp add: UnmarshalResult_def NewResult_def NewMessage_def bool_header.get_put)


text \<open>
  A value of the wrong length is answered differently by the getters: the 64-bit and the
  byte getter report it present with value 0, the 32-bit and the 16-bit getter absent.
\<close>

theorem malformed_header_presence:
  assumes "h key = Some b" "length b \<noteq> 8" "length b \<noteq> 4" "length b \<noteq> 2"
  shows "GetUint64Header key h = (0, True)" "GetUint32Header key h = (0, False)" "GetUint16Header key h = (0, False)"
    and "b = [] \<Longrightarrow> GetByteHeader key h = (0, True)"
  using assms by (simp_all add: GetUint64Header_def GetUint32Header_def GetUint16Header_def GetByteHeader_def)

end
