(* ===== verification/Header_Codecs.thy ===== *)
theory Header_Codecs
  imports Headers
begin

text \<open>
  The composite header values of \<^verbatim>\<open>message.go\<close>, lines 297--337 and 778--991: string
  slices, uint32-to-bytes maps and string-to-string maps. The encoders compute the length
  first, then write through an index into a buffer of that length and panic when the index
  does not end at the length; the model keeps the buffer, the index and the panic. The
  decoders check every length against the remaining bytes. The locale \<open>item_codec\<close> is
  the contract between an entry's encoding and its decoding, from which the round trips of the
  three containers follow.
\<close>

section \<open>Writing into a buffer\<close>

text \<open>\<^verbatim>\<open>binary.LittleEndian.PutUint32(buf[idx:], v)\<close> and \<^verbatim>\<open>copy(buf[idx:], s)\<close>.\<close>

definition put32_at :: "bytes \<Rightarrow> nat \<Rightarrow> uint32 \<Rightarrow> bytes res" where
  "put32_at buf idx v =
     (if idx + 4 \<le> length buf then Inr (take idx buf @ PutUint32 v @ drop (idx + 4) buf) else Inl GoPanic)"

definition copy_at :: "bytes \<Rightarrow> nat \<Rightarrow> bytes \<Rightarrow> bytes res" where
  "copy_at buf idx s =
     (if idx \<le> length buf then
        Inr (let n = min (length s) (length buf - idx) in take idx buf @ take n s @ drop (idx + n) buf)
      else Inl GoPanic)"

lemma put32_at_fill [simp]:
  "4 \<le> length hole \<Longrightarrow> put32_at (pre @ hole) (length pre) v = Inr (pre @ PutUint32 v @ drop 4 hole)"
  by (simp add: put32_at_def)

lemma copy_at_fill [simp]:
  "length s \<le> length hole \<Longrightarrow> copy_at (pre @ hole) (length pre) s = Inr (pre @ s @ drop (length s) hole)"
  by (simp add: copy_at_def Let_def)

section \<open>String slices\<close>

definition DecodeString :: "string \<Rightarrow> bytes \<Rightarrow> (bytes \<times> string) res" where
  "DecodeString t b =
     rbind (fail_if (length b < 4) (ErrText (''invalid string in '' @ t @ '', not enough bytes for string length''))) (\<lambda>_.
     rbind (slice b 0 4) (\<lambda>hd4. rbind (Uint32 hd4) (\<lambda>sl.
     rbind (fail_if (sl > 8192) (ErrText (''strings in '' @ t @ '' may have max length 8192''))) (\<lambda>_.
     rbind (slice b 4 (length b)) (\<lambda>b.
     rbind (fail_if (sl > word_of_nat (length b))
              (ErrText (''invalid string length in '' @ t @ '', longer than remaining data''))) (\<lambda>_.
     rbind (slice b 0 (unat sl)) (\<lambda>s.
     rbind (slice b (unat sl) (length b)) (\<lambda>b.
     Inr (b, bytes_string s)))))))))"

fun EncodeStringSlice_loop :: "string list \<Rightarrow> bytes \<Rightarrow> nat \<Rightarrow> (bytes \<times> nat) res" where
  "EncodeStringSlice_loop [] result idx = Inr (result, idx)"
| "EncodeStringSlice_loop (s # ss) result idx =
     rbind (put32_at result idx (word_of_nat (length s))) (\<lambda>result.
     rbind (copy_at result (idx + 4) (string_bytes s)) (\<lambda>result.
     EncodeStringSlice_loop ss result (idx + (4 + length s))))"

definition EncodeStringSlice :: "string list \<Rightarrow> bytes res" where
  "EncodeStringSlice strSlice =
     (if strSlice = [] then Inr []
      else
        let l = 4 + 4 * length strSlice + sum_list (map length strSlice)
        in rbind (put32_at (replicate l 0) 0 (word_of_nat (length strSlice))) (\<lambda>result.
           rbind (EncodeStringSlice_loop strSlice result 4) (\<lambda>(result, idx).
           if idx \<noteq> l then Inl GoPanic else Inr result)))"

text \<open>The decode loop runs \<open>l\<close> times; \<open>result\<close> is the slice appended to.\<close>

fun DecodeStringSlice_loop :: "nat \<Rightarrow> bytes \<Rightarrow> string list \<Rightarrow> string list res" where
  "DecodeStringSlice_loop 0 b result = Inr result"
| "DecodeStringSlice_loop (Suc n) b result =
     rbind (DecodeString ''string slice'' b) (\<lambda>(b, s). DecodeStringSlice_loop n b (result @ [s]))"

definition DecodeStringSlice :: "bytes \<Rightarrow> string list res" where
  "DecodeStringSlice b =
     (if b = [] then Inr []
      else rbind (fail_if (length b < 4) (ErrText ''invalid string slice, not enough bytes for slice length'')) (\<lambda>_.
           rbind (slice b 0 4) (\<lambda>hd4. rbind (Uint32 hd4) (\<lambda>l.
           rbind (fail_if (l > 128) (ErrText ''string slice may have at most 128 entries'')) (\<lambda>_.
           rbind (slice b 4 (length b)) (\<lambda>b.
           DecodeStringSlice_loop (unat l) b []))))))"

section \<open>Maps from uint32 to bytes\<close>

fun EncodeU32ToBytesMap_loop :: "uint32 list \<Rightarrow> (uint32 \<rightharpoonup> bytes) \<Rightarrow> bytes \<Rightarrow> nat \<Rightarrow> (bytes \<times> nat) res" where
  "EncodeU32ToBytesMap_loop [] m result idx = Inr (result, idx)"
| "EncodeU32ToBytesMap_loop (k # ks) m result idx =
     (let v = the (m k)
      in rbind (put32_at result idx k) (\<lambda>result.
         rbind (put32_at result (idx + 4) (word_of_nat (length v))) (\<lambda>result.
         rbind (copy_at result (idx + 8) v) (\<lambda>result.
         EncodeU32ToBytesMap_loop ks m result (idx + (8 + length v))))))"

text \<open>The two loops over the map may visit it in different orders, \<open>ks1\<close> and \<open>ks2\<close>.\<close>

definition EncodeU32ToBytesMap :: "uint32 list \<Rightarrow> uint32 list \<Rightarrow> (uint32 \<rightharpoonup> bytes) \<Rightarrow> bytes res" where
  "EncodeU32ToBytesMap ks1 ks2 m =
     (if ks1 = [] then Inr []
      else
        let l = 4 + 8 * length ks1 + sum_list (map (\<lambda>k. length (the (m k))) ks1)
        in rbind (put32_at (replicate l 0) 0 (word_of_nat (length ks1))) (\<lambda>result.
           rbind (EncodeU32ToBytesMap_loop ks2 m result 4) (\<lambda>(result, idx).
           if idx \<noteq> l then Inl GoPanic else Inr result)))"

text \<open>One turn of the decode loop, lines 899--920: the remaining bytes and the entry.\<close>

definition DecodeU32ToBytesEntry :: "bytes \<Rightarrow> (bytes \<times> (uint32 \<times> bytes)) res" where
  "DecodeU32ToBytesEntry b =
     rbind (fail_if (length b < 4) (ErrText ''invalid uint32->bytes map, not enough bytes for key'')) (\<lambda>_.
     rbind (slice b 0 4) (\<lambda>kb. rbind (Uint32 kb) (\<lambda>key.
     rbind (slice b 4 (length b)) (\<lambda>b.
     rbind (fail_if (length b < 4) (ErrText ''invalid uint32->bytes map, not enough bytes for entry length'')) (\<lambda>_.
     rbind (slice b 0 4) (\<lambda>lb. rbind (Uint32 lb) (\<lambda>entryLen.
     rbind (fail_if (entryLen > 8192) (ErrText ''entries in uint32->bytes map may have max length 8192'')) (\<lambda>_.
     rbind (slice b 4 (length b)) (\<lambda>b.
     rbind (fail_if (entryLen > word_of_nat (length b))
              (ErrText ''invalid uint32->bytes map entry length, longer than remaining data'')) (\<lambda>_.
     if entryLen = 0 then Inr (b, (key, []))
     else rbind (slice b 0 (unat entryLen)) (\<lambda>v.
          rbind (slice b (unat entryLen) (length b)) (\<lambda>b. Inr (b, (key, v))))))))))))))"

fun DecodeU32ToBytesMap_loop :: "nat \<Rightarrow> bytes \<Rightarrow> (uint32 \<rightharpoonup> bytes) \<Rightarrow> (uint32 \<rightharpoonup> bytes) res" where
  "DecodeU32ToBytesMap_loop 0 b result = Inr result"
| "DecodeU32ToBytesMap_loop (Suc n) b result =
     rbind (DecodeU32ToBytesEntry b) (\<lambda>(b, (key, v)). DecodeU32ToBytesMap_loop n b (result(key \<mapsto> v)))"

definition DecodeU32ToBytesMap :: "bytes \<Rightarrow> (uint32 \<rightharpoonup> bytes) res" where
  "DecodeU32ToBytesMap b =
     (if b = [] then Inr Map.empty
      else rbind (fail_if (length b < 4) (ErrText ''invalid uint32->bytes map, not enough bytes for map length'')) (\<lambda>_.
           rbind (slice b 0 4) (\<lambda>hd4. rbind (Uint32 hd4) (\<lambda>l.
           rbind (fail_if (l > 128) (ErrText ''uint32->bytes map may have at most 128 entries'')) (\<lambda>_.
           rbind (slice b 4 (length b)) (\<lambda>b.
           DecodeU32ToBytesMap_loop (unat l) b Map.empty))))))"

section \<open>Maps from string to string\<close>

fun EncodeStringToStringMap_loop :: "string list \<Rightarrow> (string \<rightharpoonup> string) \<Rightarrow> bytes \<Rightarrow> nat \<Rightarrow> (bytes \<times> nat) res" where
  "EncodeStringToStringMap_loop [] m result idx = Inr (result, idx)"
| "EncodeStringToStringMap_loop (k # ks) m result idx =
     (let v = the (m k)
      in rbind (put32_at result idx (word_of_nat (length k))) (\<lambda>result.
         rbind (copy_at result (idx + 4) (string_bytes k)) (\<lambda>result.
         let idx = idx + (4 + length k)
         in rbind (put32_at result idx (word_of_nat (length v))) (\<lambda>result.
            rbind (copy_at result (idx + 4) (string_bytes v)) (\<lambda>result.
            EncodeStringToStringMap_loop ks m result (idx + (4 + length v)))))))"

definition EncodeStringToStringMap :: "string list \<Rightarrow> string list \<Rightarrow> (string \<rightharpoonup> string) \<Rightarrow> bytes res" where
  "EncodeStringToStringMap ks1 ks2 m =
     (if ks1 = [] then Inr []
      else
        let l = 4 + 8 * length ks1 + sum_list (map (\<lambda>k. length k + length (the (m k))) ks1)
        in rbind (put32_at (replicate l 0) 0 (word_of_nat (length ks1))) (\<lambda>result.
           rbind (EncodeStringToStringMap_loop ks2 m result 4) (\<lambda>(result, idx).
           if idx \<noteq> l then Inl GoPanic else Inr result)))"

fun DecodeStringToStringMap_loop :: "nat \<Rightarrow> bytes \<Rightarrow> (string \<rightharpoonup> string) \<Rightarrow> (string \<rightharpoonup> string) res" where
  "DecodeStringToStringMap_loop 0 b result = Inr result"
| "DecodeStringToStringMap_loop (Suc n) b result =
     rbind (DecodeString ''string->string map'' b) (\<lambda>(b, key).
     rbind (DecodeString ''string->string map'' b) (\<lambda>(b, val).
     DecodeStringToStringMap_loop n b (result(key \<mapsto> val))))"

definition DecodeStringToStringMap :: "bytes \<Rightarrow> (string \<rightharpoonup> string) res" where
  "DecodeStringToStringMap b =
     (if b = [] then Inr Map.empty
      else rbind (fail_if (length b < 4) (ErrText ''invalid string->string map, not enough bytes for map length'')) (\<lambda>_.
           rbind (slice b 0 4) (\<lambda>hd4. rbind (Uint32 hd4) (\<lambda>l.
           rbind (fail_if (l > 128) (ErrText ''string->string map may have at most 128 entries'')) (\<lambda>_.
           rbind (slice b 4 (length b)) (\<lambda>b.
           DecodeStringToStringMap_loop (unat l) b Map.empty))))))"

section \<open>Composite header accessors\<close>

text \<open>The Get accessors return the value, whether the key was found, and the decoder's error.\<close>

definition decoded :: "'a \<Rightarrow> 'a res \<Rightarrow> 'a \<times> bool \<times> err option" where
  "decoded nil r = (case r of Inl e \<Rightarrow> (nil, True, Some e) | Inr v \<Rightarrow> (v, True, None))"

definition PutStringSliceHeader :: "int32 \<Rightarrow> string list \<Rightarrow> headers \<Rightarrow> headers res" where
  "PutStringSliceHeader key s h = rbind (EncodeStringSlice s) (\<lambda>b. Inr (h(key \<mapsto> b)))"

definition GetStringSliceHeader :: "int32 \<Rightarrow> headers \<Rightarrow> string list \<times> bool \<times> err option" where
  "GetStringSliceHeader key h =
     (case h key of None \<Rightarrow> ([], False, None) | Some encoded \<Rightarrow> decoded [] (DecodeStringSlice encoded))"

definition PutU32ToBytesMapHeader ::
    "uint32 list \<Rightarrow> uint32 list \<Rightarrow> int32 \<Rightarrow> (uint32 \<rightharpoonup> bytes) \<Rightarrow> headers \<Rightarrow> headers res" where
  "PutU32ToBytesMapHeader ks1 ks2 key m h = rbind (EncodeU32ToBytesMap ks1 ks2 m) (\<lambda>b. Inr (h(key \<mapsto> b)))"

definition GetU32ToBytesMapHeader :: "int32 \<Rightarrow> headers \<Rightarrow> (uint32 \<rightharpoonup> bytes) \<times> bool \<times> err option" where
  "GetU32ToBytesMapHeader key h =
     (case h key of None \<Rightarrow> (Map.empty, False, None) | Some encoded \<Rightarrow> decoded Map.empty (DecodeU32ToBytesMap encoded))"

definition PutStringToStringMapHeader ::
    "string list \<Rightarrow> string list \<Rightarrow> int32 \<Rightarrow> (string \<rightharpoonup> string) \<Rightarrow> headers \<Rightarrow> headers res" where
  "PutStringToStringMapHeader ks1 ks2 key m h =
     rbind (EncodeStringToStringMap ks1 ks2 m) (\<lambda>b. Inr (h(key \<mapsto> b)))"

definition GetStringToStringMapHeader :: "int32 \<Rightarrow> headers \<Rightarrow> (string \<rightharpoonup> string) \<times> bool \<times> err option" where
  "GetStringToStringMapHeader key h =
     (case h key of None \<Rightarrow> (Map.empty, False, None)
      | Some encoded \<Rightarrow> decoded Map.empty (DecodeStringToStringMap encoded))"

section \<open>The contract of an entry codec\<close>

text \<open>
  An entry's encoding \<open>enc\<close>, the decoder \<open>dec\<close> of one entry and the entries \<open>ok\<close>
  within the decoder's limits: decoding an encoded entry gives the entry and leaves the bytes
  behind it, and no input makes the decoder panic. A list of entries then decodes entry by
  entry. The bound on the input is the one below which \<^verbatim>\<open>uint32(len(b))\<close> is exact.
\<close>

fun decode_items :: "(bytes \<Rightarrow> (bytes \<times> 'a) res) \<Rightarrow> nat \<Rightarrow> bytes \<Rightarrow> (bytes \<times> 'a list) res" where
  "decode_items dec 0 b = Inr (b, [])"
| "decode_items dec (Suc n) b =
     rbind (dec b) (\<lambda>(b, x). rbind (decode_items dec n b) (\<lambda>(b, xs). Inr (b, x # xs)))"

locale item_codec =
  fixes enc :: "'a \<Rightarrow> bytes" and dec :: "bytes \<Rightarrow> (bytes \<times> 'a) res" and ok :: "'a \<Rightarrow> bool"
  assumes dec_enc: "ok x \<Longrightarrow> length (enc x @ rest) < 2 ^ 32 \<Longrightarrow> dec (enc x @ rest) = Inr (rest, x)"
    and dec_no_panic: "dec b \<noteq> Inl GoPanic"
begin

lemma decode_items_enc:
  "list_all ok xs \<Longrightarrow> length (concat (map enc xs) @ rest) < 2 ^ 32 \<Longrightarrow>
   decode_items dec (length xs) (concat (map enc xs) @ rest) = Inr (rest, xs)"
proof (induction xs)
  case Nil
  then show ?case by simp
next
  case (Cons x xs)
  then have "dec (enc x @ concat (map enc xs) @ rest) = Inr (concat (map enc xs) @ rest, x)"
    by (intro dec_enc) simp_all
  with Cons show ?case by simp
qed

lemma decode_items_no_panic: "decode_items dec n b \<noteq> Inl GoPanic"
  by (induction n arbitrary: b) (auto simp: res_simps dec_no_panic)

end

definition enc_string :: "string \<Rightarrow> bytes" where
  "enc_string s = PutUint32 (word_of_nat (length s)) @ string_bytes s"

definition enc_u32_entry :: "uint32 \<times> bytes \<Rightarrow> bytes" where
  "enc_u32_entry = (\<lambda>(k, v). PutUint32 k @ PutUint32 (word_of_nat (length v)) @ v)"

definition enc_string_pair :: "string \<times> string \<Rightarrow> bytes" where
  "enc_string_pair = (\<lambda>(k, v). enc_string k @ enc_string v)"

definition dec_string_pair :: "string \<Rightarrow> bytes \<Rightarrow> (bytes \<times> (string \<times> string)) res" where
  "dec_string_pair t b =
     rbind (DecodeString t b) (\<lambda>(b, k). rbind (DecodeString t b) (\<lambda>(b, v). Inr (b, (k, v))))"

abbreviation entry_fits :: "'a list \<Rightarrow> bool" where
  "entry_fits v \<equiv> length v \<le> 8192"

lemma length_enc [simp]:
  "length (enc_string s) = 4 + length s"
  "length (enc_u32_entry (k, v)) = 8 + length v"
  "length (enc_string_pair (s, t)) = 8 + length s + length t"
  by (simp_all add: enc_string_def enc_u32_entry_def enc_string_pair_def)

lemma of_nat_le_limit:
  assumes "n \<le> L" "L < 2 ^ 32"
  shows "\<not> (word_of_nat L :: uint32) < word_of_nat n" "unat (word_of_nat n :: uint32) = n"
proof -
  from assms have n: "n < 2 ^ 32" by simp
  show u: "unat (word_of_nat n :: uint32) = n"
    using n by (simp add: unat_of_nat)
  have "unat (word_of_nat L :: uint32) = L"
    using assms by (simp add: unat_of_nat)
  with u assms show "\<not> (word_of_nat L :: uint32) < word_of_nat n"
    by (simp add: word_less_nat_alt)
qed

lemma of_nat_le_8192: "n \<le> 8192 \<Longrightarrow> \<not> (8192 :: uint32) < word_of_nat n"
  using of_nat_le_limit(1) [of n 8192] by simp

lemma of_nat_le_128: "n \<le> 128 \<Longrightarrow> \<not> (128 :: uint32) < word_of_nat n"
  using of_nat_le_limit(1) [of n 128] by simp

lemma unat_le_length: "\<not> (word_of_nat n :: uint32) < v \<Longrightarrow> unat v \<le> n"
proof -
  assume "\<not> (word_of_nat n :: uint32) < v"
  then have "unat v \<le> unat (word_of_nat n :: uint32)"
    by (simp add: word_less_nat_alt)
  also have "\<dots> \<le> n" by (simp add: unat_of_nat)
  finally show ?thesis .
qed

lemma of_nat_less_unat: "\<not> unat v \<le> n \<Longrightarrow> (word_of_nat n :: uint32) < v"
  using unat_le_length by blast

lemma DecodeString_enc:
  assumes "entry_fits s" "length (enc_string s @ rest) < 2 ^ 32"
  shows "DecodeString t (enc_string s @ rest) = Inr (rest, s)"
proof -
  have "length s \<le> length (string_bytes s @ rest)" "length (string_bytes s @ rest) < 2 ^ 32"
    using assms by simp_all
  note len = of_nat_le_limit [OF this]
  show ?thesis
    using assms(1) len of_nat_le_8192 [of "length s"]
    by (simp add: DecodeString_def enc_string_def)
qed

lemma DecodeString_no_panic: "DecodeString t b \<noteq> Inl GoPanic"
  by (auto simp: DecodeString_def res_simps simp del: of_nat_diff intro: of_nat_less_unat)

interpretation string_codec: item_codec enc_string "DecodeString t" entry_fits for t
  by unfold_locales (simp_all add: DecodeString_enc DecodeString_no_panic)

lemma dec_string_pair_enc:
  assumes "entry_fits k" "entry_fits v" "length (enc_string_pair (k, v) @ rest) < 2 ^ 32"
  shows "dec_string_pair t (enc_string_pair (k, v) @ rest) = Inr (rest, (k, v))"
proof -
  have "DecodeString t (enc_string k @ enc_string v @ rest) = Inr (enc_string v @ rest, k)"
    "DecodeString t (enc_string v @ rest) = Inr (rest, v)"
    using assms by (auto intro!: DecodeString_enc)
  then show ?thesis by (simp add: dec_string_pair_def enc_string_pair_def)
qed

lemma dec_string_pair_no_panic: "dec_string_pair t b \<noteq> Inl GoPanic"
  by (auto simp: dec_string_pair_def res_simps DecodeString_no_panic)

interpretation string_pair_codec: item_codec enc_string_pair "dec_string_pair t"
    "\<lambda>(k, v). entry_fits k \<and> entry_fits v" for t
  by unfold_locales (auto simp: dec_string_pair_enc dec_string_pair_no_panic)

lemma DecodeU32ToBytesEntry_enc:
  assumes "entry_fits v" "length (enc_u32_entry (k, v) @ rest) < 2 ^ 32"
  shows "DecodeU32ToBytesEntry (enc_u32_entry (k, v) @ rest) = Inr (rest, (k, v))"
proof -
  have "length v \<le> length (v @ rest)" "length (v @ rest) < 2 ^ 32"
    using assms by simp_all
  note len = of_nat_le_limit [OF this]
  have zero: "(word_of_nat (length v) :: uint32) = 0 \<longleftrightarrow> v = []"
    by (simp only: unat_0_iff [symmetric] len(2) length_0_conv)
  show ?thesis
    using assms(1) len zero of_nat_le_8192 [of "length v"]
    by (simp add: DecodeU32ToBytesEntry_def enc_u32_entry_def)
qed

lemma DecodeU32ToBytesEntry_no_panic: "DecodeU32ToBytesEntry b \<noteq> Inl GoPanic"
  by (auto simp: DecodeU32ToBytesEntry_def res_simps simp del: of_nat_diff split: if_splits intro: of_nat_less_unat)

interpretation u32_codec: item_codec enc_u32_entry DecodeU32ToBytesEntry "\<lambda>(k, v). entry_fits v"
  by unfold_locales (auto simp: DecodeU32ToBytesEntry_enc DecodeU32ToBytesEntry_no_panic)

section \<open>The contract of an encode loop\<close>

text \<open>
  An encode loop fills the free part of its buffer with one entry after the other and moves
  the index behind it. With the length the encoders compute, the buffer is filled exactly and
  the length check at their end never fires.
\<close>

locale buffer_writer =
  fixes enc :: "'a \<Rightarrow> bytes" and loop :: "'a list \<Rightarrow> bytes \<Rightarrow> nat \<Rightarrow> (bytes \<times> nat) res"
  assumes loop_Nil: "loop [] buf idx = Inr (buf, idx)"
    and loop_Cons: "length (enc x) \<le> length hole \<Longrightarrow>
      loop (x # xs) (pre @ hole) (length pre) =
        loop xs ((pre @ enc x) @ drop (length (enc x)) hole) (length (pre @ enc x))"
begin

lemma loop_fill:
  "length (concat (map enc xs)) \<le> length hole \<Longrightarrow>
   loop xs (pre @ hole) (length pre) =
     Inr (pre @ concat (map enc xs) @ drop (length (concat (map enc xs))) hole,
          length pre + length (concat (map enc xs)))"
proof (induction xs arbitrary: pre hole)
  case Nil
  then show ?case by (simp add: loop_Nil)
next
  case (Cons x xs)
  let ?hole = "drop (length (enc x)) hole"
  have "loop xs ((pre @ enc x) @ ?hole) (length (pre @ enc x)) =
      Inr ((pre @ enc x) @ concat (map enc xs) @ drop (length (concat (map enc xs))) ?hole,
           length (pre @ enc x) + length (concat (map enc xs)))"
    using Cons.prems by (intro Cons.IH) simp
  then show ?case
    using Cons.prems loop_Cons [of x hole xs pre] by (simp add: add.commute)
qed

lemma write_all:
  assumes "l = 4 + length (concat (map enc xs))"
  shows "rbind (put32_at (replicate l 0) 0 n) (\<lambda>result. rbind (loop xs result 4) (\<lambda>(result, idx).
      if idx \<noteq> l then Inl GoPanic else Inr result)) = Inr (PutUint32 n @ concat (map enc xs))"
proof -
  have "put32_at (replicate l 0) 0 n = Inr (PutUint32 n @ replicate (l - 4) 0)"
    using assms by (simp add: put32_at_def)
  then show ?thesis
    using assms loop_fill [of xs "replicate (l - 4) 0" "PutUint32 n"] by simp
qed

end

abbreviation enc_u32_key :: "(uint32 \<rightharpoonup> bytes) \<Rightarrow> uint32 \<Rightarrow> bytes" where
  "enc_u32_key m k \<equiv> enc_u32_entry (k, the (m k))"

abbreviation enc_string_key :: "(string \<rightharpoonup> string) \<Rightarrow> string \<Rightarrow> bytes" where
  "enc_string_key m k \<equiv> enc_string_pair (k, the (m k))"

lemma write_string:
  assumes "length (enc_string s) \<le> length hole"
  shows "rbind (put32_at (pre @ hole) (length pre) (word_of_nat (length s))) (\<lambda>result.
           rbind (copy_at result (length pre + 4) (string_bytes s)) f) =
         f ((pre @ enc_string s) @ drop (length (enc_string s)) hole)"
  using assms copy_at_fill [of "string_bytes s" "drop 4 hole" "pre @ PutUint32 (word_of_nat (length s))"]
  by (simp add: enc_string_def add.commute)

interpretation string_writer: buffer_writer enc_string EncodeStringSlice_loop
proof unfold_locales
  fix s ss and hole pre :: bytes
  assume "length (enc_string s) \<le> length hole"
  from write_string [OF this]
  show "EncodeStringSlice_loop (s # ss) (pre @ hole) (length pre) =
      EncodeStringSlice_loop ss ((pre @ enc_string s) @ drop (length (enc_string s)) hole) (length (pre @ enc_string s))"
    by simp
qed simp

interpretation u32_writer: buffer_writer "enc_u32_key m" "\<lambda>ks. EncodeU32ToBytesMap_loop ks m" for m
proof unfold_locales
  fix k ks and hole pre :: bytes
  let ?v = "the (m k)" and ?k = "PutUint32 k" and ?n = "PutUint32 (word_of_nat (length (the (m k))))"
  assume "length (enc_u32_key m k) \<le> length hole"
  then have "4 \<le> length hole" "4 \<le> length (drop 4 hole)" "length ?v \<le> length (drop 8 hole)"
    by simp_all
  then show "EncodeU32ToBytesMap_loop (k # ks) m (pre @ hole) (length pre) =
      EncodeU32ToBytesMap_loop ks m ((pre @ enc_u32_key m k) @ drop (length (enc_u32_key m k)) hole)
        (length (pre @ enc_u32_key m k))"
    using put32_at_fill [of "drop 4 hole" "pre @ ?k" "word_of_nat (length ?v)"]
      copy_at_fill [of ?v "drop 8 hole" "pre @ ?k @ ?n"]
    by (simp add: Let_def enc_u32_entry_def add.commute)
qed simp

interpretation string_map_writer: buffer_writer "enc_string_key m" "\<lambda>ks. EncodeStringToStringMap_loop ks m" for m
proof unfold_locales
  fix k ks and hole pre :: bytes
  let ?v = "the (m k)" and ?pre = "pre @ enc_string k" and ?hole = "drop (length (enc_string k)) hole"
  assume len: "length (enc_string_key m k) \<le> length hole"
  then have k: "length (enc_string k) \<le> length hole" and v: "length (enc_string ?v) \<le> length ?hole"
    by simp_all
  have "EncodeStringToStringMap_loop (k # ks) m (pre @ hole) (length pre) =
      rbind (put32_at (?pre @ ?hole) (length ?pre) (word_of_nat (length ?v))) (\<lambda>result.
      rbind (copy_at result (length ?pre + 4) (string_bytes ?v)) (\<lambda>result.
      EncodeStringToStringMap_loop ks m result (length ?pre + (4 + length ?v))))"
    unfolding EncodeStringToStringMap_loop.simps Let_def
    by (rule trans [OF write_string [OF k]]) (simp only: length_append length_enc)
  also have "\<dots> = EncodeStringToStringMap_loop ks m ((?pre @ enc_string ?v) @ drop (length (enc_string ?v)) ?hole)
      (length ?pre + (4 + length ?v))"
    by (rule write_string [OF v])
  also have "(?pre @ enc_string ?v) @ drop (length (enc_string ?v)) ?hole =
      (pre @ enc_string_key m k) @ drop (length (enc_string_key m k)) hole"
    by (simp add: enc_string_pair_def add.commute)
  also have "length ?pre + (4 + length ?v) = length (pre @ enc_string_key m k)"
    by (simp add: enc_string_pair_def)
  finally show "EncodeStringToStringMap_loop (k # ks) m (pre @ hole) (length pre) =
      EncodeStringToStringMap_loop ks m ((pre @ enc_string_key m k) @ drop (length (enc_string_key m k)) hole)
        (length (pre @ enc_string_key m k))" .
qed simp

section \<open>The encoders write the concatenated entries\<close>

lemma length_concat_enc:
  "length (concat (map enc_string ss)) = 4 * length ss + sum_list (map length ss)"
  "length (concat (map (enc_u32_key m) ks)) = 8 * length ks + sum_list (map (\<lambda>k. length (the (m k))) ks)"
  "length (concat (map (enc_string_key p) qs)) =
     8 * length qs + sum_list (map (\<lambda>k. length k + length (the (p k))) qs)"
  by (induction ss, simp_all, induction ks, simp_all, induction qs, simp_all)

lemma EncodeStringSlice_eq:
  "EncodeStringSlice ss =
     Inr (if ss = [] then [] else PutUint32 (word_of_nat (length ss)) @ concat (map enc_string ss))"
  using string_writer.write_all [of _ ss]
  by (simp add: EncodeStringSlice_def Let_def length_concat_enc add.assoc)

lemma EncodeU32ToBytesMap_eq:
  assumes "enumerates ks1 m" "enumerates ks2 m"
  shows "EncodeU32ToBytesMap ks1 ks2 m =
    Inr (if ks2 = [] then [] else PutUint32 (word_of_nat (length ks2)) @ concat (map (enc_u32_key m) ks2))"
proof -
  have "ks1 = [] \<longleftrightarrow> ks2 = []" "length ks1 = length ks2"
    using assms by (auto simp: enumerates_def enumerates_length)
  then show ?thesis
    using enumerates_mset [OF assms] u32_writer.write_all [of _ m ks2]
    by (simp add: EncodeU32ToBytesMap_def Let_def length_concat_enc add.assoc)
qed

lemma EncodeStringToStringMap_eq:
  assumes "enumerates ks1 m" "enumerates ks2 m"
  shows "EncodeStringToStringMap ks1 ks2 m =
    Inr (if ks2 = [] then [] else PutUint32 (word_of_nat (length ks2)) @ concat (map (enc_string_key m) ks2))"
proof -
  have "ks1 = [] \<longleftrightarrow> ks2 = []" "length ks1 = length ks2"
    using assms by (auto simp: enumerates_def enumerates_length)
  then show ?thesis
    using enumerates_mset [OF assms] string_map_writer.write_all [of _ m ks2]
    by (simp add: EncodeStringToStringMap_def Let_def length_concat_enc add.assoc)
qed

section \<open>The decode loops as item decoders\<close>

lemma DecodeStringSlice_loop_items:
  "DecodeStringSlice_loop n b result =
     rbind (decode_items (DecodeString ''string slice'') n b) (\<lambda>(b, xs). Inr (result @ xs))"
  by (induction n arbitrary: b result)
    (auto simp: rbind_def split: sum.splits prod.splits)

lemma DecodeU32ToBytesMap_loop_items:
  "DecodeU32ToBytesMap_loop n b result =
     rbind (decode_items DecodeU32ToBytesEntry n b) (\<lambda>(b, xs). Inr (result ++ map_of (rev xs)))"
  by (induction n arbitrary: b result)
    (auto simp: rbind_def split: sum.splits prod.splits)

lemma DecodeStringToStringMap_loop_items:
  "DecodeStringToStringMap_loop n b result =
     rbind (decode_items (dec_string_pair ''string->string map'') n b) (\<lambda>(b, xs). Inr (result ++ map_of (rev xs)))"
  by (induction n arbitrary: b result)
    (auto simp: rbind_def dec_string_pair_def split: sum.splits prod.splits)

section \<open>Round trips, limits and the absence of panics\<close>

lemma DecodeStringSlice_entries:
  assumes "length ss \<le> 128" "ss \<noteq> []"
  shows "DecodeStringSlice (PutUint32 (word_of_nat (length ss)) @ b) = DecodeStringSlice_loop (length ss) b []"
  using assms of_nat_le_128 [of "length ss"] of_nat_le_limit(2) [of "length ss" 128]
  by (simp add: DecodeStringSlice_def)

lemma DecodeU32ToBytesMap_entries:
  assumes "length ks \<le> 128" "ks \<noteq> []"
  shows "DecodeU32ToBytesMap (PutUint32 (word_of_nat (length ks)) @ b) = DecodeU32ToBytesMap_loop (length ks) b Map.empty"
  using assms of_nat_le_128 [of "length ks"] of_nat_le_limit(2) [of "length ks" 128]
  by (simp add: DecodeU32ToBytesMap_def)

lemma DecodeStringToStringMap_entries:
  assumes "length ks \<le> 128" "ks \<noteq> []"
  shows "DecodeStringToStringMap (PutUint32 (word_of_nat (length ks)) @ b) =
    DecodeStringToStringMap_loop (length ks) b Map.empty"
  using assms of_nat_le_128 [of "length ks"] of_nat_le_limit(2) [of "length ks" 128]
  by (simp add: DecodeStringToStringMap_def)

lemma sum_list_bound: "(\<And>x. x \<in> set xs \<Longrightarrow> f x \<le> B) \<Longrightarrow> sum_list (map f xs) \<le> B * length (xs :: 'a list)"
  for B :: nat
  by (induction xs) (auto simp: add_mono)

lemma DecodeStringSlice_EncodeStringSlice:
  assumes "length ss \<le> 128" "\<forall>s\<in>set ss. entry_fits s"
  shows "rbind (EncodeStringSlice ss) DecodeStringSlice = Inr ss"
proof (cases "ss = []")
  case True
  then show ?thesis by (simp add: EncodeStringSlice_eq DecodeStringSlice_def)
next
  case False
  have "sum_list (map length ss) \<le> 8192 * length ss"
    using assms by (intro sum_list_bound) auto
  with assms have "length (concat (map enc_string ss) @ []) < 2 ^ 32"
    by (simp add: length_concat_enc)
  from string_codec.decode_items_enc [OF _ this] assms False show ?thesis
    by (simp add: EncodeStringSlice_eq DecodeStringSlice_entries DecodeStringSlice_loop_items list_all_iff)
qed

lemma DecodeU32ToBytesMap_EncodeU32ToBytesMap:
  assumes e: "enumerates ks1 m" "enumerates ks2 m"
    and "card (dom m) \<le> 128" "\<forall>v\<in>ran m. entry_fits v"
  shows "rbind (EncodeU32ToBytesMap ks1 ks2 m) DecodeU32ToBytesMap = Inr m"
proof (cases "ks2 = []")
  case True
  with e have "dom m = {}" by (simp add: enumerates_def)
  with True e show ?thesis by (simp add: EncodeU32ToBytesMap_eq DecodeU32ToBytesMap_def)
next
  case False
  let ?kvs = "map (\<lambda>k. (k, the (m k))) ks2"
  have n: "length ks2 \<le> 128" using assms enumerates_length by metis
  have fits: "entry_fits (the (m k))" if "k \<in> set ks2" for k
    using enumerates_lookup [OF e(2) that] assms(4) by (auto simp: ran_def)
  then have "sum_list (map (\<lambda>k. length (the (m k))) ks2) \<le> 8192 * length ks2"
    by (intro sum_list_bound) auto
  with n have len: "length (concat (map enc_u32_entry ?kvs) @ []) < 2 ^ 32"
    by (simp add: comp_def length_concat_enc)
  have "list_all (\<lambda>(k, v). entry_fits v) ?kvs" using fits by (simp add: list_all_iff)
  from u32_codec.decode_items_enc [OF this len] map_of_enumerates [OF e(2)] e n False show ?thesis
    by (simp add: EncodeU32ToBytesMap_eq DecodeU32ToBytesMap_entries DecodeU32ToBytesMap_loop_items comp_def)
qed

lemma DecodeStringToStringMap_EncodeStringToStringMap:
  assumes e: "enumerates ks1 m" "enumerates ks2 m"
    and "card (dom m) \<le> 128" "\<forall>k\<in>dom m. entry_fits k" "\<forall>v\<in>ran m. entry_fits v"
  shows "rbind (EncodeStringToStringMap ks1 ks2 m) DecodeStringToStringMap = Inr m"
proof (cases "ks2 = []")
  case True
  with e have "dom m = {}" by (simp add: enumerates_def)
  with True e show ?thesis by (simp add: EncodeStringToStringMap_eq DecodeStringToStringMap_def)
next
  case False
  let ?kvs = "map (\<lambda>k. (k, the (m k))) ks2"
  have n: "length ks2 \<le> 128" using assms enumerates_length by metis
  have fits: "entry_fits k \<and> entry_fits (the (m k))" if "k \<in> set ks2" for k
    using enumerates_lookup [OF e(2) that] assms(4,5) by (auto simp: ran_def)
  then have "sum_list (map (\<lambda>k. length k + length (the (m k))) ks2) \<le> 16384 * length ks2"
    by (intro sum_list_bound) fastforce
  with n have len: "length (concat (map enc_string_pair ?kvs) @ []) < 2 ^ 32"
    by (simp add: comp_def length_concat_enc)
  have "list_all (\<lambda>(k, v). entry_fits k \<and> entry_fits v) ?kvs" using fits by (simp add: list_all_iff)
  from string_pair_codec.decode_items_enc [OF this len] map_of_enumerates [OF e(2)] e n False show ?thesis
    by (simp add: EncodeStringToStringMap_eq DecodeStringToStringMap_entries
        DecodeStringToStringMap_loop_items comp_def)
qed

lemma encoders_no_panic:
  "EncodeStringSlice ss \<noteq> Inl e"
  "enumerates ks1 m \<Longrightarrow> enumerates ks2 m \<Longrightarrow> EncodeU32ToBytesMap ks1 ks2 m \<noteq> Inl e"
  "enumerates qs1 p \<Longrightarrow> enumerates qs2 p \<Longrightarrow> EncodeStringToStringMap qs1 qs2 p \<noteq> Inl e"
  by (simp_all add: EncodeStringSlice_eq EncodeU32ToBytesMap_eq EncodeStringToStringMap_eq)

lemma decoders_no_panic:
  "DecodeStringSlice b \<noteq> Inl GoPanic" "DecodeU32ToBytesMap b \<noteq> Inl GoPanic"
  "DecodeStringToStringMap b \<noteq> Inl GoPanic"
  by (auto simp: DecodeStringSlice_def DecodeU32ToBytesMap_def DecodeStringToStringMap_def res_simps
      DecodeStringSlice_loop_items DecodeU32ToBytesMap_loop_items DecodeStringToStringMap_loop_items
      string_codec.decode_items_no_panic u32_codec.decode_items_no_panic string_pair_codec.decode_items_no_panic)

text \<open>What a decoder accepts is within its limits.\<close>

lemma decode_items_all:
  assumes "\<And>b b' x. dec b = Inr (b', x) \<Longrightarrow> P x"
  shows "decode_items dec n b = Inr (b', xs) \<Longrightarrow> length xs = n \<and> list_all P xs"
  by (induction n arbitrary: b b' xs) (auto simp: res_simps dest: assms)

lemma DecodeString_fits: "DecodeString t b = Inr (b', s) \<Longrightarrow> entry_fits s"
  by (auto simp: DecodeString_def res_simps word_less_nat_alt)

lemma DecodeStringSlice_limits:
  assumes "DecodeStringSlice b = Inr ss"
  shows "length ss \<le> 128 \<and> list_all entry_fits ss"
proof -
  have "length ss \<le> 128 \<and> list_all entry_fits ss"
    if "decode_items (DecodeString ''string slice'') (unat l) b' = Inr (b'', ss)" "\<not> (128 :: uint32) < l" for l b' b''
    using decode_items_all [where P = entry_fits, OF DecodeString_fits that(1)] that(2)
    by (simp add: word_less_nat_alt)
  with assms show ?thesis
    by (auto simp: DecodeStringSlice_def DecodeStringSlice_loop_items res_simps split: if_splits)
qed

section \<open>Properties of the composite headers\<close>

lemma decoded_Inr [simp]: "decoded nil (Inr v) = (v, True, None)"
  by (simp add: decoded_def)

lemma string_slice_header_roundtrip:
  assumes "length ss \<le> 128" "\<forall>s\<in>set ss. entry_fits s"
  shows "\<exists>h'. PutStringSliceHeader key ss h = Inr h' \<and> GetStringSliceHeader key h' = (ss, True, None) \<and>
    (\<forall>k. k \<noteq> key \<longrightarrow> h' k = h k)"
  using DecodeStringSlice_EncodeStringSlice [OF assms]
  by (auto simp: PutStringSliceHeader_def GetStringSliceHeader_def res_simps)

lemma u32_map_header_roundtrip:
  assumes "enumerates ks1 m" "enumerates ks2 m" "card (dom m) \<le> 128" "\<forall>v\<in>ran m. entry_fits v"
  shows "\<exists>h'. PutU32ToBytesMapHeader ks1 ks2 key m h = Inr h' \<and> GetU32ToBytesMapHeader key h' = (m, True, None) \<and>
    (\<forall>k. k \<noteq> key \<longrightarrow> h' k = h k)"
  using DecodeU32ToBytesMap_EncodeU32ToBytesMap [OF assms]
  by (auto simp: PutU32ToBytesMapHeader_def GetU32ToBytesMapHeader_def res_simps)

lemma string_map_header_roundtrip:
  assumes "enumerates ks1 m" "enumerates ks2 m" "card (dom m) \<le> 128"
    and "\<forall>k\<in>dom m. entry_fits k" "\<forall>v\<in>ran m. entry_fits v"
  shows "\<exists>h'. PutStringToStringMapHeader ks1 ks2 key m h = Inr h' \<and>
    GetStringToStringMapHeader key h' = (m, True, None) \<and> (\<forall>k. k \<noteq> key \<longrightarrow> h' k = h k)"
  using DecodeStringToStringMap_EncodeStringToStringMap [OF assms]
  by (auto simp: PutStringToStringMapHeader_def GetStringToStringMapHeader_def res_simps)

text \<open>
  C37. What a composite header accessor puts, its counterpart gets: string slices and maps are read
  back unchanged and without an error, whatever the orders in which the encoders' loops range over
  a map, when they are within the decoders' limits of 128 entries of at most 8192 bytes; the other
  headers are not touched.
\<close>

theorem composite_headers_roundtrip:
  assumes "length ss \<le> 128" "\<forall>s\<in>set ss. entry_fits s"
    and "enumerates ks1 m" "enumerates ks2 m" "card (dom m) \<le> 128" "\<forall>v\<in>ran m. entry_fits v"
    and "enumerates qs1 p" "enumerates qs2 p" "card (dom p) \<le> 128" "\<forall>k\<in>dom p. entry_fits k" "\<forall>v\<in>ran p. entry_fits v"
  shows "(\<exists>h'. PutStringSliceHeader key ss h = Inr h' \<and> GetStringSliceHeader key h' = (ss, True, None) \<and>
      (\<forall>k. k \<noteq> key \<longrightarrow> h' k = h k)) \<and>
    (\<exists>h'. PutU32ToBytesMapHeader ks1 ks2 key m h = Inr h' \<and> GetU32ToBytesMapHeader key h' = (m, True, None) \<and>
      (\<forall>k. k \<noteq> key \<longrightarrow> h' k = h k)) \<and>
    (\<exists>h'. PutStringToStringMapHeader qs1 qs2 key p h = Inr h' \<and> GetStringToStringMapHeader key h' = (p, True, None) \<and>
      (\<forall>k. k \<noteq> key \<longrightarrow> h' k = h k))"
  using string_slice_header_roundtrip [OF assms(1,2)] u32_map_header_roundtrip [OF assms(3-6)]
    string_map_header_roundtrip [OF assms(7-11)] by blast

theorem composite_headers_roundtrip_witness:
  "(\<exists>h'. PutStringSliceHeader 5 [''a'', '''', ''bc''] Map.empty = Inr h' \<and> GetStringSliceHeader 5 h' = ([''a'', '''', ''bc''], True, None)) \<and>
   (\<exists>h'. PutU32ToBytesMapHeader [1, 2] [2, 1] 5 [1 \<mapsto> [7], 2 \<mapsto> []] Map.empty = Inr h' \<and>
     GetU32ToBytesMapHeader 5 h' = ([1 \<mapsto> [7], 2 \<mapsto> []], True, None)) \<and>
   (\<exists>h'. PutStringToStringMapHeader [''a'', ''''] ['''', ''a''] 5 [''a'' \<mapsto> ''x'', '''' \<mapsto> ''yz''] Map.empty = Inr h' \<and>
     GetStringToStringMapHeader 5 h' = ([''a'' \<mapsto> ''x'', '''' \<mapsto> ''yz''], True, None))"
proof -
  have e: "enumerates [1, 2 :: uint32] [1 \<mapsto> [7 :: byte], 2 \<mapsto> []]" "enumerates [2, 1 :: uint32] [1 \<mapsto> [7 :: byte], 2 \<mapsto> []]"
    "enumerates [''a'', ''''] [''a'' \<mapsto> ''x'', '''' \<mapsto> ''yz'']" "enumerates ['''', ''a''] [''a'' \<mapsto> ''x'', '''' \<mapsto> ''yz'']"
    by (simp_all add: enumerates_def insert_commute)
  show ?thesis
    using composite_headers_roundtrip [OF _ _ e(1,2) _ _ e(3,4), of "[''a'', '''', ''bc'']" 5 Map.empty] by auto
qed

text \<open>
  The codecs are total: no input makes a decoder index outside its slice, and the length
  check at the end of an encoder, which panics, never fires, for maps and slices of any size
  and every iteration order.
\<close>

theorem codecs_never_panic:
  "DecodeStringSlice b \<noteq> Inl GoPanic \<and> DecodeU32ToBytesMap b \<noteq> Inl GoPanic \<and>
   DecodeStringToStringMap b \<noteq> Inl GoPanic \<and> \<not> isl (EncodeStringSlice ss) \<and>
   (enumerates ks1 m \<and> enumerates ks2 m \<longrightarrow> \<not> isl (EncodeU32ToBytesMap ks1 ks2 m)) \<and>
   (enumerates qs1 p \<and> enumerates qs2 p \<longrightarrow> \<not> isl (EncodeStringToStringMap qs1 qs2 p))"
  using decoders_no_panic
  by (simp add: EncodeStringSlice_eq EncodeU32ToBytesMap_eq EncodeStringToStringMap_eq)

theorem codecs_never_panic_witness:
  "\<not> isl (EncodeU32ToBytesMap [1, 2] [2, 1] [1 \<mapsto> [7], 2 \<mapsto> []]) \<and>
   \<not> isl (EncodeStringToStringMap [''a''] [''a''] [''a'' \<mapsto> ''x''])"
  using codecs_never_panic [of "[]" "[]" "[1, 2]" "[1 \<mapsto> [7], 2 \<mapsto> []]" "[2, 1]" "[''a'']" "[''a'' \<mapsto> ''x'']" "[''a'']"]
  by (simp add: enumerates_def insert_commute)

text \<open>
  What a peer can make the string slice decoder allocate is bounded: a decoded slice has
  at most 128 strings of at most 8192 bytes each.
\<close>

theorem decoded_string_slice_bounded:
  assumes "GetStringSliceHeader key h = (ss, True, None)"
  shows "length ss \<le> 128 \<and> list_all entry_fits ss"
  using assms DecodeStringSlice_limits
  by (auto simp: GetStringSliceHeader_def decoded_def split: option.splits sum.splits)

theorem decoded_string_slice_bounded_witness:
  "GetStringSliceHeader 5 [5 \<mapsto> [1, 0, 0, 0, 1, 0, 0, 0, 65]] = ([''A''], True, None) \<and>
   length [''A''] \<le> 128 \<and> list_all entry_fits [''A'']"
proof -
  have g: "GetStringSliceHeader 5 [5 \<mapsto> [1, 0, 0, 0, 1, 0, 0, 0, 65]] = ([''A''], True, None)"
    by (simp add: GetStringSliceHeader_def DecodeStringSlice_def DecodeString_def Uint32_def bytes_string_def char_of_def bit_0)
  from decoded_string_slice_bounded [OF g] g show ?thesis by simp
qed


text \<open>
  The encoder has no limits of its own: it accepts slices that every decoder rejects.
\<close>

theorem oversized_slice_not_decoded:
  assumes "128 < length ss" "length ss < 2 ^ 32"
  obtains b where "EncodeStringSlice ss = Inr b"
    "DecodeStringSlice b = Inl (ErrText ''string slice may have at most 128 entries'')"
proof -
  have "(128 :: uint32) < word_of_nat (length ss)"
    using assms by (simp add: word_less_nat_alt take_bit_nat_eq_self unat_of_nat)
  moreover have "ss \<noteq> []" using assms by auto
  ultimately show thesis
    using that by (simp add: EncodeStringSlice_eq DecodeStringSlice_def)
qed

end
