(* ===== verification/Go_IO.thy ===== *)
theory Go_IO
  imports Chan_Prelude
begin

text \<open>
  The part of Go's \<^verbatim>\<open>io\<close> package the sources read with. A reader is a sequence of
  chunks, the byte runs its successive \<^verbatim>\<open>Read\<close> calls deliver, and the error it reports
  after the last one (\<^verbatim>\<open>io.EOF\<close>, a timeout, a closed connection). How the bytes are
  cut into chunks is up to the transport; the lemmas relate every read to the flat content, so
  that a client's theorems hold for every chunking.
\<close>

record reader =
  chunks :: "bytes list"
  rfinal :: err

abbreviation content :: "reader \<Rightarrow> bytes" where
  "content r \<equiv> concat (chunks r)"

text \<open>\<^verbatim>\<open>r.Read(p)\<close> with \<open>len(p) = n\<close>: at most one chunk, the rest of a longer one is kept.\<close>

definition Read :: "nat \<Rightarrow> reader \<Rightarrow> (bytes \<times> err option) \<times> reader" where
  "Read n r =
     (case chunks r of
        [] \<Rightarrow> (([], Some (rfinal r)), r)
      | c # cs \<Rightarrow>
          if length c \<le> n then ((c, None), r\<lparr>chunks := cs\<rparr>)
          else ((take n c, None), r\<lparr>chunks := drop n c # cs\<rparr>))"

text \<open>
  \<^verbatim>\<open>io.ReadAtLeast(r, buf, min)\<close> with \<open>len(buf) = len\<close>: its loop, then the error it
  reports. \<open>acc\<close> is what is in the buffer so far.
\<close>

function ReadAtLeast_loop :: "nat \<Rightarrow> nat \<Rightarrow> bytes \<Rightarrow> reader \<Rightarrow> (bytes \<times> err option) \<times> reader" where
  "ReadAtLeast_loop len mn acc r =
     (if length acc < mn \<and> mn \<le> len then
        (case Read (len - length acc) r of
           ((b, Some e), r') \<Rightarrow> ((acc @ b, Some e), r')
         | ((b, None), r') \<Rightarrow> ReadAtLeast_loop len mn (acc @ b) r')
      else ((acc, None), r))"
  by pat_completeness auto
termination
  by (relation "measure (\<lambda>(len, mn, acc, r). (len - length acc) + length (chunks r))")
    (auto simp: Read_def split: list.splits if_splits)

declare ReadAtLeast_loop.simps [simp del]

definition ReadAtLeast :: "nat \<Rightarrow> nat \<Rightarrow> reader \<Rightarrow> bytes res \<times> reader" where
  "ReadAtLeast len mn r =
     (if len < mn then (Inl ErrShortBuffer, r)
      else case ReadAtLeast_loop len mn [] r of
          ((b, e), r') \<Rightarrow>
            (if mn \<le> length b then Inr b
             else if b \<noteq> [] \<and> e = Some ErrEOF then Inl ErrUnexpectedEOF
             else case e of Some e' \<Rightarrow> Inl e' | None \<Rightarrow> Inr b, r'))"

definition ReadFull :: "nat \<Rightarrow> reader \<Rightarrow> bytes res \<times> reader" where
  "ReadFull len r = ReadAtLeast len len r"

text \<open>
  \<^verbatim>\<open>io.MultiReader(bytes.NewReader(b), r)\<close>: the bytes of \<open>b\<close> first, then \<open>r\<close>;
  an exhausted first reader is dropped.
\<close>

definition MultiReader :: "bytes \<Rightarrow> reader \<Rightarrow> reader" where
  "MultiReader b r = (if b = [] then r else r\<lparr>chunks := b # chunks r\<rparr>)"

text \<open>\<^verbatim>\<open>bytes.NewBuffer(b)\<close>.\<close>

definition NewBuffer :: "bytes \<Rightarrow> reader" where
  "NewBuffer b = \<lparr>chunks = (if b = [] then [] else [b]), rfinal = ErrEOF\<rparr>"

section \<open>Reads against the flat content\<close>

lemma MultiReader_simps [simp]:
  "content (MultiReader b r) = b @ content r" "rfinal (MultiReader b r) = rfinal r"
  by (simp_all add: MultiReader_def)

lemma NewBuffer_simps [simp]: "content (NewBuffer b) = b" "rfinal (NewBuffer b) = ErrEOF"
  by (simp_all add: NewBuffer_def)

lemma Read_None:
  assumes "Read n r = ((b, None), r')"
  shows "content r = b @ content r'" "length b \<le> n" "rfinal r' = rfinal r"
  using assms by (auto simp: Read_def split: list.splits if_splits)

lemma Read_Some:
  assumes "Read n r = ((b, Some e), r')"
  shows "b = []" "content r = []" "r' = r" "e = rfinal r"
  using assms by (auto simp: Read_def split: list.splits if_splits)

lemma ReadAtLeast_loop_spec:
  assumes "ReadAtLeast_loop len mn acc r = ((b, e), r')" "mn \<le> len" "length acc \<le> len"
  shows "\<exists>d. b = acc @ d \<and> content r = d @ content r' \<and> length b \<le> len \<and> rfinal r' = rfinal r \<and>
    (case e of None \<Rightarrow> mn \<le> length b | Some e' \<Rightarrow> length b < mn \<and> content r' = [] \<and> e' = rfinal r)"
  using assms
proof (induction len mn acc r arbitrary: b e r' rule: ReadAtLeast_loop.induct)
  case (1 len mn acc r)
  show ?case
  proof (cases "length acc < mn")
    case False
    with "1.prems" show ?thesis by (simp add: ReadAtLeast_loop.simps [of len mn acc r])
  next
    case more: True
    obtain c x q where rd: "Read (len - length acc) r = ((c, x), q)" by (metis surj_pair)
    show ?thesis
    proof (cases x)
      case (Some e')
      with rd more "1.prems" Read_Some [OF rd [unfolded Some]] show ?thesis
        by (auto simp: ReadAtLeast_loop.simps [of len mn acc r])
    next
      case None
      note c = Read_None [OF rd [unfolded None]]
      from rd None more "1.prems" have rec: "ReadAtLeast_loop len mn (acc @ c) q = ((b, e), r')"
        by (simp add: ReadAtLeast_loop.simps [of len mn acc r])
      have cond: "length acc < mn \<and> mn \<le> len" using more "1.prems" by simp
      from c(2) "1.prems" have "length (acc @ c) \<le> len" by simp
      from "1.IH" [OF cond rd [symmetric] refl None rec _ this] "1.prems" c show ?thesis
        by (auto split: option.splits)
    qed
  qed
qed

text \<open>
  What a client sees of \<^verbatim>\<open>ReadAtLeast\<close>: with enough content, some prefix of at least
  \<open>mn\<close> and at most \<open>len\<close> bytes; otherwise everything is consumed and the error is the
  reader's own, or \<^verbatim>\<open>io.ErrUnexpectedEOF\<close> when it ended inside the read.
\<close>

definition short_error :: "bytes \<Rightarrow> err \<Rightarrow> err" where
  "short_error got e = (if got \<noteq> [] \<and> e = ErrEOF then ErrUnexpectedEOF else e)"

lemma ReadAtLeast_enough:
  assumes "mn \<le> len" "mn \<le> length (content r)"
  obtains n r' where "ReadAtLeast len mn r = (Inr (take n (content r)), r')"
    "content r' = drop n (content r)" "mn \<le> n" "n \<le> len" "n \<le> length (content r)" "rfinal r' = rfinal r"
proof -
  obtain b e r' where l: "ReadAtLeast_loop len mn [] r = ((b, e), r')" by (metis surj_pair)
  from ReadAtLeast_loop_spec [OF l assms(1)] assms(2)
  have s: "content r = b @ content r'" "length b \<le> len" "rfinal r' = rfinal r" "mn \<le> length b"
    by (auto split: option.splits)
  show thesis
    by (rule that [of "length b" r']) (use s l assms in \<open>auto simp: ReadAtLeast_def\<close>)
qed

lemma ReadAtLeast_short:
  assumes "mn \<le> len" "length (content r) < mn"
  obtains r' where "ReadAtLeast len mn r = (Inl (short_error (content r) (rfinal r)), r')"
    "content r' = []" "rfinal r' = rfinal r"
proof -
  obtain b e r' where l: "ReadAtLeast_loop len mn [] r = ((b, e), r')" by (metis surj_pair)
  from ReadAtLeast_loop_spec [OF l assms(1)] assms(2)
  have s: "content r = b" "content r' = []" "rfinal r' = rfinal r" "e = Some (rfinal r)" "length b < mn"
    by (auto split: option.splits)
  show thesis
    by (rule that [of r']) (use s l assms in \<open>auto simp: ReadAtLeast_def short_error_def\<close>)
qed

lemma ReadFull_enough:
  assumes "n \<le> length (content r)"
  obtains r' where "ReadFull n r = (Inr (take n (content r)), r')"
    "content r' = drop n (content r)" "rfinal r' = rfinal r"
proof -
  from assms obtain k r' where "ReadFull n r = (Inr (take k (content r)), r')"
    "content r' = drop k (content r)" "n \<le> k" "k \<le> n" "rfinal r' = rfinal r"
    unfolding ReadFull_def by (metis ReadAtLeast_enough order_refl)
  with that show thesis by simp
qed

lemma ReadFull_short:
  assumes "length (content r) < n"
  obtains r' where "ReadFull n r = (Inl (short_error (content r) (rfinal r)), r')"
    "content r' = []" "rfinal r' = rfinal r"
  using ReadAtLeast_short [OF order_refl assms] unfolding ReadFull_def by blast

lemma ReadFull_cases:
  obtains (enough) r' where "n \<le> length (content r)" "ReadFull n r = (Inr (take n (content r)), r')"
      "content r' = drop n (content r)" "rfinal r' = rfinal r"
    | (short) r' where "length (content r) < n"
      "ReadFull n r = (Inl (short_error (content r) (rfinal r)), r')" "content r' = []" "rfinal r' = rfinal r"
  by (cases "n \<le> length (content r)") (metis ReadFull_enough, metis ReadFull_short not_le)

end
