(* ===== verification/Wire.thy ===== *)
theory Wire
  imports Go_IO Headers
begin

text \<open>
  The V2 wire format of \<^verbatim>\<open>message.go\<close>, lines 418--776 and 993--1000: marshalling,
  the readers of a message and of a hello, the version negotiation response and the choice
  of a version to retry with. A reader function returns its result and the reader behind what
  it consumed. The results are proved against \<open>decode_frame\<close>, a specification over the
  flat byte content, so they hold however the transport cuts the stream.
\<close>

section \<open>Marshalling\<close>

definition magicLength :: nat where "magicLength = 4"
definition versionLen :: nat where "versionLen = 4"
definition dataSectionV2 :: nat where "dataSectionV2 = 20"
definition maxSupportedVersionCount :: uint32 where "maxSupportedVersionCount = 64"
definition magicUnknownVersion :: bytes where "magicUnknownVersion = [0x03, 0x06, 0x09, 0x0a]"
definition magicV2 :: bytes where "magicV2 = [0x03, 0x06, 0x09, 0x0c]"
definition magicV3 :: bytes where "magicV3 = [0x03, 0x06, 0x09, 0x0d]"

text \<open>\<open>ks\<close> is the order in which \<^verbatim>\<open>range headers\<close> visits the map. Writes to a
  \<^verbatim>\<open>bytes.Buffer\<close> are complete and never fail.\<close>

fun marshalHeaders :: "int32 list \<Rightarrow> headers \<Rightarrow> bytes" where
  "marshalHeaders [] headers = []"
| "marshalHeaders (k # ks) headers =
     (let v = the (headers k)
      in PutUint32 k @ PutUint32 (word_of_nat (length v)) @ v @ marshalHeaders ks headers)"

text \<open>
  \<^verbatim>\<open>marshalWithVersion\<close> also stores the cached reply number under
  \<open>ReplyForHeader\<close> of the message it marshals; the model returns the changed message with
  the bytes. The iteration order is that of the changed headers.
\<close>

definition putReplyFor :: "Message \<Rightarrow> Message" where
  "putReplyFor m =
     (case replyFor m of
        None \<Rightarrow> m
      | Some r \<Rightarrow> m\<lparr>Headers := PutUint32Header ReplyForHeader r (Headers m)\<rparr>)"

definition marshalWithVersion :: "int32 list \<Rightarrow> bytes \<Rightarrow> Message \<Rightarrow> bytes \<times> Message" where
  "marshalWithVersion ks version m =
     (let m = putReplyFor m;
          headersData = marshalHeaders ks (Headers m)
      in (version @ PutUint32 (ContentType m) @ PutUint32 (sequence m) @
            PutUint32 (word_of_nat (length headersData)) @ PutUint32 (word_of_nat (length (Body m))) @
            headersData @ Body m, m))"

definition MarshalV2 :: "int32 list \<Rightarrow> Message \<Rightarrow> bytes \<times> Message" where
  "MarshalV2 ks m = marshalWithVersion ks magicV2 m"

definition marshalV3 :: "int32 list \<Rightarrow> Message \<Rightarrow> bytes \<times> Message" where
  "marshalV3 ks m = marshalWithVersion ks magicV3 m"

definition MarshalV2WithRaw :: "int32 list \<Rightarrow> Message \<Rightarrow> bytes \<times> Message" where
  "MarshalV2WithRaw ks m = (if ContentType m = ContentTypeRaw then (Body m, m) else MarshalV2 ks m)"

section \<open>Unmarshalling\<close>

definition readInt32 :: "bytes \<Rightarrow> int32 res" where
  "readInt32 data = Uint32 data"

definition readUint32 :: "bytes \<Rightarrow> uint32 res" where
  "readUint32 data = Uint32 data"

text \<open>The loop of \<^verbatim>\<open>unmarshalHeaders\<close>; \<open>end\<close> is computed as a uint64.\<close>

function unmarshalHeaders_loop :: "bytes \<Rightarrow> nat \<Rightarrow> headers \<Rightarrow> headers res" where
  "unmarshalHeaders_loop headerData i out =
     (if i < length headerData then
        rbind (fail_if (i + 8 > length headerData) (ErrText ''short header meta-data'')) (\<lambda>_.
        rbind (slice headerData i (i + 4)) (\<lambda>kb. rbind (readInt32 kb) (\<lambda>key.
        rbind (slice headerData (i + 4) (i + 8)) (\<lambda>lb. rbind (readUint32 lb) (\<lambda>length'.
        (let end' = word_of_nat i + 8 + ucast length' :: uint64 in
        rbind (fail_if (end' > word_of_nat (length headerData)) (ErrText ''short header data'')) (\<lambda>_.
        rbind (slice headerData (i + 8) (i + 8 + unat length')) (\<lambda>data.
        unmarshalHeaders_loop headerData (i + (8 + unat length')) (out(key \<mapsto> data))))))))))
      else Inr out)"
  by pat_completeness auto
termination
  by (relation "measure (\<lambda>(d, i, out). length d - i)") auto

declare unmarshalHeaders_loop.simps [simp del]

definition unmarshalHeaders :: "bytes \<Rightarrow> headers res" where
  "unmarshalHeaders headerData =
     rbind (fail_if (length headerData > 0 \<and> length headerData < 8) (ErrText ''truncated header data'')) (\<lambda>_.
     unmarshalHeaders_loop headerData 0 Map.empty)"

definition unmarshalV2 :: "reader \<Rightarrow> bytes \<Rightarrow> uint32 \<Rightarrow> uint32 \<Rightarrow> Message res \<times> reader" where
  "unmarshalV2 peer messageSectionData headersLength bodyLength =
     (let dataSectionLen = ucast headersLength + ucast bodyLength :: uint64 in
      if dataSectionLen > 0x7fffffff then (Inl (ErrText ''declared data section exceeds the maximum''), peer)
      else case ReadFull (unat dataSectionLen) peer of
        (Inl e, peer) \<Rightarrow> (Inl e, peer)
      | (Inr dataSectionData, peer) \<Rightarrow>
          (rbind (fail_if (word_of_nat (length dataSectionData) \<noteq> dataSectionLen) (ErrText ''short read'')) (\<lambda>_.
           rbind (fail_if (length messageSectionData < dataSectionV2) (ErrText ''short data stream'')) (\<lambda>_.
           rbind (slice messageSectionData 0 magicLength) (\<lambda>magic.
           rbind (fail_if (magic \<noteq> magicV2) (ErrText ''magic mismatch'')) (\<lambda>_.
           rbind (if headersLength > 0
                  then rbind (slice dataSectionData 0 (unat headersLength)) unmarshalHeaders
                  else Inr Map.empty) (\<lambda>headers.
           rbind (slice messageSectionData 4 8) (\<lambda>cb. rbind (readInt32 cb) (\<lambda>contentType.
           rbind (slice messageSectionData 8 12) (\<lambda>sb. rbind (readInt32 sb) (\<lambda>sq.
           rbind (slice dataSectionData (unat headersLength) (length dataSectionData)) (\<lambda>body.
           Inr \<lparr>ContentType = contentType, sequence = sq, replyFor = None, Headers = headers, Body = body\<rparr>)))))))))),
           peer))"

section \<open>Version negotiation\<close>

definition WriteUnknownVersionResponse :: bytes where
  "WriteUnknownVersionResponse = magicUnknownVersion @ concat (map PutUint32 [2, 1, 2])"

function readVersions :: "bytes \<Rightarrow> uint32 list res" where
  "readVersions versionsBuf =
     (if versionsBuf = [] then Inr []
      else rbind (Uint32 versionsBuf) (\<lambda>v.
           rbind (slice versionsBuf versionLen (length versionsBuf)) (\<lambda>versionsBuf'.
           rbind (readVersions versionsBuf') (\<lambda>vs. Inr (v # vs)))))"
  by pat_completeness auto
termination
  by (relation "measure length") (auto simp: res_simps versionLen_def)

declare readVersions.simps [simp del]

text \<open>The error that reports the peer's versions, or that the response cannot be read.\<close>

definition readUnknownVersionResponse :: "bytes \<Rightarrow> reader \<Rightarrow> err \<times> reader" where
  "readUnknownVersionResponse initial peer =
     (case ReadFull versionLen (MultiReader initial peer) of
        (Inl _, r) \<Rightarrow> (ErrText ''channel synchronization'', r)
      | (Inr countBuf, r) \<Rightarrow>
          (case Uint32 countBuf of
             Inl e \<Rightarrow> (e, r)
           | Inr versionCount \<Rightarrow>
               if versionCount > maxSupportedVersionCount then (ErrText ''channel synchronization'', r)
               else case ReadFull (unat (versionCount * word_of_nat versionLen)) r of
                 (Inl _, r) \<Rightarrow> (ErrText ''channel synchronization'', r)
               | (Inr versionsBuf, r) \<Rightarrow>
                   (case readVersions versionsBuf of
                      Inl e \<Rightarrow> (e, r)
                    | Inr supported \<Rightarrow> (UnsupportedVersionError supported, r))))"

definition getRetryVersionFor :: "err \<Rightarrow> uint32 \<Rightarrow> uint32 list \<Rightarrow> uint32 \<times> bool" where
  "getRetryVersionFor err defaultVersion localVersions =
     (case err of
        UnsupportedVersionError supportedVersions \<Rightarrow>
          if supportedVersions \<noteq> [] then
            (case find (\<lambda>version. version \<in> set supportedVersions) localVersions of
               Some version \<Rightarrow> (version, True)
             | None \<Rightarrow> (defaultVersion, False))
          else (defaultVersion, False)
      | _ \<Rightarrow> (defaultVersion, False))"

definition GetRetryVersion :: "err \<Rightarrow> uint32 \<times> bool" where
  "GetRetryVersion err = getRetryVersionFor err 2 [2]"

section \<open>Reading a message\<close>

text \<open>The headers length and body length of a message section, lines 526--527 and 488--489.\<close>

definition sectionSizes :: "bytes \<Rightarrow> (uint32 \<times> uint32) res" where
  "sectionSizes messageSection =
     rbind (slice messageSection 12 16) (\<lambda>hb. rbind (readUint32 hb) (\<lambda>headersLength.
     rbind (slice messageSection 16 20) (\<lambda>bb. rbind (readUint32 bb) (\<lambda>bodyLength.
     Inr (headersLength, bodyLength)))))"

definition ReadV2 :: "reader \<Rightarrow> Message res \<times> reader" where
  "ReadV2 peer =
     (case ReadAtLeast dataSectionV2 magicLength peer of
        (Inl e, peer) \<Rightarrow> (Inl e, peer)
      | (Inr got, peer) \<Rightarrow>
          if take magicLength got \<noteq> magicV2 then
            (if take magicLength got = magicUnknownVersion
             then (case readUnknownVersionResponse (drop magicLength got) peer of (e, peer) \<Rightarrow> (Inl e, peer))
             else (Inl BadMagicNumberError, peer))
          else
            (case (if length got < dataSectionV2
                   then (case ReadFull (dataSectionV2 - length got) peer of
                           (Inl e, peer) \<Rightarrow> (Inl e, peer)
                         | (Inr rest, peer) \<Rightarrow> (Inr (got @ rest), peer))
                   else (Inr got, peer)) of
               (Inl e, peer) \<Rightarrow> (Inl e, peer)
             | (Inr messageSection, peer) \<Rightarrow>
                 (case sectionSizes messageSection of
                    Inl e \<Rightarrow> (Inl e, peer)
                  | Inr (headersLength, bodyLength) \<Rightarrow>
                      unmarshalV2 peer messageSection headersLength bodyLength)))"

definition readHelloV2 :: "reader \<Rightarrow> Message res \<times> reader" where
  "readHelloV2 peer =
     (case ReadFull (dataSectionV2 - versionLen) peer of
        (Inl e, peer) \<Rightarrow> (Inl e, peer)
      | (Inr got, peer) \<Rightarrow>
          if length got \<noteq> dataSectionV2 - versionLen then (Inl (ErrText ''short read''), peer)
          else
            (let messageSection = magicV2 @ got in
             case sectionSizes messageSection of
               Inl e \<Rightarrow> (Inl e, peer)
             | Inr (headersLength, bodyLength) \<Rightarrow>
                 if headersLength > 16384 \<or> bodyLength > 4192 then (Inl (ErrText ''hello message too big''), peer)
                 else unmarshalV2 peer messageSection headersLength bodyLength))"

text \<open>
  \<^verbatim>\<open>readHello\<close> also returns the read and marshal functions of the version; there is
  one version, so they are \<open>ReadV2\<close> and \<open>MarshalV2\<close> on every path.
\<close>

definition readHello :: "reader \<Rightarrow> Message res \<times> reader" where
  "readHello peer =
     (case ReadFull versionLen peer of
        (Inl e, peer) \<Rightarrow> (Inl e, peer)
      | (Inr version, peer) \<Rightarrow>
          if length version \<noteq> versionLen then (Inl (ErrText ''short read''), peer)
          else if version = magicV2 then readHelloV2 peer
          else (Inl BadMagicNumberError, peer))"

section \<open>Header blocks\<close>

lemma magic_simps [simp]:
  "length magicV2 = 4" "length magicV3 = 4" "length magicUnknownVersion = 4" "magicV2 \<noteq> []"
  "magicUnknownVersion \<noteq> magicV2"
  by (simp_all add: magicV2_def magicV3_def magicUnknownVersion_def)

lemma end_exact:
  assumes "i + 8 + unat (n :: uint32) < 2 ^ 63" "L < 2 ^ 63"
  shows "(word_of_nat i + 8 + ucast n :: uint64) > word_of_nat L \<longleftrightarrow> i + 8 + unat n > L"
proof -
  have "(word_of_nat i + 8 + ucast n :: uint64) = word_of_nat (i + 8 + unat n)"
    by simp
  moreover have "unat (word_of_nat (i + 8 + unat n) :: uint64) = i + 8 + unat n"
    using assms(1) by (simp add: unat_of_nat del: of_nat_add)
  moreover have "unat (word_of_nat L :: uint64) = L"
    using assms(2) by (simp add: unat_of_nat)
  ultimately show ?thesis by (simp only: word_less_nat_alt)
qed

text \<open>Decoding one entry at an index, and the end of the block.\<close>

lemma unmarshalHeaders_loop_done:
  "length d \<le> i \<Longrightarrow> unmarshalHeaders_loop d i out = Inr out"
  by (simp add: unmarshalHeaders_loop.simps)

lemma unmarshalHeaders_loop_entry:
  assumes len: "length (pre @ PutUint32 k @ PutUint32 (word_of_nat (length v)) @ v @ rest) < 2 ^ 63"
    and v: "length v < 2 ^ 32"
  shows "unmarshalHeaders_loop (pre @ PutUint32 k @ PutUint32 (word_of_nat (length v)) @ v @ rest) (length pre) out =
    unmarshalHeaders_loop (pre @ PutUint32 k @ PutUint32 (word_of_nat (length v)) @ v @ rest)
      (length pre + (8 + length v)) (out(k \<mapsto> v))"
proof -
  let ?d = "pre @ PutUint32 k @ PutUint32 (word_of_nat (length v)) @ v @ rest"
  have u: "unat (word_of_nat (length v) :: uint32) = length v"
    using v by (simp add: unat_of_nat)
  have e: "\<not> (word_of_nat (length pre) + 8 + ucast (word_of_nat (length v) :: uint32) :: uint64) > word_of_nat (length ?d)"
    using end_exact [of "length pre" "word_of_nat (length v)" "length ?d"] len u by simp
  show ?thesis
    by (subst unmarshalHeaders_loop.simps) (use u e in \<open>simp add: readInt32_def readUint32_def Let_def\<close>)
qed

lemma unmarshalHeaders_loop_marshal:
  assumes "length (pre @ marshalHeaders ks h) < 2 ^ 63" "\<forall>k\<in>set ks. length (the (h k)) < 2 ^ 32"
  shows "unmarshalHeaders_loop (pre @ marshalHeaders ks h) (length pre) out =
    Inr (out ++ map_of (rev (map (\<lambda>k. (k, the (h k))) ks)))"
  using assms
proof (induction ks arbitrary: pre out)
  case Nil
  then show ?case by (simp add: unmarshalHeaders_loop_done)
next
  case (Cons k ks)
  let ?e = "PutUint32 k @ PutUint32 (word_of_nat (length (the (h k)))) @ the (h k)"
  have "unmarshalHeaders_loop (pre @ marshalHeaders (k # ks) h) (length pre) out =
      unmarshalHeaders_loop ((pre @ ?e) @ marshalHeaders ks h) (length (pre @ ?e)) (out(k \<mapsto> the (h k)))"
    using unmarshalHeaders_loop_entry [of pre k "the (h k)" "marshalHeaders ks h" out] Cons.prems
    by (simp add: Let_def)
  also have "\<dots> = Inr (out(k \<mapsto> the (h k)) ++ map_of (rev (map (\<lambda>k. (k, the (h k))) ks)))"
    using Cons.prems by (intro Cons.IH) (simp_all add: Let_def)
  finally show ?case by simp
qed

lemma length_marshalHeaders:
  "length (marshalHeaders ks h) = 8 * length ks + sum_list (map (\<lambda>k. length (the (h k))) ks)"
  by (induction ks) (simp_all add: Let_def)

lemma length_value_le: "k \<in> set ks \<Longrightarrow> length (the (h k)) \<le> length (marshalHeaders ks h)"
  by (induction ks) (auto simp: Let_def)

lemma unmarshalHeaders_marshalHeaders:
  assumes "enumerates ks h" "length (marshalHeaders ks h) < 2 ^ 32"
  shows "unmarshalHeaders (marshalHeaders ks h) = Inr h"
proof -
  have "\<not> (length (marshalHeaders ks h) > 0 \<and> length (marshalHeaders ks h) < 8)"
    by (cases ks) (auto simp: Let_def)
  moreover have "\<forall>k\<in>set ks. length (the (h k)) < 2 ^ 32"
    using length_value_le [of _ ks h] assms(2) by fastforce
  ultimately show ?thesis
    using unmarshalHeaders_loop_marshal [of "[]" ks h Map.empty] assms map_of_enumerates [OF assms(1)]
    by (auto simp: unmarshalHeaders_def)
qed

text \<open>The loop without its word arithmetic and slices: no branch of it panics.\<close>

lemma unmarshalHeaders_loop_nat:
  assumes "length d < 2 ^ 62"
  shows "unmarshalHeaders_loop d i out =
    (if length d \<le> i then Inr out
     else if length d < i + 8 then Inl (ErrText ''short header meta-data'')
     else let n = unat (le_get (take 4 (drop (i + 4) d)) :: uint32)
          in if length d < i + 8 + n then Inl (ErrText ''short header data'')
             else unmarshalHeaders_loop d (i + (8 + n))
                    (out(le_get (take 4 (drop i d)) \<mapsto> take n (drop (i + 8) d))))"
proof (cases "i + 8 \<le> length d")
  case False
  then show ?thesis by (subst unmarshalHeaders_loop.simps) auto
next
  case True
  let ?n = "le_get (take 4 (drop (i + 4) d)) :: uint32"
  from unat_32_less [of ?n] True assms have e: "(word_of_nat i + 8 + ucast ?n :: uint64) > word_of_nat (length d) \<longleftrightarrow> i + 8 + unat ?n > length d"
    by (intro end_exact) simp_all
  show ?thesis
    by (subst unmarshalHeaders_loop.simps)
      (use True e in \<open>auto simp: readInt32_def readUint32_def Uint32_ok Let_def\<close>)
qed

lemma unmarshalHeaders_loop_no_panic:
  assumes "length d < 2 ^ 62"
  shows "unmarshalHeaders_loop d i out \<noteq> Inl GoPanic"
proof (induction "length d - i" arbitrary: i out rule: less_induct)
  case less
  then show ?case
    by (subst unmarshalHeaders_loop_nat [OF assms]) (auto simp: Let_def)
qed

lemma unmarshalHeaders_no_panic: "length d < 2 ^ 62 \<Longrightarrow> unmarshalHeaders d \<noteq> Inl GoPanic"
  by (auto simp: unmarshalHeaders_def res_simps unmarshalHeaders_loop_no_panic)

section \<open>Frames\<close>

text \<open>
  The specification of the V2 format: the frame at the start of a byte sequence and what
  follows it, or \<open>None\<close> when there is no complete well-formed frame.
\<close>

definition frame_header :: "nat \<Rightarrow> bytes \<Rightarrow> uint32" where
  "frame_header i s = le_get (take 4 (drop i s))"

definition decode_headers :: "nat \<Rightarrow> bytes \<Rightarrow> headers res" where
  "decode_headers hl d = (if hl = 0 then Inr Map.empty else unmarshalHeaders (take hl d))"

definition decode_frame :: "bytes \<Rightarrow> (Message \<times> bytes) option" where
  "decode_frame s =
     (let hl = unat (frame_header 12 s); bl = unat (frame_header 16 s); d = drop 20 s
      in if length s < 20 \<or> take 4 s \<noteq> magicV2 \<or> hl + bl > 0x7fffffff \<or> length d < hl + bl then None
         else case decode_headers hl d of
                Inl _ \<Rightarrow> None
              | Inr h \<Rightarrow> Some (\<lparr>ContentType = frame_header 4 s, sequence = frame_header 8 s, replyFor = None,
                                 Headers = h, Body = take bl (drop hl d)\<rparr>, drop (hl + bl) d))"

lemma dataSectionLen_exact:
  fixes a b :: uint32
  shows "unat (ucast a + ucast b :: uint64) = unat a + unat b"
    "(ucast a + ucast b :: uint64) > 0x7fffffff \<longleftrightarrow> unat a + unat b > 0x7fffffff"
proof -
  show "unat (ucast a + ucast b :: uint64) = unat a + unat b"
    using unat_32_less [of a] unat_32_less [of b] by (simp add: unat_word_ariths)
  then show "(ucast a + ucast b :: uint64) > 0x7fffffff \<longleftrightarrow> unat a + unat b > 0x7fffffff"
    by (simp add: word_less_nat_alt)
qed

text \<open>\<^verbatim>\<open>unmarshalV2\<close> on the content behind a complete message section.\<close>

lemma unmarshalV2_flat:
  assumes sec: "length sec = 20" "take 4 sec = magicV2"
  shows "fst (unmarshalV2 r sec hl bl) =
      (if unat hl + unat bl > 0x7fffffff then Inl (ErrText ''declared data section exceeds the maximum'')
       else if length (content r) < unat hl + unat bl then Inl (short_error (content r) (rfinal r))
       else rbind (decode_headers (unat hl) (content r)) (\<lambda>h.
            Inr \<lparr>ContentType = frame_header 4 sec, sequence = frame_header 8 sec, replyFor = None,
                 Headers = h, Body = take (unat bl) (drop (unat hl) (content r))\<rparr>))"
    "unat hl + unat bl \<le> 0x7fffffff \<Longrightarrow> unat hl + unat bl \<le> length (content r) \<Longrightarrow>
      content (snd (unmarshalV2 r sec hl bl)) = drop (unat hl + unat bl) (content r)"
    "rfinal (snd (unmarshalV2 r sec hl bl)) = rfinal r"
proof -
  note len = dataSectionLen_exact [of hl bl]
  have gt0: "hl > 0 \<longleftrightarrow> unat hl \<noteq> 0" by (simp add: word_less_nat_alt)
  have w: "(word_of_nat (unat hl + unat bl) :: uint64) = ucast hl + ucast bl"
    by simp
  show "fst (unmarshalV2 r sec hl bl) =
      (if unat hl + unat bl > 0x7fffffff then Inl (ErrText ''declared data section exceeds the maximum'')
       else if length (content r) < unat hl + unat bl then Inl (short_error (content r) (rfinal r))
       else rbind (decode_headers (unat hl) (content r)) (\<lambda>h.
            Inr \<lparr>ContentType = frame_header 4 sec, sequence = frame_header 8 sec, replyFor = None,
                 Headers = h, Body = take (unat bl) (drop (unat hl) (content r))\<rparr>))"
    using sec
    by (cases rule: ReadFull_cases [of "unat hl + unat bl" r])
      (auto simp: unmarshalV2_def Let_def len gt0 w decode_headers_def dataSectionV2_def magicLength_def
        readInt32_def Uint32_ok frame_header_def drop_take)
  show "content (snd (unmarshalV2 r sec hl bl)) = drop (unat hl + unat bl) (content r)"
    if "unat hl + unat bl \<le> 0x7fffffff" "unat hl + unat bl \<le> length (content r)"
    using that by (cases rule: ReadFull_cases [of "unat hl + unat bl" r]) (auto simp: unmarshalV2_def Let_def len)
  show "rfinal (snd (unmarshalV2 r sec hl bl)) = rfinal r"
    by (cases rule: ReadFull_cases [of "unat hl + unat bl" r]) (auto simp: unmarshalV2_def Let_def len)
qed

text \<open>
  The two sizes of a complete message section, then the data section: the common end of
  \<^verbatim>\<open>ReadV2\<close> and \<^verbatim>\<open>readHelloV2\<close>.
\<close>

lemma section_sizes:
  "length sec = 20 \<Longrightarrow> sectionSizes sec = Inr (frame_header 12 sec, frame_header 16 sec)"
  by (simp add: sectionSizes_def readUint32_def Uint32_ok frame_header_def)

lemma ReadV2_section:
  assumes "20 \<le> length (content r)" "take 4 (content r) = magicV2"
  obtains r' where "ReadV2 r = unmarshalV2 r' (take 20 (content r)) (frame_header 12 (content r)) (frame_header 16 (content r))"
    "content r' = drop 20 (content r)" "rfinal r' = rfinal r"
proof -
  obtain n p where rd: "ReadAtLeast 20 4 r = (Inr (take n (content r)), p)"
    and p: "content p = drop n (content r)" "rfinal p = rfinal r" and n: "4 \<le> n" "n \<le> 20"
    by (rule ReadAtLeast_enough [of 4 20 r]) (use assms(1) in \<open>simp, simp, blast\<close>)
  have magic: "take 4 (take n (content r)) = magicV2" using assms(2) n by (simp add: min_def)
  have fh: "frame_header 12 (take 20 (content r)) = frame_header 12 (content r)"
    "frame_header 16 (take 20 (content r)) = frame_header 16 (content r)"
    using assms(1) by (simp_all add: frame_header_def take_drop)
  show thesis
  proof (cases "n = 20")
    case True
    with that [of p] rd p n magic fh assms(1) show thesis
      by (simp add: ReadV2_def dataSectionV2_def magicLength_def section_sizes)
  next
    case False
    have "20 - n \<le> length (content p)" using n assms(1) p by simp
    then obtain q where q: "ReadFull (20 - n) p = (Inr (take (20 - n) (content p)), q)"
      "content q = drop (20 - n) (content p)" "rfinal q = rfinal p"
      by (rule ReadFull_enough)
    have "take n (content r) @ take (20 - n) (drop n (content r)) = take 20 (content r)"
      using n by (metis le_add_diff_inverse take_add)
    with that [of q] rd p q n False magic fh assms(1) show thesis
      by (simp add: ReadV2_def dataSectionV2_def magicLength_def section_sizes)
  qed
qed

lemma ReadV2_decode_frame:
  assumes "decode_frame (content r) = Some (m, rest)"
  shows "fst (ReadV2 r) = Inr m" "content (snd (ReadV2 r)) = rest" "rfinal (snd (ReadV2 r)) = rfinal r"
proof -
  let ?s = "content r" and ?hl = "frame_header 12 (content r)" and ?bl = "frame_header 16 (content r)"
  from assms have c: "20 \<le> length ?s" "take 4 ?s = magicV2" "unat ?hl + unat ?bl \<le> 0x7fffffff"
      "unat ?hl + unat ?bl \<le> length (drop 20 ?s)"
    and m: "rbind (decode_headers (unat ?hl) (drop 20 ?s)) (\<lambda>h.
         Inr \<lparr>ContentType = frame_header 4 ?s, sequence = frame_header 8 ?s, replyFor = None,
              Headers = h, Body = take (unat ?bl) (drop (unat ?hl) (drop 20 ?s))\<rparr>) = Inr m"
    and rest: "rest = drop (unat ?hl + unat ?bl) (drop 20 ?s)"
    by (auto simp: decode_frame_def Let_def split: if_splits sum.splits)
  obtain r' where r': "ReadV2 r = unmarshalV2 r' (take 20 ?s) ?hl ?bl"
    "content r' = drop 20 ?s" "rfinal r' = rfinal r"
    using ReadV2_section [OF c(1,2)] by blast
  have fh: "frame_header 4 (take 20 ?s) = frame_header 4 ?s" "frame_header 8 (take 20 ?s) = frame_header 8 ?s"
    using c(1) by (simp_all add: frame_header_def take_drop)
  have sec: "length (take 20 ?s) = 20" "take 4 (take 20 ?s) = magicV2"
    using c by (simp_all add: min_def)
  note flat = unmarshalV2_flat [OF sec, where r = r' and hl = ?hl and bl = ?bl]
  show "fst (ReadV2 r) = Inr m" using flat(1) c(3,4) m r' fh by simp
  show "content (snd (ReadV2 r)) = rest" using flat(2) c(3,4) rest r' by simp
  show "rfinal (snd (ReadV2 r)) = rfinal r" using flat(3) r' by simp
qed

text \<open>The version negotiation response over the flat content.\<close>

fun versions :: "nat \<Rightarrow> bytes \<Rightarrow> uint32 list" where
  "versions 0 s = []"
| "versions (Suc n) s = le_get (take 4 s) # versions n (drop 4 s)"

lemma readVersions_take:
  "4 * n \<le> length s \<Longrightarrow> readVersions (take (4 * n) s) = Inr (versions n s)"
proof (induction n arbitrary: s)
  case 0
  then show ?case by (simp add: readVersions.simps)
next
  case (Suc n)
  then have "readVersions (take (4 * n) (drop 4 s)) = Inr (versions n (drop 4 s))" by simp
  moreover have "take (4 * Suc n) s \<noteq> []" "drop 4 (take (4 * Suc n) s) = take (4 * n) (drop 4 s)"
    using Suc.prems by (auto simp: drop_take)
  ultimately show ?case
    using Suc.prems
    by (subst readVersions.simps) (simp add: Uint32_ok versionLen_def min.absorb1)
qed

definition unknown_version_error :: "bytes \<Rightarrow> err" where
  "unknown_version_error s =
     (let c = unat (frame_header 0 s)
      in if length s < 4 \<or> c > 64 \<or> length s < 4 + 4 * c then ErrText ''channel synchronization''
         else UnsupportedVersionError (versions c (drop 4 s)))"

lemma readUnknownVersionResponse_flat:
  "fst (readUnknownVersionResponse initial p) = unknown_version_error (initial @ content p)"
proof (cases rule: ReadFull_cases [of 4 "MultiReader initial p"])
  case (short r')
  then show ?thesis by (simp add: readUnknownVersionResponse_def unknown_version_error_def versionLen_def)
next
  case (enough r')
  let ?s = "initial @ content p"
  let ?c = "frame_header 0 ?s"
  have c4: "Uint32 (take 4 s) = Inr (frame_header 0 s)" if "4 \<le> length s" for s :: bytes
    using that by (simp add: Uint32_ok frame_header_def)
  have c: "Uint32 (take 4 ?s) = Inr ?c" using enough(1) by (intro c4) simp
  have big: "?c > maxSupportedVersionCount \<longleftrightarrow> unat ?c > 64"
    by (simp add: maxSupportedVersionCount_def word_less_nat_alt)
  have mult: "unat (?c * word_of_nat versionLen) = 4 * unat ?c" if "unat ?c \<le> 64"
    using that by (simp add: versionLen_def unat_word_ariths)
  show ?thesis
  proof (cases "unat ?c \<le> 64")
    case False
    with enough c big show ?thesis
      by (simp add: readUnknownVersionResponse_def unknown_version_error_def versionLen_def)
  next
    case True
    note facts = True big mult [OF True] c enough versionLen_def readUnknownVersionResponse_def unknown_version_error_def
    show ?thesis
    proof (cases rule: ReadFull_cases [of "4 * unat ?c" r'])
      case (short q)
      with facts show ?thesis by (auto simp: Let_def)
    next
      case (enough q)
      then have "readVersions (take (4 * unat ?c) (content r')) = Inr (versions (unat ?c) (content r'))"
        by (intro readVersions_take)
      with facts enough show ?thesis by (auto simp: Let_def)
    qed
  qed
qed

lemma ReadV2_other_magic:
  assumes "4 \<le> length (content r)" "take 4 (content r) \<noteq> magicV2"
  shows "fst (ReadV2 r) =
    Inl (if take 4 (content r) = magicUnknownVersion then unknown_version_error (drop 4 (content r))
         else BadMagicNumberError)"
proof -
  obtain n p where rd: "ReadAtLeast 20 4 r = (Inr (take n (content r)), p)"
    and p: "content p = drop n (content r)" and n: "4 \<le> n" "n \<le> 20"
    by (rule ReadAtLeast_enough [of 4 20 r]) (use assms(1) in \<open>simp, simp, blast\<close>)
  have "drop 4 (take n (content r)) @ content p = drop 4 (content r)"
  proof -
    have "drop n (content r) = drop (n - 4) (drop 4 (content r))" using n by simp
    then show ?thesis by (simp only: p drop_take append_take_drop_id)
  qed
  with rd n assms(2) readUnknownVersionResponse_flat [of "drop 4 (take n (content r))" p] show ?thesis
    by (auto simp: ReadV2_def dataSectionV2_def magicLength_def min_def split: prod.splits)
qed

lemma ReadV2_truncated:
  assumes "length (content r) < 20" "length (content r) < 4 \<or> take 4 (content r) = magicV2"
  shows "fst (ReadV2 r) \<in> {Inl (rfinal r), Inl (short_error (content r) (rfinal r))}"
proof (cases "length (content r) < 4")
  case True
  obtain p where "ReadAtLeast 20 4 r = (Inl (short_error (content r) (rfinal r)), p)"
    by (rule ReadAtLeast_short [of 4 20 r]) (use True in \<open>simp, simp, blast\<close>)
  then show ?thesis by (simp add: ReadV2_def dataSectionV2_def magicLength_def)
next
  case False
  obtain n p where rd: "ReadAtLeast 20 4 r = (Inr (take n (content r)), p)"
    and p: "content p = drop n (content r)" and n: "4 \<le> n" "n \<le> 20" "n \<le> length (content r)"
    and fin: "rfinal p = rfinal r"
    by (rule ReadAtLeast_enough [of 4 20 r]) (use False in \<open>simp, simp, blast\<close>)
  have "length (content p) < 20 - n" using p n assms(1) by simp
  then obtain q where q: "ReadFull (20 - n) p = (Inl (short_error (content p) (rfinal p)), q)"
    by (rule ReadFull_short)
  have ne: "content r \<noteq> []" using False by (cases "content r") auto
  have e: "short_error (content p) (rfinal p) \<in> {rfinal r, short_error (content r) (rfinal r)}"
    using fin ne by (simp add: short_error_def del: concat_eq_Nil_conv)
  have "fst (ReadV2 r) = Inl (short_error (content p) (rfinal p))"
    using rd q n assms False by (simp add: ReadV2_def dataSectionV2_def magicLength_def min_def)
  with e show ?thesis by auto
qed

lemma ReadV2_no_frame:
  assumes "decode_frame (content r) = None"
  shows "\<exists>e. fst (ReadV2 r) = Inl e"
proof (cases "20 \<le> length (content r) \<and> take 4 (content r) = magicV2")
  case True
  let ?s = "content r" and ?hl = "frame_header 12 (content r)" and ?bl = "frame_header 16 (content r)"
  obtain r' where r': "ReadV2 r = unmarshalV2 r' (take 20 ?s) ?hl ?bl"
    "content r' = drop 20 ?s" "rfinal r' = rfinal r"
    using ReadV2_section [of r] True by blast
  have sec: "length (take 20 ?s) = 20" "take 4 (take 20 ?s) = magicV2"
    using True by (simp_all add: min_def)
  from assms True r' unmarshalV2_flat(1) [OF sec, where r = r' and hl = ?hl and bl = ?bl] show ?thesis
    by (auto simp: decode_frame_def Let_def split: if_splits sum.splits)
next
  case False
  then show ?thesis
    using ReadV2_truncated [of r] ReadV2_other_magic [of r]
    by (cases "length (content r) < 4 \<or> take 4 (content r) = magicV2") auto
qed

section \<open>Marshalled frames\<close>

text \<open>A message whose sections fit the limit that \<^verbatim>\<open>unmarshalV2\<close> enforces.\<close>

definition frame_fits :: "int32 list \<Rightarrow> Message \<Rightarrow> bool" where
  "frame_fits ks m \<longleftrightarrow> length (marshalHeaders ks (Headers (putReplyFor m))) + length (Body m) \<le> 0x7fffffff"

text \<open>What the peer gets of a message: the reply number travels as a header.\<close>

definition received :: "Message \<Rightarrow> Message" where
  "received m = (putReplyFor m)\<lparr>replyFor := None\<rparr>"

lemma putReplyFor_simps [simp]:
  "ContentType (putReplyFor m) = ContentType m" "sequence (putReplyFor m) = sequence m"
  "Body (putReplyFor m) = Body m" "replyFor (putReplyFor m) = replyFor m"
  by (simp_all add: putReplyFor_def split: option.splits)

lemma snd_MarshalV2 [simp]: "snd (MarshalV2 ks m) = putReplyFor m"
  by (simp add: MarshalV2_def marshalWithVersion_def Let_def)

lemma frame_header_at:
  "length pre = i \<Longrightarrow> frame_header i (pre @ PutUint32 v @ rest) = v"
  by (simp add: frame_header_def PutUint32_def)

lemma decode_headers_marshal:
  assumes "enumerates ks h" "length (marshalHeaders ks h) < 2 ^ 32"
  shows "decode_headers (length (marshalHeaders ks h)) (marshalHeaders ks h @ rest) = Inr h"
proof (cases ks)
  case Nil
  with assms(1) have "dom h = {}" by (simp add: enumerates_def)
  with Nil show ?thesis by (simp add: decode_headers_def)
next
  case (Cons k ks')
  then have "length (marshalHeaders ks h) \<noteq> 0" by (simp add: Let_def)
  with unmarshalHeaders_marshalHeaders [OF assms] show ?thesis by (simp add: decode_headers_def)
qed

lemma decode_frame_MarshalV2:
  assumes "enumerates ks (Headers (putReplyFor m))" "frame_fits ks m"
  shows "decode_frame (fst (MarshalV2 ks m) @ rest) = Some (received m, rest)"
proof -
  let ?h = "Headers (putReplyFor m)"
  let ?H = "marshalHeaders ks ?h"
  let ?hl = "PutUint32 (word_of_nat (length ?H))" and ?bl = "PutUint32 (word_of_nat (length (Body m)))"
  let ?s = "magicV2 @ PutUint32 (ContentType m) @ PutUint32 (sequence m) @ ?hl @ ?bl @ ?H @ Body m @ rest"
  have s: "fst (MarshalV2 ks m) @ rest = ?s"
    by (simp add: MarshalV2_def marshalWithVersion_def Let_def)
  have small: "length ?H < 2 ^ 32" "length (Body m) < 2 ^ 32" "length ?H + length (Body m) \<le> 0x7fffffff"
    using assms(2) by (simp_all add: frame_fits_def)
  then have u: "unat (word_of_nat (length ?H) :: uint32) = length ?H"
      "unat (word_of_nat (length (Body m)) :: uint32) = length (Body m)"
    by (simp_all add: unat_of_nat)
  have f: "frame_header 4 ?s = ContentType m" "frame_header 8 ?s = sequence m"
      "frame_header 12 ?s = word_of_nat (length ?H)" "frame_header 16 ?s = word_of_nat (length (Body m))"
    using frame_header_at [of magicV2 4] frame_header_at [of "magicV2 @ PutUint32 (ContentType m)" 8]
      frame_header_at [of "magicV2 @ PutUint32 (ContentType m) @ PutUint32 (sequence m)" 12]
      frame_header_at [of "magicV2 @ PutUint32 (ContentType m) @ PutUint32 (sequence m) @ ?hl" 16]
    by simp_all
  have d: "drop 20 ?s = ?H @ Body m @ rest" "take 4 ?s = magicV2" "20 \<le> length ?s"
    by simp_all
  have "decode_frame ?s = Some (\<lparr>ContentType = ContentType m, sequence = sequence m, replyFor = None,
      Headers = ?h, Body = Body m\<rparr>, rest)"
    unfolding decode_frame_def Let_def f u d(1,2)
    using small d(3) decode_headers_marshal [OF assms(1) small(1)] by simp
  moreover have "received m = \<lparr>ContentType = ContentType m, sequence = sequence m, replyFor = None,
      Headers = ?h, Body = Body m\<rparr>"
    by (simp add: received_def)
  ultimately show ?thesis by (simp add: s)
qed

section \<open>The contract of a framing\<close>

text \<open>
  What the channel relies on: reading at the start of an encoded message yields what was sent
  and leaves the reader at the next one. Sequences of messages then arrive in order.
\<close>

fun read_seq :: "(reader \<Rightarrow> 'm res \<times> reader) \<Rightarrow> nat \<Rightarrow> reader \<Rightarrow> 'm list \<times> err option" where
  "read_seq read 0 r = ([], None)"
| "read_seq read (Suc n) r =
     (case read r of
        (Inl e, _) \<Rightarrow> ([], Some e)
      | (Inr m, r) \<Rightarrow> (let (ms, e) = read_seq read n r in (m # ms, e)))"

locale framing =
  fixes enc :: "'a \<Rightarrow> bytes" and read :: "reader \<Rightarrow> 'm res \<times> reader"
    and ok :: "'a \<Rightarrow> bool" and seen :: "'a \<Rightarrow> 'm"
  assumes read_enc: "ok x \<Longrightarrow> content r = enc x @ rest \<Longrightarrow> fst (read r) = Inr (seen x)"
    and read_rest: "ok x \<Longrightarrow> content r = enc x @ rest \<Longrightarrow> content (snd (read r)) = rest"
begin

lemma read_seq_enc:
  "list_all ok xs \<Longrightarrow> content r = concat (map enc xs) @ rest \<Longrightarrow>
   read_seq read (length xs) r = (map seen xs, None)"
proof (induction xs arbitrary: r)
  case Nil
  then show ?case by simp
next
  case (Cons x xs)
  then have c: "ok x" "content r = enc x @ (concat (map enc xs) @ rest)" by simp_all
  obtain r' where r': "read r = (Inr (seen x), r')" using read_enc [OF c] by (cases "read r") simp
  have "read_seq read (length xs) r' = (map seen xs, None)"
    using Cons.prems read_rest [OF c] r' by (intro Cons.IH) simp_all
  with r' show ?case by simp
qed

end

interpretation v2_framing: framing "\<lambda>(ks, m). fst (MarshalV2 ks m)" ReadV2
    "\<lambda>(ks, m). enumerates ks (Headers (putReplyFor m)) \<and> frame_fits ks m" "\<lambda>(ks, m). received m"
proof (unfold_locales, goal_cases)
  case (1 x r rest)
  then show ?case by (cases x) (auto intro!: ReadV2_decode_frame(1) [where rest = rest] simp: decode_frame_MarshalV2)
next
  case (2 x r rest)
  then show ?case by (cases x) (auto intro!: ReadV2_decode_frame(2) simp: decode_frame_MarshalV2)
qed

lemma ReadV2_of_frame:
  assumes "enumerates ks (Headers (putReplyFor m))" "frame_fits ks m" "content r = fst (MarshalV2 ks m) @ rest"
  shows "fst (ReadV2 r) = Inr (received m)"
  using ReadV2_decode_frame(1) decode_frame_MarshalV2 [OF assms(1,2), of rest] assms(3) by simp

lemma received_headers: "k \<noteq> ReplyForHeader \<Longrightarrow> Headers (received m) k = Headers m k"
  by (simp add: received_def putReplyFor_def PutUint32Header_def split: option.splits)

lemma received_uint64:
  "k \<noteq> ReplyForHeader \<Longrightarrow> GetUint64Header k (Headers (received m)) = GetUint64Header k (Headers m)"
  by (simp add: GetUint64Header_def received_def putReplyFor_def PutUint32Header_def split: option.splits)

section \<open>Panics and bounds\<close>

lemma short_error_no_panic: "e \<noteq> GoPanic \<Longrightarrow> short_error got e \<noteq> GoPanic"
  by (simp add: short_error_def)

lemma decode_headers_no_panic: "hl < 2 ^ 32 \<Longrightarrow> decode_headers hl d \<noteq> Inl GoPanic"
  using unmarshalHeaders_no_panic [of "take hl d"] by (simp add: decode_headers_def min_def)

lemma unmarshalV2_no_panic:
  assumes "length sec = 20" "take 4 sec = magicV2" "rfinal r \<noteq> GoPanic"
  shows "fst (unmarshalV2 r sec hl bl) \<noteq> Inl GoPanic"
  using decode_headers_no_panic [OF unat_32_less, of hl] short_error_no_panic [OF assms(3)]
  by (auto simp: unmarshalV2_flat(1) [OF assms(1,2)] res_simps)

lemma ReadV2_no_panic:
  assumes "rfinal r \<noteq> GoPanic"
  shows "fst (ReadV2 r) \<noteq> Inl GoPanic"
proof (cases "20 \<le> length (content r) \<and> take 4 (content r) = magicV2")
  case True
  then obtain r' where r': "ReadV2 r = unmarshalV2 r' (take 20 (content r))
      (frame_header 12 (content r)) (frame_header 16 (content r))" "rfinal r' = rfinal r"
    using ReadV2_section [of r] by blast
  have "length (take 20 (content r)) = 20" "take 4 (take 20 (content r)) = magicV2"
    using True by (simp_all add: min_def)
  with r' assms show ?thesis by (simp add: unmarshalV2_no_panic)
next
  case False
  have "unknown_version_error s \<noteq> GoPanic" for s
    by (simp add: unknown_version_error_def Let_def)
  with False show ?thesis
    using ReadV2_truncated [of r] ReadV2_other_magic [of r] short_error_no_panic [OF assms, of "content r"] assms
    by (cases "length (content r) < 4 \<or> take 4 (content r) = magicV2") (auto split: if_splits)
qed

text \<open>The hello reader as a function of the flat content, and how far it reads.\<close>

lemma unmarshalV2_consumes:
  "\<exists>k \<le> unat hl + unat bl. content (snd (unmarshalV2 r sec hl bl)) = drop k (content r)"
proof (cases "unat hl + unat bl > 0x7fffffff")
  case True
  then have "snd (unmarshalV2 r sec hl bl) = r"
    by (simp add: unmarshalV2_def Let_def dataSectionLen_exact)
  then show ?thesis by (intro exI [of _ 0]) simp
next
  case False
  then have "content (snd (unmarshalV2 r sec hl bl)) = drop (unat hl + unat bl) (content r)"
    by (cases rule: ReadFull_cases [of "unat hl + unat bl" r])
      (auto simp: unmarshalV2_def Let_def dataSectionLen_exact)
  then show ?thesis by blast
qed

lemma readHello_cases:
  obtains (failed) e where "fst (readHello r) = Inl e" "e = GoPanic \<longrightarrow> rfinal r = GoPanic"
      "\<exists>k \<le> 20. content (snd (readHello r)) = drop k (content r)"
    | (hello) r' sec where "20 \<le> length (content r)" "sec = take 20 (content r)" "take 4 sec = magicV2"
      "frame_header 12 sec \<le> 16384" "frame_header 16 sec \<le> 4192"
      "readHello r = unmarshalV2 r' sec (frame_header 12 sec) (frame_header 16 sec)"
      "content r' = drop 20 (content r)" "rfinal r' = rfinal r"
proof (cases rule: ReadFull_cases [of 4 r])
  case (short r')
  then show thesis
    by (intro failed [of "short_error (content r) (rfinal r)"])
      (auto simp: readHello_def versionLen_def short_error_def split: if_splits intro!: exI [of _ 4])
next
  case (enough p)
  show thesis
  proof (cases "take 4 (content r) = magicV2")
    case False
    with enough show thesis
      by (intro failed [of BadMagicNumberError])
        (auto simp: readHello_def versionLen_def intro!: exI [of _ 4])
  next
    case magic: True
    show thesis
    proof (cases rule: ReadFull_cases [of 16 p])
      case (short q)
      with enough magic show thesis
        by (intro failed [of "short_error (content p) (rfinal p)"])
          (auto simp: readHello_def readHelloV2_def versionLen_def dataSectionV2_def short_error_def
            split: if_splits intro!: exI [of _ 20])
    next
      case rest: (enough q)
      let ?sec = "take 20 (content r)"
      have sec: "magicV2 @ take 16 (content p) = ?sec"
        using enough magic take_add [of 4 16 "content r"] by simp
      have len: "length ?sec = 20" using enough rest by simp
      have cq: "content q = drop 20 (content r)" using enough rest by simp
      have run: "readHello r =
          (if frame_header 12 ?sec > 16384 \<or> frame_header 16 ?sec > 4192
           then (Inl (ErrText ''hello message too big''), q)
           else unmarshalV2 q ?sec (frame_header 12 ?sec) (frame_header 16 ?sec))"
        using enough rest magic sec section_sizes [OF len]
        by (simp add: readHello_def readHelloV2_def versionLen_def dataSectionV2_def Let_def)
      show thesis
      proof (cases "frame_header 12 ?sec > 16384 \<or> frame_header 16 ?sec > 4192")
        case True
        with run cq show thesis
          by (intro failed [of "ErrText ''hello message too big''"]) (auto intro!: exI [of _ 20])
      next
        case False
        with run cq enough rest magic show thesis
          by (intro hello [of ?sec q]) auto
      qed
    qed
  qed
qed

section \<open>Properties of the wire format\<close>

text \<open>
  C9. Round trip on the wire, for every message, every iteration order of its header map and
  every way the transport cuts the bytes: reading at the start of a marshalled message whose
  sections are within the 2 GiB limit returns the message that was sent (the reply number as
  its header) and leaves the reader exactly at what follows.
\<close>

theorem ReadV2_MarshalV2:
  assumes "enumerates ks (Headers (putReplyFor m))" "frame_fits ks m"
    and "content r = fst (MarshalV2 ks m) @ rest"
  shows "fst (ReadV2 r) = Inr (received m) \<and> content (snd (ReadV2 r)) = rest"
  using v2_framing.read_enc [of "(ks, m)" r rest] v2_framing.read_rest [of "(ks, m)" r rest] assms by simp

definition sample_message :: Message where
  "sample_message = \<lparr>ContentType = 5, sequence = 7, replyFor = Some 3, Headers = [128 \<mapsto> [1, 2]], Body = [9]\<rparr>"

lemma sample_message_ok:
  "enumerates [128, 1] (Headers (putReplyFor sample_message))" "frame_fits [128, 1] sample_message"
  by (auto simp: enumerates_def frame_fits_def sample_message_def putReplyFor_def PutUint32Header_def
      ReplyForHeader_def Let_def)

definition sample_reader :: reader where
  "sample_reader = \<lparr>chunks = [take 3 (fst (MarshalV2 [128, 1] sample_message)), [],
      drop 3 (fst (MarshalV2 [128, 1] sample_message)) @ [0xff]], rfinal = ErrEOF\<rparr>"

theorem ReadV2_MarshalV2_witness:
  "fst (ReadV2 sample_reader) = Inr (received sample_message) \<and> content (snd (ReadV2 sample_reader)) = [0xff]"
  by (rule ReadV2_MarshalV2 [OF sample_message_ok]) (simp add: sample_reader_def)

text \<open>
  A sequence of messages written one behind the other is read back in order, without loss
  and without an error in between, however the transport cuts the stream.
\<close>

theorem read_seq_MarshalV2:
  assumes "list_all (\<lambda>(ks, m). enumerates ks (Headers (putReplyFor m)) \<and> frame_fits ks m) sent"
    and "content r = concat (map (\<lambda>(ks, m). fst (MarshalV2 ks m)) sent) @ rest"
  shows "read_seq ReadV2 (length sent) r = (map (\<lambda>(ks, m). received m) sent, None)"
  using v2_framing.read_seq_enc [OF assms] .

theorem read_seq_MarshalV2_witness:
  "read_seq ReadV2 2 \<lparr>chunks = [fst (MarshalV2 [128, 1] sample_message) @ fst (MarshalV2 [128, 1] sample_message)],
      rfinal = ErrEOF\<rparr> = ([received sample_message, received sample_message], None)"
  using read_seq_MarshalV2 [of "[([128, 1], sample_message), ([128, 1], sample_message)]"
      "\<lparr>chunks = [fst (MarshalV2 [128, 1] sample_message) @ fst (MarshalV2 [128, 1] sample_message)], rfinal = ErrEOF\<rparr>"
      "[]"] sample_message_ok
  by (simp add: numeral_2_eq_2)


text \<open>
  C35. No input makes the readers panic: whatever bytes a peer sends (header lengths and counts
  included), \<^verbatim>\<open>ReadV2\<close> and \<^verbatim>\<open>readHello\<close> return a message or an error; no index of
  theirs leaves its slice.
\<close>

theorem readers_never_panic:
  assumes "rfinal r \<noteq> GoPanic"
  shows "fst (ReadV2 r) \<noteq> Inl GoPanic \<and> fst (readHello r) \<noteq> Inl GoPanic"
proof (intro conjI)
  show "fst (ReadV2 r) \<noteq> Inl GoPanic" by (rule ReadV2_no_panic [OF assms])
  show "fst (readHello r) \<noteq> Inl GoPanic"
    using assms unmarshalV2_no_panic by (cases rule: readHello_cases [of r]) auto
qed

theorem readers_never_panic_witness:
  "fst (ReadV2 \<lparr>chunks = [magicV2 @ replicate 16 0xff], rfinal = ErrNetClosed\<rparr>) \<noteq> Inl GoPanic \<and>
   fst (readHello \<lparr>chunks = [magicV2 @ replicate 16 0xff], rfinal = ErrNetClosed\<rparr>) \<noteq> Inl GoPanic"
  by (rule readers_never_panic) simp

text \<open>
  C36. An unauthenticated peer is bounded: whatever it declares, \<^verbatim>\<open>readHello\<close> consumes at
  most the 20 bytes of the message section, 16384 of headers and 4192 of body, and a hello it
  accepts has a body within that limit.
\<close>

theorem readHello_bounded:
  "(\<exists>k \<le> 20 + 16384 + 4192. content (snd (readHello r)) = drop k (content r)) \<and>
   (case fst (readHello r) of Inl _ \<Rightarrow> True | Inr m \<Rightarrow> length (Body m) \<le> 4192)"
proof (cases rule: readHello_cases [of r])
  case (failed e)
  then obtain k where "k \<le> 20" "content (snd (readHello r)) = drop k (content r)" by blast
  then have "\<exists>k \<le> 20 + 16384 + 4192. content (snd (readHello r)) = drop k (content r)"
    by (intro exI [of _ k]) simp
  with failed show ?thesis by simp
next
  case (hello r' sec)
  have n: "unat (frame_header 12 sec) \<le> 16384" "unat (frame_header 16 sec) \<le> 4192"
    using hello(4,5) by (simp_all add: word_le_nat_alt)
  obtain k where k: "k \<le> unat (frame_header 12 sec) + unat (frame_header 16 sec)"
    "content (snd (readHello r)) = drop k (content r')"
    using unmarshalV2_consumes hello(6) by metis
  have "content (snd (readHello r)) = drop (k + 20) (content r)" using k(2) hello(7) by simp
  moreover have "k + 20 \<le> 20 + 16384 + 4192" using k(1) n by simp
  moreover have "length sec = 20" using hello(1,2) by simp
  ultimately show ?thesis
    using n(2) hello(3,6)
    by (auto simp: unmarshalV2_flat(1) rbind_def split: sum.splits intro: exI [of _ "k + 20"])
qed

text \<open>
  Reply correlation survives the wire: when \<open>m\<close> answers \<open>req\<close>, the message the
  requester reads is a reply to exactly the sequence number of its request, and a reflected
  header comes back with the request's value.
\<close>

theorem reply_correlates_over_wire:
  assumes "enumerates ks (Headers (putReplyFor (ReplyTo req m)))" "frame_fits ks (ReplyTo req m)"
    and "content r = fst (MarshalV2 ks (ReplyTo req m)) @ rest"
    and "Headers req ReflectedHeader = Some v"
  shows "\<exists>m'. fst (ReadV2 r) = Inr m' \<and> IsReplyingTo (sequence req) m' \<and>
    Headers m' ReflectedHeader = Some v \<and> Body m' = Body m \<and> ContentType m' = ContentType m"
proof -
  have "fst (ReadV2 r) = Inr (received (ReplyTo req m))"
    using v2_framing.read_enc [of "(ks, ReplyTo req m)" r rest] assms(1-3) by simp
  moreover have "ReplyFor (received (ReplyTo req m)) = sequence req"
    by (simp add: ReplyFor_uncached received_def putReplyFor_def PutUint32Header_def PutUint32_def)
  moreover have "Headers (received (ReplyTo req m)) ReflectedHeader = Some v"
    using assms(4) by (simp add: received_def putReplyFor_def Headers_ReplyTo PutUint32Header_def header_keys)
  ultimately show ?thesis
    by (auto simp: IsReplyingTo_def received_def)
qed

theorem reply_correlates_over_wire_witness:
  "\<exists>m'. fst (ReadV2 (NewBuffer (fst (MarshalV2 [128, 1] (ReplyTo sample_message (NewMessage 2 [4])))))) = Inr m' \<and>
    IsReplyingTo (sequence sample_message) m' \<and> Headers m' ReflectedHeader = Some [1, 2] \<and>
    Body m' = Body (NewMessage 2 [4]) \<and> ContentType m' = ContentType (NewMessage 2 [4])"
  by (rule reply_correlates_over_wire [where ks = "[128, 1]" and rest = "[]"])
    (auto simp: enumerates_def frame_fits_def sample_message_def NewMessage_def putReplyFor_def ReplyTo_def
      PutUint32Header_def header_keys Let_def)

text \<open>
  Version negotiation: a peer that answers with the unknown-version response of this
  implementation (four magic bytes, the count, the versions) makes \<^verbatim>\<open>ReadV2\<close> report the
  versions 1 and 2, from which \<^verbatim>\<open>GetRetryVersion\<close> selects version 2.
\<close>

theorem version_negotiation:
  assumes "content r = WriteUnknownVersionResponse @ rest"
  shows "\<exists>e. fst (ReadV2 r) = Inl e \<and> e = UnsupportedVersionError [1, 2] \<and> GetRetryVersion e = (2, True)"
proof -
  let ?v = "PutUint32 2 @ PutUint32 1 @ PutUint32 2"
  have c: "content r = magicUnknownVersion @ ?v @ rest"
    using assms by (simp add: WriteUnknownVersionResponse_def)
  have "frame_header 0 (?v @ rest) = 2" "versions 2 (PutUint32 1 @ PutUint32 2 @ rest) = [1, 2]"
    using frame_header_at [of "[]" 0] by (simp_all add: numeral_2_eq_2 PutUint32_def)
  then have "unknown_version_error (?v @ rest) = UnsupportedVersionError [1, 2]"
    by (simp add: unknown_version_error_def)
  with ReadV2_other_magic [of r] c have "fst (ReadV2 r) = Inl (UnsupportedVersionError [1, 2])"
    by simp
  then show ?thesis by (simp add: GetRetryVersion_def getRetryVersionFor_def)
qed

theorem version_negotiation_witness:
  "\<exists>e. fst (ReadV2 (NewBuffer WriteUnknownVersionResponse)) = Inl e \<and> e = UnsupportedVersionError [1, 2] \<and>
     GetRetryVersion e = (2, True)"
  by (rule version_negotiation [where rest = "[]"]) simp

section \<open>Messages off the wire\<close>

text \<open>The size of a header block in any order of its entries.\<close>

definition header_size :: "headers \<Rightarrow> nat" where
  "header_size h = (\<Sum>k\<in>dom h. 8 + length (the (h k)))"

lemma header_size_upd: "finite (dom h) \<Longrightarrow> header_size (h(k \<mapsto> v)) \<le> header_size h + (8 + length v)"
proof -
  assume fin: "finite (dom h)"
  have "header_size (h(k \<mapsto> v)) = (8 + length v) + (\<Sum>j\<in>dom h - {k}. 8 + length (the ((h(k \<mapsto> v)) j)))"
    unfolding header_size_def using fin by (simp add: sum.insert_remove)
  also have "(\<Sum>j\<in>dom h - {k}. 8 + length (the ((h(k \<mapsto> v)) j))) = (\<Sum>j\<in>dom h - {k}. 8 + length (the (h j)))"
    by (rule sum.cong) auto
  also have "\<dots> \<le> header_size h" unfolding header_size_def by (rule sum_mono2) (use fin in auto)
  finally show ?thesis by (simp only: add.commute)
qed

lemma length_marshalHeaders_set:
  "distinct ks \<Longrightarrow> length (marshalHeaders ks h) = (\<Sum>k\<in>set ks. 8 + length (the (h k)))"
  by (induction ks) (simp_all add: Let_def)

lemma marshalHeaders_size: "enumerates ks h \<Longrightarrow> length (marshalHeaders ks h) = header_size h"
  by (simp add: enumerates_def header_size_def length_marshalHeaders_set)

lemma unmarshalHeaders_loop_size:
  "unmarshalHeaders_loop d i out = Inr h \<Longrightarrow> finite (dom out) \<Longrightarrow> header_size out \<le> i \<Longrightarrow> i \<le> length d \<Longrightarrow>
   finite (dom h) \<and> header_size h \<le> length d"
proof (induction d i out rule: unmarshalHeaders_loop.induct)
  case (1 d i out)
  show ?case
  proof (cases "i < length d")
    case False
    with 1 show ?thesis by (simp add: unmarshalHeaders_loop.simps [of d i out])
  next
    case True
    note loop = 1(2) [unfolded unmarshalHeaders_loop.simps [of d i out]]
    obtain kb key lb len data where
      s: "i + 8 \<le> length d" "slice d i (i + 4) = Inr kb" "readInt32 kb = Inr key" "slice d (i + 4) (i + 8) = Inr lb"
        "readUint32 lb = Inr len" "slice d (i + 8) (i + 8 + unat len) = Inr data"
        "\<not> (word_of_nat i + 8 + ucast len :: uint64) > word_of_nat (length d)"
      and l: "unmarshalHeaders_loop d (i + (8 + unat len)) (out(key \<mapsto> data)) = Inr h"
      using loop True by (auto simp: Let_def res_simps split: if_splits)
    have d: "length data = unat len" "i + 8 + unat len \<le> length d"
      using s(6) by (auto simp: slice_def split: if_splits)
    have "header_size (out(key \<mapsto> data)) \<le> i + (8 + unat len)"
      using header_size_upd [OF 1(3), of key data] 1(4) d(1) by simp
    then show ?thesis
      using 1(1) [OF True _ s(2,3,4,5) refl _ s(6)] l 1(3) d(2) s(1,7) by (simp add: fail_if_def del: fun_upd_apply)
  qed
qed

lemma decode_headers_size: "decode_headers hl d = Inr h \<Longrightarrow> finite (dom h) \<and> header_size h \<le> hl"
  using unmarshalHeaders_loop_size [of "take hl d" 0 Map.empty h]
  by (auto simp: decode_headers_def unmarshalHeaders_def res_simps header_size_def split: if_splits)

text \<open>
  C34. Every message that comes off the wire is a message that can go back on it: whatever bytes a
  peer sent and however they were cut, the message \<^verbatim>\<open>ReadV2\<close> returns has no cached reply
  number, finitely many headers, and a frame within the size limit in every order of its headers;
  so forwarding it as it is delivers the very same message to the next reader.
\<close>

theorem read_message_well_formed:
  assumes "fst (ReadV2 r) = Inr m"
  shows "replyFor m = None \<and> finite (dom (Headers m)) \<and>
    (\<forall>ks. enumerates ks (Headers m) \<longrightarrow> frame_fits ks m \<and>
       (\<forall>r' rest. content r' = fst (MarshalV2 ks m) @ rest \<longrightarrow> fst (ReadV2 r') = Inr m))"
proof -
  obtain rest0 where d: "decode_frame (content r) = Some (m, rest0)"
    using ReadV2_decode_frame [of r] ReadV2_no_frame [of r] assms by (cases "decode_frame (content r)") auto
  let ?hl = "unat (frame_header 12 (content r))" and ?bl = "unat (frame_header 16 (content r))"
  have h: "decode_headers ?hl (drop 20 (content r)) = Inr (Headers m)" and len: "?hl + ?bl \<le> 0x7fffffff"
    and m: "replyFor m = None" "length (Body m) \<le> ?bl"
    using d by (auto simp: decode_frame_def Let_def split: if_splits sum.splits)
  note size = decode_headers_size [OF h]
  have self: "putReplyFor m = m" "received m = m" using m(1) by (simp_all add: putReplyFor_def received_def)
  have fits: "frame_fits ks m" if "enumerates ks (Headers m)" for ks
    using that size len m(2) by (simp add: frame_fits_def self marshalHeaders_size)
  have "fst (ReadV2 r') = Inr m" if "enumerates ks (Headers m)" "content r' = fst (MarshalV2 ks m) @ rest" for ks r' rest
    using ReadV2_of_frame [OF _ fits [OF that(1)] that(2)] that(1) by (simp add: self)
  with fits m(1) size show ?thesis by blast
qed

theorem read_message_well_formed_witness:
  "fst (ReadV2 sample_reader) = Inr (received sample_message) \<and> frame_fits [1, 128] (received sample_message)"
proof -
  have r: "fst (ReadV2 sample_reader) = Inr (received sample_message)"
    by (rule ReadV2_of_frame [OF sample_message_ok, where rest = "[0xff]"]) (simp add: sample_reader_def)
  have "enumerates [1, 128] (Headers (received sample_message))"
    using sample_message_ok(1) by (auto simp: enumerates_def received_def)
  with read_message_well_formed [OF r] r show ?thesis by blast
qed

end
