(* ===== verification/Message_Accessors.thy ===== *)
theory Message_Accessors
  imports Header_Codecs Wire
begin

text \<open>
  The header accessors of \<^verbatim>\<open>MessageHeader\<close> in \<^verbatim>\<open>message.go\<close>, which a message offers to its
  users, and what becomes of the values on the way to the peer. The locale \<open>message_header\<close>
  lifts the contract of a typed header to messages and over the wire.
\<close>

section \<open>Accessors\<close>

definition mh_PutUint64Header :: "int32 \<Rightarrow> uint64 \<Rightarrow> Message \<Rightarrow> Message" where
  "mh_PutUint64Header key value m = m\<lparr>Headers := (Headers m)(key \<mapsto> PutUint64 value)\<rparr>"

definition mh_GetUint64Header :: "int32 \<Rightarrow> Message \<Rightarrow> uint64 \<times> bool" where
  "mh_GetUint64Header key m = GetUint64Header key (Headers m)"

definition mh_PutUint32Header :: "int32 \<Rightarrow> uint32 \<Rightarrow> Message \<Rightarrow> Message" where
  "mh_PutUint32Header key value m = m\<lparr>Headers := PutUint32Header key value (Headers m)\<rparr>"

definition mh_GetUint32Header :: "int32 \<Rightarrow> Message \<Rightarrow> uint32 \<times> bool" where
  "mh_GetUint32Header key m = GetUint32Header key (Headers m)"

definition mh_PutUint16Header :: "int32 \<Rightarrow> uint16 \<Rightarrow> Message \<Rightarrow> Message" where
  "mh_PutUint16Header key value m = m\<lparr>Headers := PutUint16Header key value (Headers m)\<rparr>"

definition mh_GetUint16Header :: "int32 \<Rightarrow> Message \<Rightarrow> uint16 \<times> bool" where
  "mh_GetUint16Header key m = GetUint16Header key (Headers m)"

definition mh_PutByteHeader :: "int32 \<Rightarrow> byte \<Rightarrow> Message \<Rightarrow> Message" where
  "mh_PutByteHeader key value m = m\<lparr>Headers := PutByteHeader key value (Headers m)\<rparr>"

definition mh_GetByteHeader :: "int32 \<Rightarrow> Message \<Rightarrow> byte \<times> bool" where
  "mh_GetByteHeader key m = GetByteHeader key (Headers m)"

definition mh_PutBoolHeader :: "int32 \<Rightarrow> bool \<Rightarrow> Message \<Rightarrow> Message" where
  "mh_PutBoolHeader key value m = m\<lparr>Headers := PutBoolHeader key value (Headers m)\<rparr>"

definition mh_GetBoolHeader :: "int32 \<Rightarrow> Message \<Rightarrow> bool \<times> bool" where
  "mh_GetBoolHeader key m = GetBoolHeader key (Headers m)"

definition mh_PutStringHeader :: "int32 \<Rightarrow> string \<Rightarrow> Message \<Rightarrow> Message" where
  "mh_PutStringHeader key value m = m\<lparr>Headers := PutStringHeader key value (Headers m)\<rparr>"

definition mh_GetStringHeader :: "int32 \<Rightarrow> Message \<Rightarrow> string \<times> bool" where
  "mh_GetStringHeader key m = GetStringHeader key (Headers m)"

definition mh_PutStringSliceHeader :: "int32 \<Rightarrow> string list \<Rightarrow> Message \<Rightarrow> Message res" where
  "mh_PutStringSliceHeader key s m = rbind (PutStringSliceHeader key s (Headers m)) (\<lambda>h. Inr (m\<lparr>Headers := h\<rparr>))"

definition mh_GetStringSliceHeader :: "int32 \<Rightarrow> Message \<Rightarrow> string list \<times> bool \<times> err option" where
  "mh_GetStringSliceHeader key m = GetStringSliceHeader key (Headers m)"

definition mh_PutU32ToBytesMapHeader ::
    "uint32 list \<Rightarrow> uint32 list \<Rightarrow> int32 \<Rightarrow> (uint32 \<rightharpoonup> bytes) \<Rightarrow> Message \<Rightarrow> Message res" where
  "mh_PutU32ToBytesMapHeader ks1 ks2 key v m =
     rbind (PutU32ToBytesMapHeader ks1 ks2 key v (Headers m)) (\<lambda>h. Inr (m\<lparr>Headers := h\<rparr>))"

definition mh_GetU32ToBytesMapHeader :: "int32 \<Rightarrow> Message \<Rightarrow> (uint32 \<rightharpoonup> bytes) \<times> bool \<times> err option" where
  "mh_GetU32ToBytesMapHeader key m = GetU32ToBytesMapHeader key (Headers m)"

definition mh_PutStringToStringMapHeader ::
    "string list \<Rightarrow> string list \<Rightarrow> int32 \<Rightarrow> (string \<rightharpoonup> string) \<Rightarrow> Message \<Rightarrow> Message res" where
  "mh_PutStringToStringMapHeader ks1 ks2 key v m =
     rbind (PutStringToStringMapHeader ks1 ks2 key v (Headers m)) (\<lambda>h. Inr (m\<lparr>Headers := h\<rparr>))"

definition mh_GetStringToStringMapHeader :: "int32 \<Rightarrow> Message \<Rightarrow> (string \<rightharpoonup> string) \<times> bool \<times> err option" where
  "mh_GetStringToStringMapHeader key m = GetStringToStringMapHeader key (Headers m)"

section \<open>The contract over the wire\<close>

text \<open>
  A typed header whose accessors act on the headers of a message. What is put before a message
  is sent is what the peer gets, and the other entries arrive as they were.
\<close>

locale message_header = typed_header put get
  for put :: "int32 \<Rightarrow> 'v \<Rightarrow> headers \<Rightarrow> headers" and get :: "int32 \<Rightarrow> headers \<Rightarrow> 'v \<times> bool" +
  fixes mput :: "int32 \<Rightarrow> 'v \<Rightarrow> Message \<Rightarrow> Message" and mget :: "int32 \<Rightarrow> Message \<Rightarrow> 'v \<times> bool"
  assumes mput: "mput k v m = m\<lparr>Headers := put k v (Headers m)\<rparr>" and mget: "mget k m = get k (Headers m)"
begin

lemma mget_mput: "mget k (mput k v m) = (v, True)" "k' \<noteq> k \<Longrightarrow> mget k' (mput k v m) = mget k' m"
  by (simp_all add: mput mget get_put get_put_other)

lemma mput_keeps: "ContentType (mput k v m) = ContentType m" "sequence (mput k v m) = sequence m"
  "replyFor (mput k v m) = replyFor m" "Body (mput k v m) = Body m"
  by (simp_all add: mput)

lemma crosses_wire:
  assumes "enumerates ks (Headers (putReplyFor (mput k v m)))" "frame_fits ks (mput k v m)"
    and "content r = fst (MarshalV2 ks (mput k v m)) @ rest" "k \<noteq> ReplyForHeader"
  shows "\<exists>got. fst (ReadV2 r) = Inr got \<and> mget k got = (v, True) \<and> Body got = Body m \<and> ContentType got = ContentType m \<and>
    (\<forall>j. j \<noteq> k \<and> j \<noteq> ReplyForHeader \<longrightarrow> Headers got j = Headers m j)"
proof -
  let ?m = "mput k v m"
  have "get k (Headers (received ?m)) = get k (Headers ?m)"
    using received_headers [OF assms(4), of ?m] by (rule get_local)
  then have "mget k (received ?m) = (v, True)" using mget_mput(1) [of k v m] by (simp add: mget)
  moreover have "Headers (received ?m) j = Headers m j" if "j \<noteq> k" "j \<noteq> ReplyForHeader" for j
    using received_headers [OF that(2), of ?m] put_other [OF that(1), of v "Headers m"] by (simp add: mput)
  moreover have "Body (received ?m) = Body m" "ContentType (received ?m) = ContentType m"
    using mput_keeps [of k v m] by (simp_all add: received_def)
  ultimately show ?thesis using ReadV2_of_frame [OF assms(1-3)] by blast
qed

end

interpretation message_uint64: message_header PutUint64Header GetUint64Header mh_PutUint64Header mh_GetUint64Header
  by unfold_locales (simp_all add: mh_PutUint64Header_def mh_GetUint64Header_def PutUint64Header_def)

interpretation message_uint32: message_header PutUint32Header GetUint32Header mh_PutUint32Header mh_GetUint32Header
  by unfold_locales (simp_all add: mh_PutUint32Header_def mh_GetUint32Header_def)

interpretation message_uint16: message_header PutUint16Header GetUint16Header mh_PutUint16Header mh_GetUint16Header
  by unfold_locales (simp_all add: mh_PutUint16Header_def mh_GetUint16Header_def)

interpretation message_byte: message_header PutByteHeader GetByteHeader mh_PutByteHeader mh_GetByteHeader
  by unfold_locales (simp_all add: mh_PutByteHeader_def mh_GetByteHeader_def)

interpretation message_bool: message_header PutBoolHeader GetBoolHeader mh_PutBoolHeader mh_GetBoolHeader
  by unfold_locales (simp_all add: mh_PutBoolHeader_def mh_GetBoolHeader_def)

interpretation message_string: message_header PutStringHeader GetStringHeader mh_PutStringHeader mh_GetStringHeader
  by unfold_locales (simp_all add: mh_PutStringHeader_def mh_GetStringHeader_def)

text \<open>
  Once the reply number of a message was looked at, it is fixed: putting the reply header
  afterwards changes neither what the message says of itself nor what the peer gets.
\<close>

theorem reply_number_is_fixed_by_first_look:
  assumes "m' = mh_PutUint32Header ReplyForHeader n (cacheReplyFor m)"
  shows "ReplyFor m' = ReplyFor m" "ReplyFor (received m') = ReplyFor m" "IsReply m' = IsReply m"
proof -
  have "replyFor (cacheReplyFor m) = Some (ReplyFor m)"
    by (cases "replyFor m") (simp_all add: ReplyFor_def cacheReplyFor_def Let_def)
  then have r: "replyFor m' = Some (ReplyFor m)" by (simp add: assms mh_PutUint32Header_def)
  show *: "ReplyFor m' = ReplyFor m" using r by (simp add: ReplyFor_def cacheReplyFor_def)
  show "ReplyFor (received m') = ReplyFor m"
    using r by (simp add: ReplyFor_uncached received_def putReplyFor_def PutUint32Header_def PutUint32_def)
  show "IsReply m' = IsReply m" using * by (simp add: IsReply_def)
qed

end
