(* ===== verification/Go_Chan.thy ===== *)
theory Go_Chan
  imports Chan_Prelude
begin

text \<open>
  Go's run-time objects the channel code synchronises with: buffered channels, \<^verbatim>\<open>select\<close>,
  contexts, and the unwrapping of errors by \<^verbatim>\<open>errors.Is\<close> and \<^verbatim>\<open>errors.As\<close>. The
  locale \<open>bounded_fifo\<close> is the contract of a buffered channel: whatever the order of sends
  and receives, what comes out is what went in, in order.
\<close>

section \<open>Buffered channels\<close>

text \<open>
  \<open>waiting\<close> counts the goroutines blocked in a receive: a send to an unbuffered or full
  channel is handed to one of them, so it may proceed as long as the items not yet taken are
  fewer than the capacity and the waiting receivers together.
\<close>

record 'a gochan =
  capacity :: nat
  waiting :: nat
  buffer :: "'a list"

definition can_send :: "'a gochan \<Rightarrow> bool" where
  "can_send c \<longleftrightarrow> length (buffer c) < capacity c + waiting c"

definition chan_send :: "'a \<Rightarrow> 'a gochan \<Rightarrow> 'a gochan option" where
  "chan_send x c = (if can_send c then Some (c\<lparr>buffer := buffer c @ [x]\<rparr>) else None)"

definition chan_recv :: "'a gochan \<Rightarrow> ('a \<times> 'a gochan) option" where
  "chan_recv c = (case buffer c of [] \<Rightarrow> None | x # xs \<Rightarrow> Some (x, c\<lparr>buffer := xs\<rparr>))"

definition make_chan :: "nat \<Rightarrow> 'a gochan" where
  "make_chan n = \<lparr>capacity = n, waiting = 0, buffer = []\<rparr>"

datatype 'a chan_op = OpSend 'a | OpRecv

fun chan_run :: "('a \<Rightarrow> 'c \<Rightarrow> 'c option) \<Rightarrow> ('c \<Rightarrow> ('a \<times> 'c) option) \<Rightarrow> 'a chan_op list \<Rightarrow> 'c \<Rightarrow> 'a list \<times> 'a list \<times> 'c" where
  "chan_run snd' rcv [] c = ([], [], c)"
| "chan_run snd' rcv (OpSend x # ops) c =
     (case snd' x c of
        None \<Rightarrow> chan_run snd' rcv ops c
      | Some c' \<Rightarrow> (let (ins, outs, d) = chan_run snd' rcv ops c' in (x # ins, outs, d)))"
| "chan_run snd' rcv (OpRecv # ops) c =
     (case rcv c of
        None \<Rightarrow> chan_run snd' rcv ops c
      | Some (x, c') \<Rightarrow> (let (ins, outs, d) = chan_run snd' rcv ops c' in (ins, x # outs, d)))"

text \<open>
  The contract of a bounded queue. \<open>chan_run\<close> performs a sequence of attempts; an attempt
  that cannot proceed has no effect.
\<close>

locale bounded_fifo =
  fixes send :: "'a \<Rightarrow> 'c \<Rightarrow> 'c option" and recv :: "'c \<Rightarrow> ('a \<times> 'c) option"
    and items :: "'c \<Rightarrow> 'a list" and bound :: "'c \<Rightarrow> nat"
  assumes send_items: "send x c = Some c' \<Longrightarrow> items c' = items c @ [x] \<and> bound c' = bound c \<and> length (items c') \<le> bound c"
    and send_full: "send x c = None \<longleftrightarrow> bound c \<le> length (items c)"
    and recv_items: "recv c = Some (x, c') \<Longrightarrow> items c = x # items c' \<and> bound c' = bound c"
    and recv_empty: "recv c = None \<longleftrightarrow> items c = []"
begin

lemma run_fifo:
  "chan_run send recv ops c = (ins, outs, d) \<Longrightarrow> items c @ ins = outs @ items d"
proof (induction ops arbitrary: c ins outs d)
  case Nil
  then show ?case by simp
next
  case (Cons p ops)
  show ?case
  proof (cases p)
    case (OpSend x)
    with Cons show ?thesis
      by (fastforce split: option.splits prod.splits dest: send_items)
  next
    case OpRecv
    with Cons show ?thesis
      by (fastforce split: option.splits prod.splits dest: recv_items)
  qed
qed

lemma run_bound:
  "chan_run send recv ops c = (ins, outs, d) \<Longrightarrow> length (items c) \<le> bound c \<Longrightarrow>
   bound d = bound c \<and> length (items d) \<le> bound c"
proof (induction ops arbitrary: c ins outs d)
  case Nil
  then show ?case by simp
next
  case (Cons p ops)
  show ?case
  proof (cases p)
    case (OpSend x)
    then show ?thesis
    proof (cases "send x c")
      case None
      with OpSend Cons show ?thesis by simp
    next
      case (Some c')
      with OpSend Cons.prems obtain ins' where "chan_run send recv ops c' = (ins', outs, d)"
        by (auto split: prod.splits)
      from Cons.IH [OF this] send_items [OF Some] show ?thesis by auto
    qed
  next
    case OpRecv
    then show ?thesis
    proof (cases "recv c")
      case None
      with OpRecv Cons show ?thesis by simp
    next
      case (Some xc)
      obtain x c' where xc: "recv c = Some (x, c')" using Some by (cases xc) simp
      with OpRecv Cons.prems obtain outs' where "chan_run send recv ops c' = (ins, outs', d)"
        by (auto split: prod.splits)
      from Cons.IH [OF this] recv_items [OF xc] Cons.prems(2) show ?thesis by simp
    qed
  qed
qed

end

interpretation go_chan: bounded_fifo chan_send chan_recv buffer "\<lambda>c. capacity c + waiting c"
  by unfold_locales (auto simp: chan_send_def chan_recv_def can_send_def split: if_splits list.splits)

section \<open>Select\<close>

text \<open>
  \<^verbatim>\<open>select\<close> proceeds with one of the ready cases; which one is up to the run-time, here
  the argument \<open>pick\<close>. Without a ready case there is no result: the default branch is
  taken, or the goroutine blocks.
\<close>

definition sel :: "nat \<Rightarrow> 'a list \<Rightarrow> 'a option" where
  "sel pick cases = (if cases = [] then None else Some (cases ! (pick mod length cases)))"

lemma sel_in: "sel pick cases = Some x \<Longrightarrow> x \<in> set cases"
  by (auto simp: sel_def split: if_splits)

lemma sel_None [simp]: "sel pick cases = None \<longleftrightarrow> cases = []"
  by (simp add: sel_def)

lemma sel_simps [simp]: "sel pick [] = None" "sel pick [x] = Some x"
  by (simp_all add: sel_def)

lemma sel_all: "x \<in> set cases \<Longrightarrow> \<exists>pick. sel pick cases = Some x"
  by (metis sel_def in_set_conv_nth length_pos_if_in_set less_nat_zero_code list.size(3) mod_less)

section \<open>Contexts and errors\<close>

text \<open>
  A \<^verbatim>\<open>context.Context\<close> as an operation sees it: whether \<^verbatim>\<open>Done()\<close> is closed,
  \<^verbatim>\<open>Err()\<close>, and the deadline in Unix milliseconds.
\<close>

record Ctx =
  cdone :: bool
  cerr :: "err option"
  cdeadline :: "int64 option"

definition Background :: Ctx where
  "Background = \<lparr>cdone = False, cerr = None, cdeadline = None\<rparr>"

text \<open>A cancel function ends a live context with \<^verbatim>\<open>context.Canceled\<close>.\<close>

definition cancel_ctx :: "Ctx \<Rightarrow> Ctx" where
  "cancel_ctx c = (if cdone c then c else c\<lparr>cdone := True, cerr := Some Canceled\<rparr>)"

text \<open>\<^verbatim>\<open>errors.Is\<close> and \<^verbatim>\<open>errors.As\<close>: the error itself or one it wraps.\<close>

fun err_chain :: "err \<Rightarrow> err list" where
  "err_chain (TimeoutError e) = TimeoutError e # err_chain e"
| "err_chain (NonRetryableError e) = NonRetryableError e # err_chain e"
| "err_chain (ErrWrap s e) = ErrWrap s e # err_chain e"
| "err_chain (ErrJoin es) = ErrJoin es # concat (map err_chain es)"
| "err_chain e = [e]"

definition errors_Is :: "err \<Rightarrow> err \<Rightarrow> bool" where
  "errors_Is e target \<longleftrightarrow> target \<in> set (err_chain e)"

fun is_TimeoutError :: "err \<Rightarrow> bool" where
  "is_TimeoutError (TimeoutError e) = True"
| "is_TimeoutError _ = False"

definition IsTimeout :: "err \<Rightarrow> bool" where
  "IsTimeout e \<longleftrightarrow> list_ex is_TimeoutError (err_chain e)"

lemma IsTimeout_TimeoutError [simp]: "IsTimeout (TimeoutError e)"
  by (simp add: IsTimeout_def)

lemma errors_Is_refl: "errors_Is e e"
  by (cases e) (simp_all add: errors_Is_def)

lemma errors_Is_wrap: "errors_Is (TimeoutError e) e" "errors_Is (ErrWrap s e) e" "errors_Is (NonRetryableError e) e"
  using errors_Is_refl [of e] by (simp_all add: errors_Is_def)

end
