(* ===== verification/Senders.thy ===== *)
theory Senders
  imports Go_Chan Headers
begin

text \<open>
  Sendables and the sending half of a channel up to its queue: \<^verbatim>\<open>channel.go\<close> (the Sendable
  interface and its implementations in \<^verbatim>\<open>message.go\<close> and \<^verbatim>\<open>envelope.go\<close>),
  \<^verbatim>\<open>senders.go\<close> and \<^verbatim>\<open>message_source.go\<close>. A Sendable carries its message by value: a
  message object that is queued twice at once is outside the model.
\<close>

section \<open>Sendables\<close>

text \<open>
  The implementations of Sendable: a plain message, the envelopes of \<^verbatim>\<open>envelope.go\<close>, and
  \<open>KBase\<close> for one that embeds \<^verbatim>\<open>BaseSendable\<close>. \<open>sid\<close> identifies the
  envelope object (its error and reply channels).
\<close>

datatype sendable_kind = KMessage | KEnvelope | KQueueWait | KSendWait | KReply | KError | KBase

record Sendable =
  skind :: sendable_kind
  sid :: nat
  Msg :: "Message option"
  Context :: Ctx

definition SetSequence_sendable :: "int32 \<Rightarrow> Sendable \<Rightarrow> Sendable" where
  "SetSequence_sendable s x = (if skind x = KError then x else x\<lparr>Msg := map_option (SetSequence s) (Msg x)\<rparr>)"

text \<open>Only the reply envelope has a receiver: itself.\<close>

definition ReplyReceiver :: "Sendable \<Rightarrow> nat option" where
  "ReplyReceiver x = (if skind x = KReply then Some (sid x) else None)"

definition writeContext :: "Sendable \<Rightarrow> Ctx" where
  "writeContext x = (if skind x = KQueueWait then Background else Context x)"

definition NewErrorContext :: "err option \<Rightarrow> Ctx" where
  "NewErrorContext e = \<lparr>cdone = True, cerr = e, cdeadline = None\<rparr>"

definition NewErrorEnvelope :: "nat \<Rightarrow> err option \<Rightarrow> Sendable" where
  "NewErrorEnvelope i e = \<lparr>skind = KError, sid = i, Msg = None, Context = NewErrorContext e\<rparr>"

section \<open>The single channel sender\<close>

text \<open>
  The sender context (\<^verbatim>\<open>senderContextImpl\<close>) with the queue the sender writes to. The
  counter is the \<^verbatim>\<open>sequence\<close> package of another module: \<open>Next\<close> is a parameter.
\<close>

record 'q sender =
  seqState :: 'q
  closeNotify :: bool
  msgC :: "Sendable gochan"

definition NextSequence :: "('q \<Rightarrow> 'w::len word \<times> 'q) \<Rightarrow> 'q sender \<Rightarrow> int32 \<times> 'q sender" where
  "NextSequence Next st = (let (n, q) = Next (seqState st) in (ucast n, st\<lparr>seqState := q\<rparr>))"

definition queueContextErr :: "err \<Rightarrow> err" where
  "queueContextErr e =
     (if errors_Is e DeadlineExceeded \<or> errors_Is e Canceled
      then TimeoutError (ErrWrap ''timeout waiting to put message in send queue'' e) else e)"

text \<open>The error of the \<^verbatim>\<open>Done\<close> case of the select, from the context as it is then.\<close>

definition queueTimeout :: "Ctx \<Rightarrow> err" where
  "queueTimeout later =
     (case cerr later of
        Some e \<Rightarrow> TimeoutError (ErrWrap ''timeout waiting to put message in send queue'' e)
      | None \<Rightarrow> TimeoutError (ErrText ''timeout waiting to put message in send queue''))"

text \<open>
  The ready cases of the select: \<open>later\<close> is the sendable's context at that point, \<open>st\<close> the
  sender with the sequence number taken.
\<close>

definition send_cases :: "Ctx \<Rightarrow> Sendable \<Rightarrow> 'q sender \<Rightarrow> (err option \<times> 'q sender) list" where
  "send_cases later s st =
     (if cdone later then [(Some (queueTimeout later), st)] else []) @
     (if closeNotify st then [(Some ClosedError, st)] else []) @
     (case chan_send s (msgC st) of None \<Rightarrow> [] | Some c \<Rightarrow> [(None, st\<lparr>msgC := c\<rparr>)])"

definition TrySend ::
    "('q \<Rightarrow> 'w::len word \<times> 'q) \<Rightarrow> nat \<Rightarrow> Ctx \<Rightarrow> Sendable \<Rightarrow> 'q sender \<Rightarrow> (bool \<times> err option) \<times> 'q sender" where
  "TrySend Next pick later s st =
     (case cerr (Context s) of
        Some e \<Rightarrow> ((False, Some (queueContextErr e)), st)
      | None \<Rightarrow>
          (let (n, st) = NextSequence Next st;
               s = SetSequence_sendable n s
           in case sel pick (send_cases later s st) of
                Some (Some e, st) \<Rightarrow> ((False, Some e), st)
              | Some (None, st) \<Rightarrow> ((True, None), st)
              | None \<Rightarrow> ((False, None), st)))"

text \<open>\<^verbatim>\<open>Send\<close> has no default case: \<open>None\<close> is a goroutine that stays blocked.\<close>

definition Send ::
    "('q \<Rightarrow> 'w::len word \<times> 'q) \<Rightarrow> nat \<Rightarrow> Ctx \<Rightarrow> Sendable \<Rightarrow> 'q sender \<Rightarrow> (err option \<times> 'q sender) option" where
  "Send Next pick later s st =
     (case cerr (Context s) of
        Some e \<Rightarrow> Some (Some (queueContextErr e), st)
      | None \<Rightarrow>
          (let (n, st) = NextSequence Next st;
               s = SetSequence_sendable n s
           in sel pick (send_cases later s st)))"

section \<open>Retry queues\<close>

text \<open>\<^verbatim>\<open>RetryToQueues\<close>: the first queue with space takes the sendable.\<close>

fun RetryToQueues :: "Sendable \<Rightarrow> Sendable gochan list \<Rightarrow> bool \<times> Sendable gochan list" where
  "RetryToQueues s [] = (False, [])"
| "RetryToQueues s (q # qs) =
     (case chan_send s q of
        Some q' \<Rightarrow> (True, q' # qs)
      | None \<Rightarrow> (let (ok, qs') = RetryToQueues s qs in (ok, q # qs')))"

section \<open>Message sources\<close>

text \<open>
  A message source returns a message with the queues behind it, or \<^verbatim>\<open>io.EOF\<close> when the
  channel or the underlay's notifier is closed; \<open>None\<close> is blocked.
\<close>

definition eof_cases :: "bool \<Rightarrow> bool \<Rightarrow> 'a \<Rightarrow> (Sendable res \<times> 'a) list" where
  "eof_cases closed notified qs =
     (if closed then [(Inl ErrEOF, qs)] else []) @ (if notified then [(Inl ErrEOF, qs)] else [])"

definition recv_case :: "Sendable gochan \<Rightarrow> (Sendable gochan \<Rightarrow> 'a) \<Rightarrow> (Sendable res \<times> 'a) list" where
  "recv_case q put = (case chan_recv q of None \<Rightarrow> [] | Some (m, q') \<Rightarrow> [(Inr m, put q')])"

definition MakeSingleQueueMessageSource ::
    "nat \<Rightarrow> bool \<Rightarrow> bool \<Rightarrow> Sendable gochan \<Rightarrow> (Sendable res \<times> Sendable gochan) option" where
  "MakeSingleQueueMessageSource pick closed notified q1 =
     sel pick (recv_case q1 (\<lambda>q. q) @ eof_cases closed notified q1)"

definition MakeTwoQueueMessageSource ::
    "nat \<Rightarrow> bool \<Rightarrow> bool \<Rightarrow> Sendable gochan \<Rightarrow> Sendable gochan \<Rightarrow>
     (Sendable res \<times> Sendable gochan \<times> Sendable gochan) option" where
  "MakeTwoQueueMessageSource pick closed notified q1 q2 =
     sel pick (recv_case q1 (\<lambda>q. (q, q2)) @ recv_case q2 (\<lambda>q. (q1, q)) @ eof_cases closed notified (q1, q2))"

definition MakeThreeQueueMessageSource ::
    "nat \<Rightarrow> bool \<Rightarrow> bool \<Rightarrow> Sendable gochan \<Rightarrow> Sendable gochan \<Rightarrow> Sendable gochan \<Rightarrow>
     (Sendable res \<times> Sendable gochan \<times> Sendable gochan \<times> Sendable gochan) option" where
  "MakeThreeQueueMessageSource pick closed notified q1 q2 q3 =
     sel pick (recv_case q1 (\<lambda>q. (q, q2, q3)) @ recv_case q2 (\<lambda>q. (q1, q, q3)) @
               recv_case q3 (\<lambda>q. (q1, q2, q)) @ eof_cases closed notified (q1, q2, q3))"

record 'f SimpleMessageSourceProvider =
  defaultSource :: 'f
  sources :: "string \<rightharpoonup> 'f"

definition NewSimpleMessageSourceProvider :: "'f \<Rightarrow> 'f SimpleMessageSourceProvider" where
  "NewSimpleMessageSourceProvider d = \<lparr>defaultSource = d, sources = Map.empty\<rparr>"

definition AddSource :: "string \<Rightarrow> 'f \<Rightarrow> 'f SimpleMessageSourceProvider \<Rightarrow> 'f SimpleMessageSourceProvider" where
  "AddSource t f p = p\<lparr>sources := (sources p)(t \<mapsto> f)\<rparr>"

definition GetMessageSource :: "string \<Rightarrow> 'f SimpleMessageSourceProvider \<Rightarrow> 'f" where
  "GetMessageSource t p = (case sources p t of Some f \<Rightarrow> f | None \<Rightarrow> defaultSource p)"

section \<open>Behaviour of the senders\<close>

lemma NextSequence_simps [simp]:
  "msgC (snd (NextSequence Next st)) = msgC st" "closeNotify (snd (NextSequence Next st)) = closeNotify st"
  by (simp_all add: NextSequence_def split: prod.splits)

lemma SetSequence_sendable_simps [simp]:
  "sid (SetSequence_sendable n s) = sid s" "skind (SetSequence_sendable n s) = skind s"
  "Context (SetSequence_sendable n s) = Context s"
  by (simp_all add: SetSequence_sendable_def)

text \<open>A case of the select that reports no error is the one that queued the sendable.\<close>

lemma send_cases_elim:
  assumes "r \<in> set (send_cases later s st)"
  obtains (timeout) "cdone later" "r = (Some (queueTimeout later), st)"
    | (closed) "closeNotify st" "r = (Some ClosedError, st)"
    | (queued) c where "chan_send s (msgC st) = Some c" "r = (None, st\<lparr>msgC := c\<rparr>)"
  using assms by (cases "chan_send s (msgC st)") (auto simp: send_cases_def split: if_splits)

lemma send_cases_Nil:
  "send_cases later s st = [] \<longleftrightarrow> \<not> cdone later \<and> \<not> closeNotify st \<and> \<not> can_send (msgC st)"
  by (auto simp: send_cases_def chan_send_def)

text \<open>What a non-blocking send did, from its two results.\<close>

lemma TrySend_elim:
  assumes "TrySend Next pick later s st = ((ok, e), st')"
  obtains (refused) x where "cerr (Context s) = Some x" "\<not> ok" "e = Some (queueContextErr x)" "st' = st"
    | (failed) "cerr (Context s) = None" "\<not> ok" "e = Some (queueTimeout later) \<or> e = Some ClosedError"
        "st' = snd (NextSequence Next st)"
    | (busy) "cerr (Context s) = None" "\<not> ok" "e = None" "st' = snd (NextSequence Next st)"
    | (queued) c where "cerr (Context s) = None" ok "e = None"
        "chan_send (SetSequence_sendable (fst (NextSequence Next st)) s) (msgC st) = Some c"
        "st' = (snd (NextSequence Next st))\<lparr>msgC := c\<rparr>"
proof (cases "cerr (Context s)")
  case (Some x)
  with assms refused show thesis by (simp add: TrySend_def)
next
  case None
  let ?n = "fst (NextSequence Next st)" and ?st = "snd (NextSequence Next st)"
  let ?s = "SetSequence_sendable ?n s"
  have run: "TrySend Next pick later s st =
      (case sel pick (send_cases later ?s ?st) of
         Some (Some e, st) \<Rightarrow> ((False, Some e), st) | Some (None, st) \<Rightarrow> ((True, None), st)
       | None \<Rightarrow> ((False, None), ?st))"
    using None by (simp add: TrySend_def Let_def split_beta)
  show thesis
  proof (cases "sel pick (send_cases later ?s ?st)")
    case no_case: None
    with run assms busy None show thesis by simp
  next
    case (Some r)
    from sel_in [OF Some] show thesis
    proof (cases rule: send_cases_elim)
      case timeout
      with run Some assms failed None show thesis by simp
    next
      case closed
      with run Some assms failed None show thesis by simp
    next
      case (queued c)
      with run Some assms that(4) [of c] None show thesis by simp
    qed
  qed
qed

lemma source_elim:
  assumes "MakeSingleQueueMessageSource pick closed notified q = Some (r, q')"
  obtains (message) m where "r = Inr m" "chan_recv q = Some (m, q')"
    | (eof) "r = Inl ErrEOF" "q' = q" "closed \<or> notified"
  using assms sel_in [of pick _ "(r, q')"]
  by (fastforce simp: MakeSingleQueueMessageSource_def recv_case_def eof_cases_def split: option.splits if_splits)

section \<open>Properties of the senders\<close>

text \<open>
  A non-blocking send reports exactly what it did: it returns true without an error only
  when the sendable, with its new sequence number, was appended to the queue; in every other
  case the queue is unchanged. An error it reports is a timeout, the closed channel, or the
  sendable's own context error.
\<close>

theorem TrySend_reports_queueing:
  assumes "TrySend Next pick later s st = ((ok, e), st')"
  shows "buffer (msgC st') = buffer (msgC st) @
      (if ok then [SetSequence_sendable (fst (NextSequence Next st)) s] else []) \<and>
    (ok \<longrightarrow> e = None) \<and>
    (\<forall>x. e = Some x \<longrightarrow> IsTimeout x \<or> x = ClosedError \<or> cerr (Context s) = Some x)"
  using assms
proof (cases rule: TrySend_elim)
  case (queued c)
  with go_chan.send_items [OF queued(4)] show ?thesis by simp
qed (auto simp: queueContextErr_def queueTimeout_def split: option.splits if_splits)

definition sample_sender :: "nat sender" where
  "sample_sender = \<lparr>seqState = 7, closeNotify = False, msgC = make_chan 1\<rparr>"

definition sample_Next :: "nat \<Rightarrow> 32 word \<times> nat" where
  "sample_Next n = (word_of_nat n, Suc n)"

definition sample_sendable :: Sendable where
  "sample_sendable = \<lparr>skind = KMessage, sid = 0, Msg = Some (NewMessage 5 []), Context = Background\<rparr>"

theorem TrySend_reports_queueing_witness:
  "TrySend sample_Next 0 Background sample_sendable sample_sender =
     ((True, None), sample_sender\<lparr>seqState := 8, msgC := (make_chan 1)\<lparr>buffer := [SetSequence_sendable 7 sample_sendable]\<rparr>\<rparr>) \<and>
   buffer (msgC (snd (TrySend sample_Next 0 Background sample_sendable sample_sender))) =
     [SetSequence_sendable 7 sample_sendable]"
proof -
  have run: "TrySend sample_Next 0 Background sample_sendable sample_sender =
     ((True, None), sample_sender\<lparr>seqState := 8, msgC := (make_chan 1)\<lparr>buffer := [SetSequence_sendable 7 sample_sendable]\<rparr>\<rparr>)"
    by (simp add: TrySend_def NextSequence_def send_cases_def chan_send_def can_send_def make_chan_def
        sample_sender_def sample_Next_def sample_sendable_def Background_def)
  from TrySend_reports_queueing [OF run] run show ?thesis
    by (simp add: sample_sender_def make_chan_def NextSequence_def sample_Next_def)
qed

text \<open>
  A blocking send cannot hang on a dead channel: it stays blocked exactly while the
  sendable's context is live, the channel is open and the queue is full; once it proceeds and
  reports no error, the sendable is in the queue.
\<close>

theorem Send_blocks_only_while_full:
  "(Send Next pick later s st = None \<longleftrightarrow>
      cerr (Context s) = None \<and> \<not> cdone later \<and> \<not> closeNotify st \<and> \<not> can_send (msgC st)) \<and>
   (\<forall>st'. Send Next pick later s st = Some (None, st') \<longrightarrow>
      buffer (msgC st') = buffer (msgC st) @ [SetSequence_sendable (fst (NextSequence Next st)) s])"
proof (intro conjI allI impI)
  show "Send Next pick later s st = None \<longleftrightarrow>
      cerr (Context s) = None \<and> \<not> cdone later \<and> \<not> closeNotify st \<and> \<not> can_send (msgC st)"
    by (simp add: Send_def Let_def split_beta send_cases_Nil split: option.splits)
  fix st' assume "Send Next pick later s st = Some (None, st')"
  then have "(None, st') \<in> set (send_cases later (SetSequence_sendable (fst (NextSequence Next st)) s) (snd (NextSequence Next st)))"
    by (auto simp: Send_def Let_def split_beta split: option.splits dest: sel_in)
  then show "buffer (msgC st') = buffer (msgC st) @ [SetSequence_sendable (fst (NextSequence Next st)) s]"
    by (cases rule: send_cases_elim) (use go_chan.send_items in fastforce)+
qed

theorem Send_blocks_only_while_full_witness:
  "buffer (msgC (snd (the (Send sample_Next 0 Background sample_sendable sample_sender)))) =
     [SetSequence_sendable 7 sample_sendable]"
proof -
  have "Send sample_Next 0 Background sample_sendable sample_sender =
     Some (None, sample_sender\<lparr>seqState := 8, msgC := (make_chan 1)\<lparr>buffer := [SetSequence_sendable 7 sample_sendable]\<rparr>\<rparr>)"
    by (simp add: Send_def NextSequence_def send_cases_def chan_send_def can_send_def make_chan_def
        sample_sender_def sample_Next_def sample_sendable_def Background_def)
  with Send_blocks_only_while_full [of sample_Next 0 Background sample_sendable sample_sender] show ?thesis
    by (simp add: sample_sender_def make_chan_def NextSequence_def sample_Next_def)
qed

text \<open>
  A message that the transport failed to write is offered to the retry queues in order: it
  is accepted exactly when one of them has space, then by the first such queue, at its end, and
  no other queue changes.
\<close>

theorem RetryToQueues_first_with_space:
  "(\<forall>q\<in>set qs. \<not> can_send q) \<and> RetryToQueues s qs = (False, qs) \<or>
   (\<exists>pre q post. qs = pre @ q # post \<and> (\<forall>p\<in>set pre. \<not> can_send p) \<and> can_send q \<and>
      RetryToQueues s qs = (True, pre @ q\<lparr>buffer := buffer q @ [s]\<rparr> # post))"
proof (induction qs)
  case Nil
  then show ?case by simp
next
  case (Cons q qs)
  show ?case
  proof (cases "can_send q")
    case True
    then show ?thesis by (auto simp: chan_send_def intro!: exI [of _ "[]"])
  next
    case False
    from Cons show ?thesis
    proof
      assume "(\<forall>q\<in>set qs. \<not> can_send q) \<and> RetryToQueues s qs = (False, qs)"
      with False show ?thesis by (simp add: chan_send_def)
    next
      assume "\<exists>pre q post. qs = pre @ q # post \<and> (\<forall>p\<in>set pre. \<not> can_send p) \<and> can_send q \<and>
        RetryToQueues s qs = (True, pre @ q\<lparr>buffer := buffer q @ [s]\<rparr> # post)"
      then obtain pre p post where "qs = pre @ p # post" "\<forall>p\<in>set pre. \<not> can_send p" "can_send p"
        "RetryToQueues s qs = (True, pre @ p\<lparr>buffer := buffer p @ [s]\<rparr> # post)" by blast
      with False show ?thesis
        by (intro disjI2 exI [of _ "q # pre"] exI [of _ p] exI [of _ post]) (simp add: chan_send_def)
    qed
  qed
qed

theorem RetryToQueues_first_with_space_witness:
  "RetryToQueues sample_sendable [make_chan 0, make_chan 1] =
     (True, [make_chan 0, (make_chan 1)\<lparr>buffer := [sample_sendable]\<rparr>])"
  using RetryToQueues_first_with_space [of "[make_chan 0, make_chan 1]" sample_sendable]
  by (auto simp: make_chan_def can_send_def Cons_eq_append_conv)

section \<open>From the senders to the transmitter\<close>

text \<open>
  Any interleaving of non-blocking sends, of the message source of a transmitter and of the
  closing of the channel, on one queue. The result is what the sends put into the queue, in
  order, what the source handed out, in order, and the sender at the end.
\<close>

datatype pipe_op = PTry nat Ctx Sendable | PTake nat bool | PClose

fun pipeline :: "('q \<Rightarrow> 'w::len word \<times> 'q) \<Rightarrow> pipe_op list \<Rightarrow> 'q sender \<Rightarrow> Sendable list \<times> Sendable list \<times> 'q sender" where
  "pipeline Next [] st = ([], [], st)"
| "pipeline Next (PTry pick later s # ops) st =
     (let ((ok, _), st') = TrySend Next pick later s st;
          (ins, outs, st'') = pipeline Next ops st'
      in (if ok then SetSequence_sendable (fst (NextSequence Next st)) s # ins else ins, outs, st''))"
| "pipeline Next (PTake pick notified # ops) st =
     (case MakeSingleQueueMessageSource pick (closeNotify st) notified (msgC st) of
        Some (Inr m, q) \<Rightarrow> (let (ins, outs, st') = pipeline Next ops (st\<lparr>msgC := q\<rparr>) in (ins, m # outs, st'))
      | _ \<Rightarrow> pipeline Next ops st)"
| "pipeline Next (PClose # ops) st = pipeline Next ops (st\<lparr>closeNotify := True\<rparr>)"

lemma TrySend_bound:
  assumes "TrySend Next pick later s st = ((ok, e), st')"
  shows "capacity (msgC st') + waiting (msgC st') = capacity (msgC st) + waiting (msgC st)"
  using assms by (cases rule: TrySend_elim) (use go_chan.send_items in fastforce)+

lemma TrySend_buffer:
  assumes "TrySend Next pick later s st = ((ok, e), st')"
  shows "buffer (msgC st') = buffer (msgC st) @
      (if ok then [SetSequence_sendable (fst (NextSequence Next st)) s] else [])"
  using assms by (cases rule: TrySend_elim) (use go_chan.send_items in fastforce)+

text \<open>
  Between the senders and the transmitter nothing is lost, duplicated or reordered: in
  every interleaving of sends, takes and the channel's closing, the messages the source handed
  out followed by those still queued are the messages the sends accepted, in that order.
\<close>

lemma pipeline_fifo:
  assumes "pipeline Next ops st = (accepted, taken, st')"
  shows "buffer (msgC st) @ accepted = taken @ buffer (msgC st')"
  using assms
proof (induction ops arbitrary: st accepted taken st')
  case Nil
  then show ?case by simp
next
  case (Cons p ops)
  show ?case
  proof (cases p)
    case (PTry pick later s)
    obtain ok e q where t: "TrySend Next pick later s st = ((ok, e), q)" by (metis surj_pair)
    from Cons PTry t TrySend_buffer [OF t] show ?thesis
      by (fastforce split: prod.splits if_splits)
  next
    case (PTake pick notified)
    show ?thesis
    proof (cases "MakeSingleQueueMessageSource pick (closeNotify st) notified (msgC st)")
      case None
      with Cons PTake show ?thesis by simp
    next
      case (Some rq)
      obtain r q where rq: "rq = (r, q)" by (cases rq)
      from Some [unfolded rq] show ?thesis
      proof (cases rule: source_elim)
        case (message m)
        with Cons PTake Some rq go_chan.recv_items [OF message(2)] show ?thesis
          by (fastforce split: prod.splits)
      next
        case eof
        with Cons PTake Some rq show ?thesis by simp
      qed
    qed
  next
    case PClose
    with Cons show ?thesis by fastforce
  qed
qed

text \<open>A queue of one: the first send is taken, the second is refused and uses up its number.\<close>

lemma sample_pipeline:
  "pipeline sample_Next [PTry 0 Background sample_sendable, PTry 0 Background sample_sendable, PTake 0 False] sample_sender =
     ([SetSequence_sendable 7 sample_sendable], [SetSequence_sendable 7 sample_sendable], sample_sender\<lparr>seqState := 9\<rparr>)"
  by (simp add: TrySend_def NextSequence_def send_cases_def chan_send_def can_send_def make_chan_def
      MakeSingleQueueMessageSource_def recv_case_def eof_cases_def chan_recv_def
      sample_sender_def sample_Next_def sample_sendable_def Background_def)

end
