(* ===== verification/Waiters.thy ===== *)
theory Waiters
  imports Senders
begin

text \<open>
  The table of goroutines waiting for a reply, \<^verbatim>\<open>waiterMap\<close> of \<^verbatim>\<open>impl.go\<close> (lines
  112--175). A receiver is named by the reply envelope it belongs to. Times are int64
  milliseconds, compared as signed numbers; \<open>wsize\<close> is the int32 counter kept beside
  the map. The locale \<open>reply_registry\<close> is what the channel relies on: a registered
  receiver is handed out once.
\<close>

record waiter =
  replyReceiver :: nat
  ttlMs :: int64

text \<open>\<^verbatim>\<open>sync.Map\<close> holds untyped values; \<open>OtherEntry\<close> is one that is not a waiter.\<close>

datatype waiter_entry = WaiterEntry waiter | OtherEntry

record waiterMap =
  wm :: "int32 \<rightharpoonup> waiter_entry"
  wsize :: int32

definition empty_waiters :: waiterMap where
  "empty_waiters = \<lparr>wm = Map.empty, wsize = 0\<rparr>"

definition storeWaiter :: "int32 \<Rightarrow> waiter \<Rightarrow> waiterMap \<Rightarrow> waiterMap" where
  "storeWaiter s w ws = ws\<lparr>wm := (wm ws)(s \<mapsto> WaiterEntry w), wsize := wsize ws + 1\<rparr>"

definition AddWaiter :: "int64 \<Rightarrow> Sendable \<Rightarrow> waiterMap \<Rightarrow> waiterMap res" where
  "AddWaiter now sendable ws =
     (case ReplyReceiver sendable of
        None \<Rightarrow> Inr ws
      | Some r \<Rightarrow>
          (let ttl = (case cdeadline (Context sendable) of Some deadline \<Rightarrow> deadline | None \<Rightarrow> now + 30000)
           in case Msg sendable of
                None \<Rightarrow> Inl GoPanic
              | Some m \<Rightarrow> Inr (storeWaiter (sequence m) \<lparr>replyReceiver = r, ttlMs = ttl\<rparr> ws)))"

definition RemoveWaiter :: "int32 \<Rightarrow> waiterMap \<Rightarrow> (nat option \<times> waiterMap) res" where
  "RemoveWaiter s ws =
     (case wm ws s of
        None \<Rightarrow> Inr (None, ws)
      | Some OtherEntry \<Rightarrow> Inl GoPanic
      | Some (WaiterEntry w) \<Rightarrow>
          Inr (Some (replyReceiver w), ws\<lparr>wm := (wm ws)(s := None), wsize := wsize ws - 1\<rparr>))"

text \<open>
  The callback of \<^verbatim>\<open>reapExpired\<close> on the key and value that \<^verbatim>\<open>Range\<close> loaded: whether
  the entry is to go. \<open>ks\<close> is the order of the traversal.
\<close>

definition expired :: "int64 \<Rightarrow> waiter_entry \<Rightarrow> bool" where
  "expired now e = (case e of OtherEntry \<Rightarrow> True | WaiterEntry w \<Rightarrow> sint (ttlMs w) < sint now)"

definition reapVisit :: "int64 \<Rightarrow> int32 \<Rightarrow> waiter_entry \<Rightarrow> waiterMap \<times> int32 \<Rightarrow> waiterMap \<times> int32" where
  "reapVisit now k e = (\<lambda>(ws, deleteCount).
     if expired now e then (ws\<lparr>wm := (wm ws)(k := None)\<rparr>, deleteCount + 1) else (ws, deleteCount))"

fun reapRange :: "int64 \<Rightarrow> int32 list \<Rightarrow> waiterMap \<times> int32 \<Rightarrow> waiterMap \<times> int32" where
  "reapRange now [] acc = acc"
| "reapRange now (k # ks) acc =
     (case wm (fst acc) k of
        None \<Rightarrow> reapRange now ks acc
      | Some e \<Rightarrow> reapRange now ks (reapVisit now k e acc))"

definition reapFinish :: "waiterMap \<times> int32 \<Rightarrow> waiterMap" where
  "reapFinish = (\<lambda>(ws, deleteCount). ws\<lparr>wsize := wsize ws - deleteCount\<rparr>)"

definition reapExpired :: "int64 \<Rightarrow> int32 list \<Rightarrow> waiterMap \<Rightarrow> waiterMap" where
  "reapExpired now ks ws = reapFinish (reapRange now ks (ws, 0))"

definition clearWaiters :: "waiterMap \<Rightarrow> waiterMap" where
  "clearWaiters ws = ws\<lparr>wsize := 0, wm := Map.empty\<rparr>"

section \<open>The invariant\<close>

definition wf_waiters :: "waiterMap \<Rightarrow> bool" where
  "wf_waiters ws \<longleftrightarrow> finite (dom (wm ws)) \<and> wsize ws = word_of_nat (card (dom (wm ws))) \<and>
     (\<forall>k. wm ws k \<noteq> Some OtherEntry)"

lemma wf_empty [simp]: "wf_waiters empty_waiters"
  by (simp add: wf_waiters_def empty_waiters_def)

lemma wm_empty [simp]: "wm empty_waiters = Map.empty"
  by (simp add: empty_waiters_def)

lemma wf_clear [simp]: "wf_waiters (clearWaiters ws)"
  by (simp add: wf_waiters_def clearWaiters_def)

lemma wf_store: "wf_waiters ws \<Longrightarrow> s \<notin> dom (wm ws) \<Longrightarrow> wf_waiters (storeWaiter s w ws)"
  by (simp add: wf_waiters_def storeWaiter_def domIff)

lemma wf_AddWaiter:
  assumes "wf_waiters ws" "AddWaiter now s ws = Inr ws'"
    and "\<And>m. Msg s = Some m \<Longrightarrow> sequence m \<notin> dom (wm ws)"
  shows "wf_waiters ws'"
  using assms by (auto simp: AddWaiter_def Let_def split: option.splits intro: wf_store)

lemma card_delete:
  assumes "finite (dom m)" "m k \<noteq> None"
  shows "Suc (card (dom (m(k := None)))) = card (dom m)"
  using assms card.remove [of "dom m" k] by (auto simp: domIff)

lemma RemoveWaiter_elim:
  assumes "wf_waiters ws"
  obtains (missing) "wm ws s = None" "RemoveWaiter s ws = Inr (None, ws)"
    | (found) w where "wm ws s = Some (WaiterEntry w)"
        "RemoveWaiter s ws = Inr (Some (replyReceiver w), ws\<lparr>wm := (wm ws)(s := None), wsize := wsize ws - 1\<rparr>)"
proof (cases "wm ws s")
  case None
  with missing show thesis by (simp add: RemoveWaiter_def)
next
  case (Some e)
  with assms found show thesis by (cases e) (auto simp: wf_waiters_def RemoveWaiter_def)
qed

lemma wf_RemoveWaiter:
  assumes "wf_waiters ws" "RemoveWaiter s ws = Inr (r, ws')"
  shows "wf_waiters ws'"
  using assms(1)
proof (cases rule: RemoveWaiter_elim [of ws s])
  case missing
  with assms show ?thesis by simp
next
  case (found w)
  have "card (dom (wm ws)) = Suc (card (dom ((wm ws)(s := None))))"
    using card_delete [of "wm ws" s] assms(1) found(1) by (simp add: wf_waiters_def del: dom_fun_upd)
  then have "wsize ws = word_of_nat (card (dom ((wm ws)(s := None)))) + 1"
    using assms(1) by (simp add: wf_waiters_def del: dom_fun_upd)
  with found assms show ?thesis by (auto simp: wf_waiters_def)
qed

section \<open>Reaping\<close>

text \<open>What is left of a table at a time: the waiters that have not expired.\<close>

definition unexpired :: "int64 \<Rightarrow> (int32 \<rightharpoonup> waiter_entry) \<Rightarrow> int32 \<rightharpoonup> waiter_entry" where
  "unexpired now m = (\<lambda>k. case m k of None \<Rightarrow> None | Some e \<Rightarrow> if expired now e then None else Some e)"

lemma reapRange_step:
  "reapRange now (k # ks) (ws, n) =
     reapRange now ks (ws\<lparr>wm := (wm ws)(k := unexpired now (wm ws) k)\<rparr>,
       if unexpired now (wm ws) k = wm ws k then n else n + 1)"
  by (auto simp: reapVisit_def unexpired_def fun_upd_idem split: option.splits)

lemma unexpired_upd:
  "unexpired now (m(k := unexpired now m k)) = (unexpired now m)"
  by (auto simp: unexpired_def fun_eq_iff split: option.splits)

lemma reapRange_spec:
  assumes "distinct ks"
  shows "wm (fst (reapRange now ks (ws, n))) = (\<lambda>k. if k \<in> set ks then unexpired now (wm ws) k else wm ws k) \<and>
    snd (reapRange now ks (ws, n)) + word_of_nat (card (dom (wm (fst (reapRange now ks (ws, n)))))) =
       n + word_of_nat (card (dom (wm ws))) \<and>
    wsize (fst (reapRange now ks (ws, n))) = wsize ws"
  using assms
proof (induction ks arbitrary: ws n)
  case Nil
  then show ?case by simp
next
  case (Cons k ks)
  let ?ws = "ws\<lparr>wm := (wm ws)(k := unexpired now (wm ws) k)\<rparr>"
  let ?n = "if unexpired now (wm ws) k = wm ws k then n else n + 1"
  let ?R = "reapRange now ks (?ws, ?n)"
  have cnt: "?n + word_of_nat (card (dom (wm ?ws))) = n + word_of_nat (card (dom (wm ws)))"
  proof (cases "unexpired now (wm ws) k = wm ws k")
    case True
    then have "(wm ws)(k := unexpired now (wm ws) k) = wm ws" by (rule fun_upd_idem [OF sym])
    with True show ?thesis by (simp del: fun_upd_apply)
  next
    case False
    then have u: "unexpired now (wm ws) k = None" "wm ws k \<noteq> None"
      by (auto simp: unexpired_def split: option.splits if_splits)
    then have "card (dom (wm ws)) = Suc (card (dom (wm ?ws)))"
      using card_delete [of "wm ws" k] by (simp del: dom_fun_upd)
    with False show ?thesis by (simp del: dom_fun_upd)
  qed
  have dist: "distinct ks" using Cons.prems by simp
  from Cons.IH [OF dist, of ?ws ?n] have IH: "wm (fst ?R) = (\<lambda>x. if x \<in> set ks then unexpired now (wm ?ws) x else wm ?ws x)"
      "snd ?R + word_of_nat (card (dom (wm (fst ?R)))) = ?n + word_of_nat (card (dom (wm ?ws)))"
      "wsize (fst ?R) = wsize ?ws" by (rule conjunct1, rule conjunct2 [THEN conjunct1], rule conjunct2 [THEN conjunct2])
  have "wm (fst ?R) = (\<lambda>x. if x \<in> set (k # ks) then unexpired now (wm ws) x else wm ws x)"
    unfolding IH(1) by (auto simp: fun_eq_iff unexpired_upd)
  with IH(2,3) cnt show ?case unfolding reapRange_step by simp
qed

lemma reapExpired_map:
  assumes "wf_waiters ws" "enumerates ks (wm ws)"
  shows "wm (reapExpired now ks ws) = unexpired now (wm ws)"
proof -
  have "wm (reapExpired now ks ws) = wm (fst (reapRange now ks (ws, 0)))"
    by (simp add: reapExpired_def reapFinish_def split: prod.splits)
  also have "\<dots> = unexpired now (wm ws)"
    using reapRange_spec [of ks now ws 0] assms
    by (auto simp: enumerates_def wf_waiters_def unexpired_def fun_eq_iff split: option.splits)
  finally show ?thesis .
qed

lemma wf_reapExpired:
  assumes "wf_waiters ws" "enumerates ks (wm ws)"
  shows "wf_waiters (reapExpired now ks ws)"
proof -
  obtain ws' n where r: "reapRange now ks (ws, 0) = (ws', n)" by (metis surj_pair)
  have m: "wm ws' = unexpired now (wm ws)" "wsize ws' = wsize ws"
    and n: "n + word_of_nat (card (dom (wm ws'))) = word_of_nat (card (dom (wm ws)))"
    using reapRange_spec [of ks now ws 0] assms r reapExpired_map [OF assms, of now]
    by (auto simp: enumerates_def wf_waiters_def reapExpired_def reapFinish_def)
  have "finite (dom (wm ws'))"
    using assms(1) m(1) by (auto simp: wf_waiters_def unexpired_def dom_def split: option.splits if_splits elim: rev_finite_subset)
  moreover have "wsize ws' - n = word_of_nat (card (dom (wm ws')))"
    using assms(1) m(2) n by (metis add_diff_cancel_left' wf_waiters_def)
  ultimately show ?thesis
    using r m(1) assms(1)
    by (auto simp: wf_waiters_def reapExpired_def reapFinish_def unexpired_def split: option.splits)
qed

section \<open>The contract of a reply registry\<close>

text \<open>
  \<open>register\<close> stores a receiver under a sequence number, \<open>take_out\<close> hands it out
  when a reply arrives. \<open>answers\<close> is the result of a sequence of replies.
\<close>

fun answers :: "('k \<Rightarrow> 's \<Rightarrow> 'r option \<times> 's) \<Rightarrow> 'k list \<Rightarrow> 's \<Rightarrow> 'r option list" where
  "answers take_out [] s = []"
| "answers take_out (k # ks) s = (let (r, s') = take_out k s in r # answers take_out ks s')"

locale reply_registry =
  fixes register :: "'k \<Rightarrow> 'r \<Rightarrow> 's \<Rightarrow> 's" and take_out :: "'k \<Rightarrow> 's \<Rightarrow> 'r option \<times> 's" and ok :: "'s \<Rightarrow> bool"
  assumes take_register: "ok s \<Longrightarrow> fst (take_out k (register k r s)) = Some r"
    and take_register_other: "ok s \<Longrightarrow> j \<noteq> k \<Longrightarrow> fst (take_out j (register k r s)) = fst (take_out j s)"
    and take_gone: "ok s \<Longrightarrow> fst (take_out k (snd (take_out k s))) = None"
    and take_other: "ok s \<Longrightarrow> j \<noteq> k \<Longrightarrow> fst (take_out j (snd (take_out k s))) = fst (take_out j s)"
    and ok_take: "ok s \<Longrightarrow> ok (snd (take_out k s))"
    and ok_register: "ok s \<Longrightarrow> fst (take_out k s) = None \<Longrightarrow> ok (register k r s)"
begin

lemma answers_none:
  assumes "ok s" "fst (take_out k s) = None" "i < length ks" "ks ! i = k"
  shows "answers take_out ks s ! i = None"
  using assms
proof (induction ks arbitrary: s i)
  case Nil
  then show ?case by simp
next
  case (Cons j ks)
  show ?case
  proof (cases i)
    case 0
    with Cons.prems show ?thesis by (simp add: split_beta Let_def)
  next
    case (Suc n)
    have "fst (take_out k (snd (take_out j s))) = None"
      using Cons.prems take_gone take_other by (cases "j = k") auto
    with Suc Cons.prems Cons.IH [of "snd (take_out j s)" n] ok_take show ?thesis
      by (simp add: split_beta Let_def)
  qed
qed

text \<open>However the replies are ordered, the first one for a key gets the receiver and no later one does.\<close>

lemma answered_first:
  assumes "ok s" "fst (take_out k s) = Some r" "i < length ks" "ks ! i = k" "\<forall>j<i. ks ! j \<noteq> k"
  shows "answers take_out ks s ! i = Some r"
  using assms
proof (induction ks arbitrary: s i)
  case Nil
  then show ?case by simp
next
  case (Cons a ks)
  show ?case
  proof (cases i)
    case 0
    with Cons.prems show ?thesis by (simp add: split_beta Let_def)
  next
    case (Suc n)
    with Cons.prems have "a \<noteq> k" "\<forall>j<n. ks ! j \<noteq> k" by (auto simp: nth_Cons')
    with Cons.prems Suc Cons.IH [of "snd (take_out a s)" n] take_other ok_take show ?thesis
      by (simp add: split_beta Let_def)
  qed
qed

lemma answered_later:
  assumes "ok s" "i < j" "j < length ks" "ks ! i = k" "ks ! j = k"
  shows "answers take_out ks s ! j = None"
  using assms
proof (induction ks arbitrary: s i j)
  case Nil
  then show ?case by simp
next
  case (Cons a ks)
  obtain m where j: "j = Suc m" using Cons.prems by (cases j) auto
  show ?case
  proof (cases i)
    case 0
    with Cons.prems j answers_none [of "snd (take_out k s)" k m ks] take_gone ok_take show ?thesis
      by (simp add: split_beta Let_def)
  next
    case (Suc n)
    with Cons.prems j Cons.IH [of "snd (take_out a s)" n m] ok_take show ?thesis
      by (simp add: split_beta Let_def)
  qed
qed

end

definition takeWaiter :: "int32 \<Rightarrow> waiterMap \<Rightarrow> nat option \<times> waiterMap" where
  "takeWaiter s ws = (case RemoveWaiter s ws of Inl _ \<Rightarrow> (None, ws) | Inr r \<Rightarrow> r)"

lemma takeWaiter_fst:
  "wf_waiters ws \<Longrightarrow> fst (takeWaiter s ws) =
     (case wm ws s of Some (WaiterEntry w) \<Rightarrow> Some (replyReceiver w) | _ \<Rightarrow> None)"
  by (cases rule: RemoveWaiter_elim [of ws s]) (auto simp: takeWaiter_def)

lemma takeWaiter_snd: "wf_waiters ws \<Longrightarrow> wm (snd (takeWaiter s ws)) = (wm ws)(s := None)"
  by (cases rule: RemoveWaiter_elim [of ws s]) (auto simp: takeWaiter_def fun_upd_idem)

lemma wf_takeWaiter: "wf_waiters ws \<Longrightarrow> wf_waiters (snd (takeWaiter s ws))"
  by (cases "RemoveWaiter s ws") (auto simp: takeWaiter_def dest: wf_RemoveWaiter)

lemma takeWaiter_storeWaiter:
  assumes "wf_waiters ws"
  shows "fst (takeWaiter j (storeWaiter k w ws)) = (if j = k then Some (replyReceiver w) else fst (takeWaiter j ws))"
  using assms
  by (auto simp: takeWaiter_def RemoveWaiter_def storeWaiter_def split: option.splits waiter_entry.splits)

lemma takeWaiter_AddWaiter:
  assumes "AddWaiter now s ws = Inr ws'" "wf_waiters ws" "ReplyReceiver s = Some r" "Msg s = Some m"
  shows "fst (takeWaiter (sequence m) ws') = Some r"
proof -
  obtain ttl where "ws' = storeWaiter (sequence m) \<lparr>replyReceiver = r, ttlMs = ttl\<rparr> ws"
    using assms(1,3,4) by (auto simp: AddWaiter_def Let_def)
  with assms(2) show ?thesis by (simp add: takeWaiter_storeWaiter)
qed

interpretation waiter_table: reply_registry "\<lambda>k r. storeWaiter k \<lparr>replyReceiver = r, ttlMs = ttl\<rparr>" takeWaiter wf_waiters
  for ttl :: int64
proof
  fix s :: waiterMap and k :: int32 and r :: nat
  assume wf: "wf_waiters s" "fst (takeWaiter k s) = None"
  then have "wm s k = None"
    by (auto simp: takeWaiter_fst wf_waiters_def split: option.splits waiter_entry.splits)
  with wf show "wf_waiters (storeWaiter k \<lparr>replyReceiver = r, ttlMs = ttl\<rparr> s)"
    by (intro wf_store) (auto simp: domIff)
qed (simp_all add: takeWaiter_storeWaiter takeWaiter_fst takeWaiter_snd wf_takeWaiter)

section \<open>Reachable tables\<close>

text \<open>
  The operations the channel performs. A message gets a sequence number that no outstanding
  waiter has: the counter would have to wrap around while a request is pending.
\<close>

inductive waiter_step :: "waiterMap \<Rightarrow> waiterMap \<Rightarrow> bool" where
  step_add: "AddWaiter now s ws = Inr ws' \<Longrightarrow> (\<And>m. Msg s = Some m \<Longrightarrow> sequence m \<notin> dom (wm ws)) \<Longrightarrow> waiter_step ws ws'"
| step_remove: "RemoveWaiter n ws = Inr (r, ws') \<Longrightarrow> waiter_step ws ws'"
| step_reap: "enumerates ks (wm ws) \<Longrightarrow> waiter_step ws (reapExpired now ks ws)"
| step_clear: "waiter_step ws (clearWaiters ws)"

interpretation waiter_inv: inductive_invariant "\<lambda>ws. ws = empty_waiters" waiter_step wf_waiters
proof
  fix s t assume wf: "wf_waiters s" and "waiter_step s t"
  from this(2) show "wf_waiters t"
  proof cases
    case (step_add now x)
    with wf wf_AddWaiter [of s now x t] show ?thesis by blast
  qed (auto intro: wf wf_RemoveWaiter wf_reapExpired)
qed simp

section \<open>Properties of the waiters\<close>


definition sample_request :: "int32 \<Rightarrow> Sendable" where
  "sample_request n = \<lparr>skind = KReply, sid = 3, Msg = Some (SetSequence n (NewMessage 5 [])), Context = Background\<rparr>"

lemma sample_request_added:
  "AddWaiter 100 (sample_request 7) empty_waiters = Inr (storeWaiter 7 \<lparr>replyReceiver = 3, ttlMs = 30100\<rparr> empty_waiters)"
  by (simp add: AddWaiter_def sample_request_def ReplyReceiver_def Background_def SetSequence_def NewMessage_def)


text \<open>
  A reply is delivered at most once: among any sequence of incoming replies, the first one
  for the request's sequence number gets the receiver that was registered with it, every later
  one for that number finds none, and replies for other numbers do not disturb it.
\<close>

theorem reply_delivered_once:
  assumes "wf_waiters ws" "AddWaiter now s ws = Inr ws'" "ReplyReceiver s = Some r" "Msg s = Some m"
    and "wm ws (sequence m) = None"
    and "i < length ks" "ks ! i = sequence m" "\<forall>j<i. ks ! j \<noteq> sequence m"
  shows "answers takeWaiter ks ws' ! i = Some r \<and>
    (\<forall>j. i < j \<and> j < length ks \<and> ks ! j = sequence m \<longrightarrow> answers takeWaiter ks ws' ! j = None)"
proof -
  obtain ttl where ws': "ws' = storeWaiter (sequence m) \<lparr>replyReceiver = r, ttlMs = ttl\<rparr> ws"
    using assms(2-4) by (auto simp: AddWaiter_def Let_def)
  have wf: "wf_waiters ws'" unfolding ws' using assms(1,5) by (intro wf_store) (auto simp: domIff)
  have "fst (takeWaiter (sequence m) ws') = Some r"
    unfolding ws' using assms(1) by (simp add: takeWaiter_storeWaiter)
  from waiter_table.answered_first [OF wf this assms(6-8)] waiter_table.answered_later [OF wf] assms(7)
  show ?thesis by blast
qed

theorem reply_delivered_once_witness:
  "answers takeWaiter [9, 7, 7] (storeWaiter 7 \<lparr>replyReceiver = 3, ttlMs = 30100\<rparr> empty_waiters) ! 1 = Some 3 \<and>
   answers takeWaiter [9, 7, 7] (storeWaiter 7 \<lparr>replyReceiver = 3, ttlMs = 30100\<rparr> empty_waiters) ! 2 = None"
  using reply_delivered_once [OF wf_empty sample_request_added, of 3 "SetSequence 7 (NewMessage 5 [])" 1 "[9, 7, 7]"]
  by (auto simp: sample_request_def ReplyReceiver_def SetSequence_def NewMessage_def empty_waiters_def less_Suc_eq)

text \<open>
  Reaping removes exactly the waiters whose time to live is before \<open>now\<close>, in whatever
  order the traversal visits them; all others stay registered and the counter stays exact.
\<close>

theorem reapExpired_exact:
  assumes "wf_waiters ws" "enumerates ks (wm ws)"
  shows "(wm (reapExpired now ks ws) k = Some (WaiterEntry w) \<longleftrightarrow>
      wm ws k = Some (WaiterEntry w) \<and> sint now \<le> sint (ttlMs w)) \<and>
    wsize (reapExpired now ks ws) = word_of_nat (card (dom (wm (reapExpired now ks ws))))"
  using wf_reapExpired [OF assms, of now] reapExpired_map [OF assms, of now]
  by (auto simp: wf_waiters_def unexpired_def expired_def split: option.splits)

theorem reapExpired_exact_witness:
  "wm (reapExpired 30101 [7] (storeWaiter 7 \<lparr>replyReceiver = 3, ttlMs = 30100\<rparr> empty_waiters)) 7
     \<noteq> Some (WaiterEntry \<lparr>replyReceiver = 3, ttlMs = 30100\<rparr>)"
proof -
  have "wf_waiters (storeWaiter 7 \<lparr>replyReceiver = 3, ttlMs = 30100\<rparr> empty_waiters)"
    by (rule wf_store) (simp_all add: empty_waiters_def wf_waiters_def)
  moreover have "enumerates [7] (wm (storeWaiter 7 \<lparr>replyReceiver = 3, ttlMs = 30100\<rparr> empty_waiters))"
    by (simp add: enumerates_def storeWaiter_def empty_waiters_def)
  ultimately show ?thesis
    using reapExpired_exact [of "storeWaiter 7 \<lparr>replyReceiver = 3, ttlMs = 30100\<rparr> empty_waiters" "[7]" 30101 7
        "\<lparr>replyReceiver = 3, ttlMs = 30100\<rparr>"] by simp
qed

text \<open>
  The counter can drift below the number of entries: \<^verbatim>\<open>reapExpired\<close> counts an entry it
  loaded as deleted even when a reply on another underlay removed it, and counted it, between
  the load and the delete. With one expired waiter, that interleaving leaves an empty map and
  the counter at -1.
\<close>

theorem reap_races_with_reply:
  assumes "wm ws n = Some (WaiterEntry w)" "wf_waiters ws" "sint (ttlMs w) < sint now"
  shows "\<exists>r ws'. RemoveWaiter n ws = Inr (r, ws') \<and>
    wsize (reapFinish (reapVisit now n (WaiterEntry w) (ws', 0))) =
      word_of_nat (card (dom (wm (reapFinish (reapVisit now n (WaiterEntry w) (ws', 0)))))) - 1"
proof -
  obtain r ws' where rm: "RemoveWaiter n ws = Inr (r, ws')" "wm ws' = (wm ws)(n := None)"
    using assms(1) by (simp add: RemoveWaiter_def)
  from wf_RemoveWaiter [OF assms(2) rm(1)] have "wsize ws' = word_of_nat (card (dom (wm ws')))"
    by (simp add: wf_waiters_def)
  moreover have "(wm ws')(n := None) = wm ws'" by (simp add: rm(2))
  ultimately show ?thesis
    using rm(1) assms(3) by (auto simp: reapFinish_def reapVisit_def expired_def simp del: dom_fun_upd)
qed

theorem reap_races_with_reply_witness:
  "\<exists>r ws'. RemoveWaiter 7 (storeWaiter 7 \<lparr>replyReceiver = 3, ttlMs = 30100\<rparr> empty_waiters) = Inr (r, ws') \<and>
    wsize (reapFinish (reapVisit 30101 7 (WaiterEntry \<lparr>replyReceiver = 3, ttlMs = 30100\<rparr>) (ws', 0))) =
      word_of_nat (card (dom (wm (reapFinish (reapVisit 30101 7 (WaiterEntry \<lparr>replyReceiver = 3, ttlMs = 30100\<rparr>) (ws', 0)))))) - 1"
proof (rule reap_races_with_reply)
  show "wf_waiters (storeWaiter 7 \<lparr>replyReceiver = 3, ttlMs = 30100\<rparr> empty_waiters)"
    by (rule wf_store) (simp_all add: empty_waiters_def wf_waiters_def)
qed (simp_all add: storeWaiter_def)

end
