(* ===== verification/Underlays.thy ===== *)
theory Underlays
  imports Headers
begin

text \<open>
  The collection of underlays of a channel, \<^verbatim>\<open>underlays.go\<close>, with the underlay types of
  \<^verbatim>\<open>impl.go\<close> (lines 912--932). An underlay is an object: \<open>uid\<close> is its identity, which
  Go compares when it compares two interface values holding pointers. A listener is named by a
  number; an operation returns the calls it makes to the listeners, in order.
\<close>

record Underlay =
  uid :: nat
  uId :: string
  uConnectionId :: string
  uHeaders :: headers
  uCreatedAt :: int64

definition DefaultUnderlayType :: string where
  "DefaultUnderlayType = ''default''"

definition GetUnderlayType :: "Underlay \<Rightarrow> string" where
  "GetUnderlayType underlay =
     (let t = bytes_string (hget (uHeaders underlay) TypeHeader)
      in if t \<noteq> [] then t else DefaultUnderlayType)"

record Underlays =
  entries :: "Underlay list"
  listeners :: "nat list"

datatype underlay_event = UnderlayAdded nat Underlay | UnderlayRemoved nat Underlay

definition NewUnderlays :: Underlays where
  "NewUnderlays = \<lparr>entries = [], listeners = []\<rparr>"

definition Add_underlay :: "Underlay \<Rightarrow> Underlays \<Rightarrow> underlay_event list \<times> Underlays" where
  "Add_underlay underlay u =
     (map (\<lambda>l. UnderlayAdded l underlay) (listeners u), u\<lparr>entries := entries u @ [underlay]\<rparr>)"

text \<open>The loop of \<^verbatim>\<open>Remove\<close>: the first entry that is the underlay is cut out.\<close>

fun Remove_loop :: "nat \<Rightarrow> Underlay list \<Rightarrow> bool \<times> Underlay list" where
  "Remove_loop i [] = (False, [])"
| "Remove_loop i (e # es) =
     (if uid e = i then (True, es) else (let (removed, es') = Remove_loop i es in (removed, e # es')))"

definition Remove_underlay :: "Underlay \<Rightarrow> Underlays \<Rightarrow> (bool \<times> underlay_event list) \<times> Underlays" where
  "Remove_underlay underlay u =
     (let (removed, es) = Remove_loop (uid underlay) (entries u)
      in ((removed, if removed then map (\<lambda>l. UnderlayRemoved l underlay) (listeners u) else []),
          u\<lparr>entries := es\<rparr>))"

definition GetAll :: "Underlays \<Rightarrow> Underlay list" where
  "GetAll u = entries u"

definition First :: "Underlays \<Rightarrow> Underlay option" where
  "First u = (case entries u of [] \<Rightarrow> None | e # _ \<Rightarrow> Some e)"

text \<open>\<^verbatim>\<open>result[t]++\<close> on a map, and the lookup that reads a missing key as zero.\<close>

definition incr :: "string \<Rightarrow> (string \<rightharpoonup> int) \<Rightarrow> (string \<rightharpoonup> int)" where
  "incr t m = m(t \<mapsto> (case m t of None \<Rightarrow> 1 | Some n \<Rightarrow> n + 1))"

definition count_of :: "(string \<rightharpoonup> int) \<Rightarrow> string \<Rightarrow> int" where
  "count_of m t = (case m t of None \<Rightarrow> 0 | Some n \<Rightarrow> n)"

definition CountsByType :: "Underlays \<Rightarrow> (string \<rightharpoonup> int)" where
  "CountsByType u = fold (\<lambda>entry. incr (GetUnderlayType entry)) (entries u) Map.empty"

definition AddListener :: "nat \<Rightarrow> Underlays \<Rightarrow> Underlays" where
  "AddListener l u = u\<lparr>listeners := listeners u @ [l]\<rparr>"

section \<open>Removal\<close>

lemma Remove_loop_eq:
  "Remove_loop i es =
     (i \<in> uid ` set es, takeWhile (\<lambda>e. uid e \<noteq> i) es @ tl (dropWhile (\<lambda>e. uid e \<noteq> i) es))"
  by (induction es) auto

lemma Remove_loop_distinct:
  "distinct (map uid es) \<Longrightarrow> Remove_loop i es = (i \<in> uid ` set es, filter (\<lambda>e. uid e \<noteq> i) es)"
proof (induction es)
  case (Cons e es)
  then have "uid e = i \<Longrightarrow> filter (\<lambda>e. uid e \<noteq> i) es = es" by (auto simp: filter_id_conv image_iff)
  with Cons show ?case by auto
qed simp

lemma set_Remove_loop: "set (snd (Remove_loop i es)) \<subseteq> set es"
  by (induction es) (auto split: prod.splits)

lemma distinct_Remove_loop: "distinct (map uid es) \<Longrightarrow> distinct (map uid (snd (Remove_loop i es)))"
  by (simp add: Remove_loop_distinct distinct_map_filter)

lemma Remove_underlay_simps [simp]:
  "entries (snd (Remove_underlay u us)) = snd (Remove_loop (uid u) (entries us))"
  "listeners (snd (Remove_underlay u us)) = listeners us"
  "fst (fst (Remove_underlay u us)) = fst (Remove_loop (uid u) (entries us))"
  by (simp_all add: Remove_underlay_def split: prod.splits)

lemma Add_underlay_simps [simp]:
  "entries (snd (Add_underlay u us)) = entries us @ [u]" "listeners (snd (Add_underlay u us)) = listeners us"
  by (simp_all add: Add_underlay_def)

lemma AddListener_simps [simp]:
  "entries (AddListener l us) = entries us" "listeners (AddListener l us) = listeners us @ [l]"
  "entries (fold AddListener ls us) = entries us" "listeners (fold AddListener ls us) = listeners us @ ls"
proof -
  show one: "entries (AddListener l us) = entries us" "listeners (AddListener l us) = listeners us @ [l]" for l us
    by (simp_all add: AddListener_def)
  show "entries (fold AddListener ls us) = entries us" "listeners (fold AddListener ls us) = listeners us @ ls"
    by (induction ls arbitrary: us) (simp_all add: one)
qed

section \<open>Counts\<close>

definition type_count :: "string \<Rightarrow> Underlay list \<Rightarrow> nat" where
  "type_count t es = length (filter (\<lambda>e. GetUnderlayType e = t) es)"

lemma type_count_simps [simp]:
  "type_count t [] = 0" "type_count t (e # es) = (if GetUnderlayType e = t then 1 else 0) + type_count t es"
  "type_count t (es @ fs) = type_count t es + type_count t fs"
  by (simp_all add: type_count_def)

lemma count_of_incr: "count_of (incr t m) s = count_of m s + (if s = t then 1 else 0)"
  by (simp add: count_of_def incr_def split: option.splits)

lemma count_of_fold:
  "count_of (fold (\<lambda>e. incr (GetUnderlayType e)) es m) t = count_of m t + int (type_count t es)"
  by (induction es arbitrary: m) (auto simp: count_of_incr)

lemma count_of_CountsByType: "count_of (CountsByType u) t = int (type_count t (entries u))"
  by (simp add: CountsByType_def count_of_fold) (simp add: count_of_def)

lemma dom_incr_fold: "dom (fold (\<lambda>e. incr (GetUnderlayType e)) es m) = dom m \<union> GetUnderlayType ` set es"
  by (induction es arbitrary: m) (auto simp: incr_def)

text \<open>The total over the counts, as \<^verbatim>\<open>countsShowValidState\<close> sums it, is the number of underlays.\<close>

lemma sum_count_incr:
  assumes "finite (dom m)"
  shows "(\<Sum>k\<in>dom (incr t m). count_of (incr t m) k) = (\<Sum>k\<in>dom m. count_of m k) + 1"
proof -
  have d: "dom (incr t m) = insert t (dom m)" by (auto simp: incr_def)
  have "(\<Sum>k\<in>insert t (dom m). count_of (incr t m) k) =
      count_of (incr t m) t + (\<Sum>k\<in>dom m - {t}. count_of (incr t m) k)"
    using assms by (simp add: sum.insert_remove)
  also have "(\<Sum>k\<in>dom m - {t}. count_of (incr t m) k) = (\<Sum>k\<in>dom m - {t}. count_of m k)"
    by (intro sum.cong) (auto simp: count_of_incr)
  also have "count_of (incr t m) t + (\<Sum>k\<in>dom m - {t}. count_of m k) = (\<Sum>k\<in>dom m. count_of m k) + 1"
  proof (cases "t \<in> dom m")
    case True
    with assms sum.remove [of "dom m" t "count_of m"] show ?thesis by (simp add: count_of_incr)
  next
    case False
    then have "count_of m t = 0" by (auto simp: count_of_def domIff)
    with False show ?thesis by (simp add: count_of_incr)
  qed
  finally show ?thesis by (simp add: d)
qed

lemma sum_CountsByType: "(\<Sum>k\<in>dom (CountsByType u). count_of (CountsByType u) k) = int (length (entries u))"
proof -
  have "finite (dom m) \<Longrightarrow>
      (\<Sum>k\<in>dom (fold (\<lambda>e. incr (GetUnderlayType e)) es m). count_of (fold (\<lambda>e. incr (GetUnderlayType e)) es m) k) =
      (\<Sum>k\<in>dom m. count_of m k) + int (length es)" for es m
  proof (induction es arbitrary: m)
    case Nil
    then show ?case by simp
  next
    case (Cons e es)
    have "finite (dom (incr (GetUnderlayType e) m))" using Cons.prems by (simp add: incr_def)
    with Cons sum_count_incr [of m "GetUnderlayType e"] show ?case by simp
  qed
  from this [of Map.empty "entries u"] show ?thesis by (simp add: CountsByType_def)
qed

lemma finite_CountsByType: "finite (dom (CountsByType u))"
  by (simp add: CountsByType_def dom_incr_fold)

section \<open>Properties of the collection\<close>

text \<open>
  A history of additions and removals, in the order in which they take the collection's lock,
  with the listener calls they make.
\<close>

datatype underlays_op = OpAdd Underlay | OpRemove Underlay

fun underlays_run :: "underlays_op list \<Rightarrow> Underlays \<Rightarrow> underlay_event list \<times> Underlays" where
  "underlays_run [] us = ([], us)"
| "underlays_run (OpAdd u # ops) us =
     (let (ev, us') = Add_underlay u us; (evs, us'') = underlays_run ops us' in (ev @ evs, us''))"
| "underlays_run (OpRemove u # ops) us =
     (let ((_, ev), us') = Remove_underlay u us; (evs, us'') = underlays_run ops us' in (ev @ evs, us''))"

fun added :: "underlays_op list \<Rightarrow> nat list" where
  "added [] = []"
| "added (OpAdd u # ops) = uid u # added ops"
| "added (OpRemove u # ops) = added ops"

fun is_removal :: "nat \<Rightarrow> nat \<Rightarrow> underlay_event \<Rightarrow> bool" where
  "is_removal l i (UnderlayRemoved l' u) \<longleftrightarrow> l' = l \<and> uid u = i"
| "is_removal l i (UnderlayAdded l' u) \<longleftrightarrow> False"

lemma removal_of_absent:
  assumes "i \<notin> uid ` set (entries us)" "i \<notin> set (added ops)"
  shows "filter (is_removal l i) (fst (underlays_run ops us)) = []"
  using assms
proof (induction ops arbitrary: us)
  case Nil
  then show ?case by simp
next
  case (Cons p ops)
  show ?case
  proof (cases p)
    case (OpAdd u)
    with Cons.prems Cons.IH [of "snd (Add_underlay u us)"] show ?thesis
      by (auto simp: Add_underlay_def split_beta Let_def filter_empty_conv)
  next
    case (OpRemove u)
    have "i \<notin> uid ` set (entries (snd (Remove_underlay u us)))"
      using Cons.prems set_Remove_loop [of "uid u" "entries us"] by auto
    with OpRemove Cons.prems Cons.IH [of "snd (Remove_underlay u us)"] show ?thesis
      by (auto simp: Remove_underlay_def Remove_loop_eq split_beta Let_def filter_empty_conv image_iff)
  qed
qed

lemma filter_removal_map:
  "filter (is_removal l (uid u)) (map (\<lambda>l. UnderlayRemoved l u) ls) =
     map (\<lambda>l. UnderlayRemoved l u) (filter (\<lambda>k. k = l) ls)"
  by (induction ls) auto

lemma length_filter_eq_distinct: "distinct ls \<Longrightarrow> length (filter (\<lambda>k. k = l) ls) = (if l \<in> set ls then 1 else 0)"
  by (induction ls) auto

text \<open>
  Both goroutines of an underlay report its end, but every listener hears of it exactly
  once: in any history in which each underlay is added once, a listener gets at most one
  removal call per underlay, and gets it when the underlay was there and some goroutine
  removed it.
\<close>

theorem underlay_removed_once:
  assumes "distinct (map uid (entries us) @ added ops)" "distinct (listeners us)" "l \<in> set (listeners us)"
  shows "length (filter (is_removal l i) (fst (underlays_run ops us))) \<le> 1 \<and>
    (i \<in> uid ` set (entries us) \<and> (\<exists>u. OpRemove u \<in> set ops \<and> uid u = i) \<longrightarrow>
      length (filter (is_removal l i) (fst (underlays_run ops us))) = 1)"
  using assms
proof (induction ops arbitrary: us)
  case Nil
  then show ?case by simp
next
  case (Cons p ops)
  show ?case
  proof (cases p)
    case (OpAdd u)
    have "filter (is_removal l i) (fst (Add_underlay u us)) = []" by (simp add: Add_underlay_def filter_empty_conv)
    with OpAdd Cons.prems Cons.IH [of "snd (Add_underlay u us)"] show ?thesis
      by (auto simp: split_beta Let_def)
  next
    case (OpRemove u)
    let ?us = "snd (Remove_underlay u us)"
    have d: "distinct (map uid (entries us))" using Cons.prems by simp
    have ent: "entries ?us = filter (\<lambda>e. uid e \<noteq> uid u) (entries us)"
      and ev: "snd (fst (Remove_underlay u us)) =
        (if uid u \<in> uid ` set (entries us) then map (\<lambda>l. UnderlayRemoved l u) (listeners us) else [])"
      by (simp_all add: Remove_underlay_def Remove_loop_distinct [OF d])
    have IH: "length (filter (is_removal l i) (fst (underlays_run ops ?us))) \<le> 1 \<and>
        (i \<in> uid ` set (entries ?us) \<and> (\<exists>u. OpRemove u \<in> set ops \<and> uid u = i) \<longrightarrow>
          length (filter (is_removal l i) (fst (underlays_run ops ?us))) = 1)"
      using OpRemove Cons.prems by (intro Cons.IH) (auto simp: ent distinct_map_filter simp del: Remove_underlay_simps(1))
    have run: "fst (underlays_run (p # ops) us) = snd (fst (Remove_underlay u us)) @ fst (underlays_run ops ?us)"
      by (simp add: OpRemove split_beta Let_def)
    show ?thesis
    proof (cases "uid u = i \<and> i \<in> uid ` set (entries us)")
      case True
      then have "filter (is_removal l i) (fst (underlays_run ops ?us)) = []"
        using OpRemove Cons.prems by (intro removal_of_absent) (auto simp: ent simp del: Remove_underlay_simps(1))
      moreover have "length (filter (is_removal l i) (snd (fst (Remove_underlay u us)))) = 1"
        using True Cons.prems filter_removal_map [of l u "listeners us"]
        by (simp add: ev length_filter_eq_distinct del: filter_map)
      ultimately show ?thesis unfolding run by simp
    next
      case False
      then have "filter (is_removal l i) (snd (fst (Remove_underlay u us))) = []"
        by (auto simp: ev filter_empty_conv image_iff)
      moreover have "i \<in> uid ` set (entries us) \<Longrightarrow> i \<in> uid ` set (entries ?us)"
        using False by (auto simp: ent simp del: Remove_underlay_simps(1))
      ultimately show ?thesis using IH OpRemove False unfolding run by auto
    qed
  qed
qed

definition sample_underlay :: "nat \<Rightarrow> string \<Rightarrow> Underlay" where
  "sample_underlay i t = \<lparr>uid = i, uId = ''peer'', uConnectionId = ''c1'',
     uHeaders = [TypeHeader \<mapsto> string_bytes t, GroupSecretHeader \<mapsto> [1, 2, 3]], uCreatedAt = 0\<rparr>"

lemma GetUnderlayType_sample [simp]: "t \<noteq> [] \<Longrightarrow> GetUnderlayType (sample_underlay i t) = t"
  by (simp add: GetUnderlayType_def sample_underlay_def hget_def header_keys)

theorem underlay_removed_once_witness:
  "length (filter (is_removal 4 1) (fst (underlays_run
      [OpRemove (sample_underlay 1 ''a''), OpAdd (sample_underlay 2 ''b''), OpRemove (sample_underlay 1 ''a'')]
      \<lparr>entries = [sample_underlay 1 ''a''], listeners = [4]\<rparr>))) = 1"
  using underlay_removed_once [of "\<lparr>entries = [sample_underlay 1 ''a''], listeners = [4]\<rparr>"
      "[OpRemove (sample_underlay 1 ''a''), OpAdd (sample_underlay 2 ''b''), OpRemove (sample_underlay 1 ''a'')]" 4 1]
  by (auto simp: sample_underlay_def)

text \<open>
  The counts by type are exact: every type is counted with the number of underlays of that
  type (zero when absent), and the counts add up to the number of underlays.
\<close>

theorem CountsByType_exact:
  "count_of (CountsByType u) t = int (length (filter (\<lambda>e. GetUnderlayType e = t) (entries u))) \<and>
   (\<Sum>k\<in>dom (CountsByType u). count_of (CountsByType u) k) = int (length (GetAll u)) \<and>
   dom (CountsByType u) = GetUnderlayType ` set (GetAll u)"
  using count_of_CountsByType [of u t] sum_CountsByType [of u]
  by (simp add: type_count_def GetAll_def CountsByType_def dom_incr_fold)

end
