(* ===== verification/Constants.thy ===== *)
theory Constants
  imports Chan_Prelude
begin

text \<open>
  \<^verbatim>\<open>constants.go\<close>: the defaults and limits of the connection options. A
  \<^verbatim>\<open>time.Duration\<close> is a 64-bit count of nanoseconds.
\<close>

definition Millisecond :: int64 where "Millisecond = 1000000"
definition Second :: int64 where "Second = 1000000000"

definition DefaultOutstandingConnects :: int64 where "DefaultOutstandingConnects = 16"
definition DefaultQueuedConnects :: int64 where "DefaultQueuedConnects = 1"
definition DefaultConnectTimeout :: int64 where "DefaultConnectTimeout = 5 * Second"
definition MinQueuedConnects :: int64 where "MinQueuedConnects = 1"
definition MinOutstandingConnects :: int64 where "MinOutstandingConnects = 1"
definition MinConnectTimeout :: int64 where "MinConnectTimeout = 30 * Millisecond"
definition MaxQueuedConnects' :: int64 where "MaxQueuedConnects' = 5000"
definition MaxOutstandingConnects' :: int64 where "MaxOutstandingConnects' = 1000"
definition MaxConnectTimeout :: int64 where "MaxConnectTimeout = 60000 * Millisecond"
definition DefaultOutQueueSize :: int64 where "DefaultOutQueueSize = 4"

end
