(* ===== verification/Channel_Impl.thy ===== *)
theory Channel_Impl
  imports Waiters Underlays Constants
begin

text \<open>
  The channel itself: \<^verbatim>\<open>channelImpl\<close> of \<^verbatim>\<open>impl.go\<close> and the bindings of
  \<^verbatim>\<open>bind.go\<close>. Handlers are application code: a peek, error, close or receive handler is
  named by a number and the calls made to it are recorded in \<open>trace\<close>, in order; a transform
  handler is the function it applies to a message. The transport's answers (the error of a first
  \<^verbatim>\<open>Close\<close>, of a write, of setting a timeout) are arguments. Goroutines that an operation
  starts are recorded in the trace as well.
\<close>

section \<open>State\<close>

record UnderlayConstraint =
  Desired :: int
  Min :: int

definition OneUnderlay :: UnderlayConstraint where
  "OneUnderlay = \<lparr>Desired = 1, Min = 1\<rparr>"

definition OptionalUnderlays :: "int \<Rightarrow> UnderlayConstraint" where
  "OptionalUnderlays desired = \<lparr>Desired = desired, Min = 0\<rparr>"

text \<open>
  A receive handler as it was registered: with message and channel, with the message only, or
  with the typed senders as well.
\<close>

datatype recv_handler = HReceive nat | HMsgReceive nat | HTypedReceive nat

datatype ch_event =
    EvPeekClose nat
  | EvHandleClose nat
  | EvPeekRx nat Message
  | EvAcceptReply nat Message
  | EvReceive recv_handler Message
  | EvDropped Message
  | EvNotifyErr nat err
  | EvNotifyBeforeWrite nat
  | EvNotifyAfterWrite nat
  | EvTx nat Message "err option"
  | EvPeekTx nat Message
  | EvHandleError nat err
  | EvHandleTxFailed string nat
  | EvListener underlay_event
  | EvPolicyUnderlayClosed string int64
  | EvGoMultiplex nat
  | EvGoApplyConstraints

record channelImpl =
  ownerId :: string
  channelId :: string
  logicalName :: string
  fallbackUnderlay :: Underlay
  waiters :: waiterMap
  flagClosed :: bool
  flagInjectUnderlayType :: bool
  closeNotifyC :: bool
  peekHandlers :: "nat list"
  transformHandlers :: "((Message \<Rightarrow> Message) \<times> (Message \<Rightarrow> Message)) list"
  receiveHandlers :: "int32 \<rightharpoonup> recv_handler"
  errorHandlers :: "nat list"
  closeHandlers :: "nat list"
  userData :: "string option"
  replyCounter :: uint32
  groupSecret :: bytes
  dialPolicy :: bool
  constraints :: "string \<rightharpoonup> UnderlayConstraint"
  minTotalUnderlays :: int
  validUnderlayTypes :: "string list"
  applyInProgress :: bool
  lastRead :: int64
  underlays :: Underlays
  closedU :: "nat set"
  notified :: "nat set"
  trace :: "ch_event list"

definition emit :: "ch_event list \<Rightarrow> channelImpl \<Rightarrow> channelImpl" where
  "emit evs ch = ch\<lparr>trace := trace ch @ evs\<rparr>"

text \<open>The channel is its own first underlay listener.\<close>

definition selfListener :: nat where
  "selfListener = 0"

text \<open>
  \<^verbatim>\<open>Underlay.Close\<close> as its interface documents it: the first call closes and may fail,
  every further call does nothing and returns nil.
\<close>

definition closeU :: "(nat \<Rightarrow> err option) \<Rightarrow> Underlay \<Rightarrow> channelImpl \<Rightarrow> err option \<times> channelImpl" where
  "closeU uclose u ch =
     (if uid u \<in> closedU ch then (None, ch) else (uclose (uid u), ch\<lparr>closedU := insert (uid u) (closedU ch)\<rparr>))"

section \<open>Bindings\<close>

definition AddReceiveHandler :: "int32 \<Rightarrow> nat \<Rightarrow> channelImpl \<Rightarrow> channelImpl" where
  "AddReceiveHandler contentType h ch = ch\<lparr>receiveHandlers := (receiveHandlers ch)(contentType \<mapsto> HReceive h)\<rparr>"

definition AddReceiveHandlerF :: "int32 \<Rightarrow> nat \<Rightarrow> channelImpl \<Rightarrow> channelImpl" where
  "AddReceiveHandlerF contentType h ch = ch\<lparr>receiveHandlers := (receiveHandlers ch)(contentType \<mapsto> HReceive h)\<rparr>"

definition AddMsgReceiveHandler :: "int32 \<Rightarrow> nat \<Rightarrow> channelImpl \<Rightarrow> channelImpl" where
  "AddMsgReceiveHandler contentType h ch = ch\<lparr>receiveHandlers := (receiveHandlers ch)(contentType \<mapsto> HMsgReceive h)\<rparr>"

definition AddMsgReceiveHandlerF :: "int32 \<Rightarrow> nat \<Rightarrow> channelImpl \<Rightarrow> channelImpl" where
  "AddMsgReceiveHandlerF contentType h ch = ch\<lparr>receiveHandlers := (receiveHandlers ch)(contentType \<mapsto> HMsgReceive h)\<rparr>"

definition AddTypedReceiveHandler :: "int32 \<Rightarrow> nat \<Rightarrow> channelImpl \<Rightarrow> channelImpl" where
  "AddTypedReceiveHandler contentType h ch = ch\<lparr>receiveHandlers := (receiveHandlers ch)(contentType \<mapsto> HTypedReceive h)\<rparr>"

definition AddTypedReceiveHandlerF :: "int32 \<Rightarrow> nat \<Rightarrow> channelImpl \<Rightarrow> channelImpl" where
  "AddTypedReceiveHandlerF contentType h ch = ch\<lparr>receiveHandlers := (receiveHandlers ch)(contentType \<mapsto> HTypedReceive h)\<rparr>"

definition AddPeekHandler :: "nat \<Rightarrow> channelImpl \<Rightarrow> channelImpl" where
  "AddPeekHandler h ch = ch\<lparr>peekHandlers := peekHandlers ch @ [h]\<rparr>"

definition AddTransformHandler :: "(Message \<Rightarrow> Message) \<times> (Message \<Rightarrow> Message) \<Rightarrow> channelImpl \<Rightarrow> channelImpl" where
  "AddTransformHandler h ch = ch\<lparr>transformHandlers := transformHandlers ch @ [h]\<rparr>"

definition AddErrorHandler :: "nat \<Rightarrow> channelImpl \<Rightarrow> channelImpl" where
  "AddErrorHandler h ch = ch\<lparr>errorHandlers := errorHandlers ch @ [h]\<rparr>"

definition AddCloseHandler :: "nat \<Rightarrow> channelImpl \<Rightarrow> channelImpl" where
  "AddCloseHandler h ch = ch\<lparr>closeHandlers := closeHandlers ch @ [h]\<rparr>"

definition SetUserData :: "string option \<Rightarrow> channelImpl \<Rightarrow> channelImpl" where
  "SetUserData d ch = ch\<lparr>userData := d\<rparr>"

text \<open>A bind handler runs against the channel and may fail; \<open>None\<close> is a nil handler.\<close>

type_synonym bind_handler = "channelImpl \<Rightarrow> err option \<times> channelImpl"

fun runBindHandlers :: "bind_handler option list \<Rightarrow> bind_handler" where
  "runBindHandlers [] ch = (None, ch)"
| "runBindHandlers (None # hs) ch = runBindHandlers hs ch"
| "runBindHandlers (Some h # hs) ch =
     (case h ch of (Some e, ch) \<Rightarrow> (Some e, ch) | (None, ch) \<Rightarrow> runBindHandlers hs ch)"

definition BindHandlers :: "bind_handler option list \<Rightarrow> bind_handler option" where
  "BindHandlers handlers = (case handlers of [h] \<Rightarrow> h | _ \<Rightarrow> Some (runBindHandlers handlers))"

definition MakeBinder :: "bind_handler option \<Rightarrow> bind_handler" where
  "MakeBinder handler ch = (case handler of None \<Rightarrow> (None, ch) | Some h \<Rightarrow> h ch)"

definition bind_channel :: "bind_handler option \<Rightarrow> bind_handler" where
  "bind_channel fn ch = (case fn of None \<Rightarrow> (None, ch) | Some f \<Rightarrow> f ch)"

section \<open>Accepting underlays and closing\<close>

definition isMultiUnderlayCapable :: "channelImpl \<Rightarrow> bool" where
  "isMultiUnderlayCapable ch \<longleftrightarrow> dialPolicy ch \<or> constraints ch \<noteq> Map.empty \<or> minTotalUnderlays ch > 0"

definition IsClosed :: "channelImpl \<Rightarrow> bool" where
  "IsClosed ch = flagClosed ch"

definition startMultiplex :: "Underlay \<Rightarrow> channelImpl \<Rightarrow> channelImpl" where
  "startMultiplex u ch = emit [EvGoMultiplex (uid u)] ch"

definition addUnderlay :: "Underlay \<Rightarrow> channelImpl \<Rightarrow> channelImpl" where
  "addUnderlay u ch =
     (let (evs, us) = Add_underlay u (underlays ch) in emit (map EvListener evs) (ch\<lparr>underlays := us\<rparr>))"

definition AcceptUnderlay :: "(nat \<Rightarrow> err option) \<Rightarrow> Underlay \<Rightarrow> channelImpl \<Rightarrow> err option \<times> channelImpl" where
  "AcceptUnderlay uclose underlay ch =
     (if \<not> isMultiUnderlayCapable ch then
        (Some (ErrText ''not accepted: channel does not accept additional underlays''), snd (closeU uclose underlay ch))
      else if hget (uHeaders underlay) GroupSecretHeader \<noteq> groupSecret ch then
        (Some (ErrText ''not accepted: incorrect group secret''), snd (closeU uclose underlay ch))
      else if IsClosed ch then
        (Some (ErrText ''not accepted: channel is closed''), snd (closeU uclose underlay ch))
      else
        (None, startMultiplex underlay (addUnderlay underlay (ch\<lparr>fallbackUnderlay := underlay\<rparr>))))"

fun closeAll :: "(nat \<Rightarrow> err option) \<Rightarrow> Underlay list \<Rightarrow> channelImpl \<Rightarrow> err list \<times> channelImpl" where
  "closeAll uclose [] ch = ([], ch)"
| "closeAll uclose (u # us) ch =
     (let (e, ch) = closeU uclose u ch;
          (es, ch) = closeAll uclose us ch
      in (case e of None \<Rightarrow> es | Some x \<Rightarrow> x # es, ch))"

text \<open>Closing an already closed Go channel panics; the compare-and-set guards against it.\<close>

definition Close :: "(nat \<Rightarrow> err option) \<Rightarrow> channelImpl \<Rightarrow> (err option \<times> channelImpl) res" where
  "Close uclose ch =
     (if flagClosed ch then Inr (None, ch)
      else if closeNotifyC ch then Inl GoPanic
      else
        (let ch = ch\<lparr>flagClosed := True, closeNotifyC := True\<rparr>;
             ch = emit (map EvPeekClose (peekHandlers ch)) ch;
             ch = emit (map EvHandleClose (closeHandlers ch)) ch;
             ch = ch\<lparr>waiters := clearWaiters (waiters ch)\<rparr>;
             (errs, ch) = closeAll uclose (GetAll (underlays ch)) ch
         in Inr (if errs = [] then None else Some (ErrJoin errs), ch)))"

definition getValidatedUnderlayType :: "channelImpl \<Rightarrow> Underlay \<Rightarrow> string" where
  "getValidatedUnderlayType ch underlay =
     (let t = GetUnderlayType underlay
      in if validUnderlayTypes ch = [] then t
         else if t \<in> set (validUnderlayTypes ch) then t
         else DefaultUnderlayType)"

text \<open>
  The channel's reaction to the loss of an underlay, as a listener of its own collection.
  \<open>now\<close> is \<^verbatim>\<open>time.Now()\<close>; the lifetime wraps like every duration.
\<close>

definition channelUnderlayRemoved :: "(nat \<Rightarrow> err option) \<Rightarrow> int64 \<Rightarrow> Underlay \<Rightarrow> channelImpl \<Rightarrow> channelImpl res" where
  "channelUnderlayRemoved uclose now u ch =
     (let ch = (if dialPolicy ch
                then emit [EvPolicyUnderlayClosed (getValidatedUnderlayType ch u) (now - uCreatedAt u)] ch else ch)
      in if \<not> isMultiUnderlayCapable ch then
           (if GetAll (underlays ch) = [] then rbind (Close uclose ch) (\<lambda>(_, ch). Inr ch) else Inr ch)
         else Inr (emit [EvGoApplyConstraints] ch))"

text \<open>The listeners in registration order: the channel itself, and the configured ones.\<close>

fun notifyListeners :: "(nat \<Rightarrow> err option) \<Rightarrow> int64 \<Rightarrow> underlay_event list \<Rightarrow> channelImpl \<Rightarrow> channelImpl res" where
  "notifyListeners uclose now [] ch = Inr ch"
| "notifyListeners uclose now (e # es) ch =
     rbind (case e of
              UnderlayRemoved l u \<Rightarrow>
                if l = selfListener then channelUnderlayRemoved uclose now u ch else Inr (emit [EvListener e] ch)
            | UnderlayAdded l u \<Rightarrow> Inr (emit [EvListener e] ch))
       (notifyListeners uclose now es)"

text \<open>
  \<^verbatim>\<open>closeUnderlay\<close>, lines 632--638: close, notify the partner goroutine, remove and tell
  the listeners; then, under the channel's lock (lines 640--647), repair the fallback.
\<close>

definition closeUnderlay_remove :: "(nat \<Rightarrow> err option) \<Rightarrow> int64 \<Rightarrow> Underlay \<Rightarrow> channelImpl \<Rightarrow> channelImpl res" where
  "closeUnderlay_remove uclose now underlay ch =
     (let ch = snd (closeU uclose underlay ch);
          ch = ch\<lparr>notified := insert (uid underlay) (notified ch)\<rparr>;
          ((_, evs), us) = Remove_underlay underlay (underlays ch)
      in notifyListeners uclose now evs (ch\<lparr>underlays := us\<rparr>))"

definition closeUnderlay_fallback :: "Underlay \<Rightarrow> channelImpl \<Rightarrow> channelImpl" where
  "closeUnderlay_fallback underlay ch =
     (if uid (fallbackUnderlay ch) = uid underlay then
        (let us = GetAll (underlays ch)
         in if us \<noteq> [] then ch\<lparr>fallbackUnderlay := last us\<rparr> else ch)
      else ch)"

definition closeUnderlay :: "(nat \<Rightarrow> err option) \<Rightarrow> int64 \<Rightarrow> Underlay \<Rightarrow> channelImpl \<Rightarrow> channelImpl res" where
  "closeUnderlay uclose now underlay ch =
     rbind (closeUnderlay_remove uclose now underlay ch) (\<lambda>ch. Inr (closeUnderlay_fallback underlay ch))"

section \<open>Receiving\<close>

definition dispatch :: "Message \<Rightarrow> channelImpl \<Rightarrow> channelImpl" where
  "dispatch m ch =
     (case receiveHandlers ch (ContentType m) of
        Some h \<Rightarrow> emit [EvReceive h m] ch
      | None \<Rightarrow>
          (case receiveHandlers ch AnyContentType of
             Some h \<Rightarrow> emit [EvReceive h m] ch
           | None \<Rightarrow> emit [EvDropped m] ch))"

text \<open>\<open>ks\<close> is the order in which a reap would traverse the waiters.\<close>

definition rx :: "int64 \<Rightarrow> int32 list \<Rightarrow> Message \<Rightarrow> channelImpl \<Rightarrow> channelImpl res" where
  "rx now ks m ch =
     (let ch = ch\<lparr>lastRead := now\<rparr>;
          m = fold fst (transformHandlers ch) m;
          ch = emit (map (\<lambda>h. EvPeekRx h m) (peekHandlers ch)) ch;
          reply = IsReply m;
          m = cacheReplyFor m
      in if reply then
           (let n = replyCounter ch + 1;
                ch = ch\<lparr>replyCounter := n\<rparr>;
                ch = (if n mod 100 = 0 \<and> sint (wsize (waiters ch)) > 1000
                      then ch\<lparr>waiters := reapExpired now ks (waiters ch)\<rparr> else ch)
            in rbind (RemoveWaiter (ReplyFor m) (waiters ch)) (\<lambda>(r, ws).
               let ch = ch\<lparr>waiters := ws\<rparr>
               in case r of
                    Some receiver \<Rightarrow> Inr (emit [EvAcceptReply receiver m] ch)
                  | None \<Rightarrow> Inr (dispatch m ch)))
         else Inr (dispatch m ch))"

section \<open>Transmitting\<close>

text \<open>
  The answers of the transport and of \<^verbatim>\<open>Senders.HandleTxFailed\<close>: the error of setting
  the write timeout, the error of the write, and whether the sendable was queued again.
\<close>

record tx_env =
  setWriteTimeout :: "err option"
  txWrite :: "err option"
  handleTxFailed :: bool

definition tx :: "tx_env \<Rightarrow> int64 \<Rightarrow> Underlay \<Rightarrow> string \<Rightarrow> Sendable \<Rightarrow> int64 \<Rightarrow> channelImpl \<Rightarrow> (err option \<times> channelImpl) res" where
  "tx env now underlay underlayType sendable writeTimeout ch =
     (case cerr (writeContext sendable) of
        Some e \<Rightarrow> Inr (None, emit [EvNotifyErr (sid sendable) (TimeoutError e)] ch)
      | None \<Rightarrow>
          (let ch = emit [EvNotifyBeforeWrite (sid sendable)] ch
           in case Msg sendable of
                None \<Rightarrow> Inr (None, ch)
              | Some m \<Rightarrow>
                  (let m = fold snd (transformHandlers ch) m;
                       sendable = sendable\<lparr>Msg := Some m\<rparr>
                   in rbind (AddWaiter now sendable (waiters ch)) (\<lambda>ws.
                      let ch = ch\<lparr>waiters := ws\<rparr>
                      in case (if sint writeTimeout > 0 then setWriteTimeout env else None) of
                           Some e \<Rightarrow> Inr (Some e, emit [EvNotifyErr (sid sendable) e] ch)
                         | None \<Rightarrow>
                             (let ch = emit [EvTx (uid underlay) m (txWrite env)] ch
                              in case txWrite env of
                                   Some e \<Rightarrow>
                                     rbind (RemoveWaiter (sequence m) (waiters ch)) (\<lambda>(_, ws).
                                     let ch = ch\<lparr>waiters := ws\<rparr>;
                                         ch = emit (map (\<lambda>h. EvHandleError h e) (errorHandlers ch)) ch;
                                         ch = emit [EvHandleTxFailed underlayType (sid sendable)] ch;
                                         ch = (if handleTxFailed env then ch
                                               else emit [EvNotifyErr (sid sendable) e, EvNotifyAfterWrite (sid sendable)] ch)
                                     in Inr (Some e, ch))
                                 | None \<Rightarrow>
                                     Inr (None, emit (map (\<lambda>h. EvPeekTx h m) (peekHandlers ch) @
                                                      [EvNotifyAfterWrite (sid sendable)]) ch))))))"

text \<open>
  The receive goroutine: \<open>inputs\<close> are the results of the underlay's successive
  \<^verbatim>\<open>Rx\<close> calls, each with the time and the reap order of its message. It runs until the
  first error, then closes the underlay; \<open>None\<close> is a goroutine still waiting for input.
\<close>

fun rxer_loop :: "Underlay \<Rightarrow> string \<Rightarrow> bool \<Rightarrow> (int64 \<times> int32 list \<times> Message res) list \<Rightarrow> channelImpl \<Rightarrow> (bool \<times> channelImpl) res" where
  "rxer_loop u t inject [] ch = Inr (False, ch)"
| "rxer_loop u t inject ((now, ks, Inl e) # ins) ch = Inr (True, ch)"
| "rxer_loop u t inject ((now, ks, Inr m) # ins) ch =
     (let m = (if inject then m\<lparr>Headers := PutStringHeader UnderlayTypeHeader t (Headers m)\<rparr> else m)
      in rbind (rx now ks m ch) (rxer_loop u t inject ins))"

definition rxer :: "(nat \<Rightarrow> err option) \<Rightarrow> int64 \<Rightarrow> Underlay \<Rightarrow> (int64 \<times> int32 list \<times> Message res) list \<Rightarrow> channelImpl \<Rightarrow> channelImpl res" where
  "rxer uclose now u ins ch =
     rbind (rxer_loop u (getValidatedUnderlayType ch u) (flagInjectUnderlayType ch) ins ch) (\<lambda>(stopped, ch).
     if stopped then closeUnderlay uclose now u ch else Inr ch)"

text \<open>The transmit goroutine: \<open>inputs\<close> are the results of the message source.\<close>

fun txer_loop :: "Underlay \<Rightarrow> string \<Rightarrow> int64 \<Rightarrow> (int64 \<times> tx_env \<times> Sendable res) list \<Rightarrow> channelImpl \<Rightarrow> (bool \<times> channelImpl) res" where
  "txer_loop u t writeTimeout [] ch = Inr (False, ch)"
| "txer_loop u t writeTimeout ((now, env, Inl e) # ins) ch = Inr (True, ch)"
| "txer_loop u t writeTimeout ((now, env, Inr s) # ins) ch =
     rbind (tx env now u t s writeTimeout ch) (\<lambda>(e, ch).
     case e of Some _ \<Rightarrow> Inr (True, ch) | None \<Rightarrow> txer_loop u t writeTimeout ins ch)"

definition txer :: "(nat \<Rightarrow> err option) \<Rightarrow> int64 \<Rightarrow> int64 option \<Rightarrow> Underlay \<Rightarrow> (int64 \<times> tx_env \<times> Sendable res) list \<Rightarrow> channelImpl \<Rightarrow> channelImpl res" where
  "txer uclose now optionsWriteTimeout u ins ch =
     (let writeTimeout = (case optionsWriteTimeout of None \<Rightarrow> 0 | Some t \<Rightarrow> t)
      in rbind (txer_loop u (getValidatedUnderlayType ch u) writeTimeout ins ch) (\<lambda>(stopped, ch).
         if stopped then closeUnderlay uclose now u ch else Inr ch))"

definition GetTimeSinceLastRead :: "int64 \<Rightarrow> channelImpl \<Rightarrow> int64" where
  "GetTimeSinceLastRead now ch = (now - lastRead ch) * 1000000"

section \<open>Constraints\<close>

text \<open>
  \<open>ks\<close> is an order in which \<^verbatim>\<open>range self.constraints\<close> visits the types. The total is
  the sum over the counts, the same in every order.
\<close>

definition closeIf :: "(nat \<Rightarrow> err option) \<Rightarrow> bool \<Rightarrow> channelImpl \<Rightarrow> channelImpl res" where
  "closeIf uclose b ch = (if b then rbind (Close uclose ch) (\<lambda>(_, ch). Inr ch) else Inr ch)"

definition countsShowValidState ::
    "(nat \<Rightarrow> err option) \<Rightarrow> string list \<Rightarrow> (string \<rightharpoonup> int) \<Rightarrow> bool \<Rightarrow> channelImpl \<Rightarrow> (bool \<times> channelImpl) res" where
  "countsShowValidState uclose ks counts closeIfInvalid ch =
     (if list_ex (\<lambda>t. Min (the (constraints ch t)) > count_of counts t) ks
      then rbind (closeIf uclose closeIfInvalid ch) (\<lambda>ch. Inr (False, ch))
      else if (\<Sum>k\<in>dom counts. count_of counts k) < minTotalUnderlays ch
      then rbind (closeIf uclose closeIfInvalid ch) (\<lambda>ch. Inr (False, ch))
      else Inr (True, ch))"

definition checkConstraintsValid :: "(nat \<Rightarrow> err option) \<Rightarrow> string list \<Rightarrow> bool \<Rightarrow> channelImpl \<Rightarrow> (bool \<times> channelImpl) res" where
  "checkConstraintsValid uclose ks closeIfInvalid ch =
     countsShowValidState uclose ks (CountsByType (underlays ch)) closeIfInvalid ch"

definition areConstraintDesiresSatisfied :: "string list \<Rightarrow> channelImpl \<Rightarrow> bool" where
  "areConstraintDesiresSatisfied ks ch =
     list_all (\<lambda>t. \<not> Desired (the (constraints ch t)) > count_of (CountsByType (underlays ch)) t) ks"

text \<open>
  A dial policy with its state: type, connection id, group secret, whether the group has no
  underlay left, and the connect timeout; \<open>optTimeout\<close> is \<open>None\<close> for nil options.
\<close>

type_synonym 'p dial = "string \<Rightarrow> string \<Rightarrow> bytes \<Rightarrow> bool \<Rightarrow> int64 \<Rightarrow> 'p \<Rightarrow> Underlay res \<times> 'p"

definition dialUnderlay ::
    "'p dial \<Rightarrow> (nat \<Rightarrow> err option) \<Rightarrow> int64 option \<Rightarrow> string \<Rightarrow> channelImpl \<times> 'p \<Rightarrow> channelImpl \<times> 'p" where
  "dialUnderlay dial uclose optTimeout t = (\<lambda>(ch, p).
     let connectTimeout = (case optTimeout of
            Some x \<Rightarrow> if sint x > 0 then x else DefaultConnectTimeout
          | None \<Rightarrow> DefaultConnectTimeout);
         isFirst = (GetAll (underlays ch) = [])
     in case dial t (channelId ch) (groupSecret ch) isFirst connectTimeout p of
          (Inl e, p) \<Rightarrow> (ch, p)
        | (Inr u, p) \<Rightarrow> (snd (AcceptUnderlay uclose u ch), p))"

text \<open>One traversal of the constraints: a dial for every type that is short of its desired count.\<close>

fun dialMissing ::
    "'p dial \<Rightarrow> (nat \<Rightarrow> err option) \<Rightarrow> int64 option \<Rightarrow> (string \<rightharpoonup> int) \<Rightarrow> string list \<Rightarrow> channelImpl \<times> 'p \<Rightarrow> bool \<times> channelImpl \<times> 'p" where
  "dialMissing dial uclose opt counts [] chp = (True, chp)"
| "dialMissing dial uclose opt counts (t # ks) chp =
     (if Desired (the (constraints (fst chp) t)) > count_of counts t
      then (let (_, chp) = dialMissing dial uclose opt counts ks (dialUnderlay dial uclose opt t chp) in (False, chp))
      else dialMissing dial uclose opt counts ks chp)"

text \<open>
  The loop, with fuel for the number of traversals (the dials may fail forever): \<open>None\<close> is
  a loop still running. \<open>ord n\<close> is the order of the traversal made with \<open>n\<close> turns left.
\<close>

fun applyLoop ::
    "'p dial \<Rightarrow> (nat \<Rightarrow> err option) \<Rightarrow> int64 option \<Rightarrow> (nat \<Rightarrow> string list) \<Rightarrow> nat \<Rightarrow> channelImpl \<times> 'p \<Rightarrow> (channelImpl \<times> 'p) res option" where
  "applyLoop dial uclose opt ord 0 (ch, p) = None"
| "applyLoop dial uclose opt ord (Suc n) (ch, p) =
     (if IsClosed ch then Some (Inr (ch, p))
      else let counts = CountsByType (underlays ch)
           in case countsShowValidState uclose (ord n) counts True ch of
                Inl e \<Rightarrow> Some (Inl e)
              | Inr (valid, ch) \<Rightarrow>
                  if \<not> valid then Some (Inr (ch, p))
                  else (let (allSatisfied, chp) = dialMissing dial uclose opt counts (ord n) (ch, p)
                        in if allSatisfied then Some (Inr chp) else applyLoop dial uclose opt ord n chp))"

definition applyConstraints ::
    "'p dial \<Rightarrow> (nat \<Rightarrow> err option) \<Rightarrow> int64 option \<Rightarrow> string list \<Rightarrow> (nat \<Rightarrow> string list) \<Rightarrow> nat \<Rightarrow> channelImpl \<times> 'p \<Rightarrow> (channelImpl \<times> 'p) res option" where
  "applyConstraints dial uclose opt ks ord fuel = (\<lambda>(ch, p).
     if constraints ch = Map.empty \<and> minTotalUnderlays ch = 0 then Some (Inr (ch, p))
     else if IsClosed ch then Some (Inr (ch, p))
     else case checkConstraintsValid uclose ks True ch of
       Inl e \<Rightarrow> Some (Inl e)
     | Inr (valid, ch) \<Rightarrow>
         if \<not> valid then Some (Inr (ch, p))
         else if applyInProgress ch then Some (Inr (ch, p))
         else
           (let ch = ch\<lparr>applyInProgress := True\<rparr>
            in case (if dialPolicy ch then applyLoop dial uclose opt ord fuel (ch, p) else Some (Inr (ch, p))) of
                 None \<Rightarrow> None
               | Some (Inl e) \<Rightarrow> Some (Inl e)
               | Some (Inr (ch, p)) \<Rightarrow>
                   (let ch = ch\<lparr>applyInProgress := False\<rparr>
                    in if dialPolicy ch \<and> \<not> IsClosed ch \<and> \<not> areConstraintDesiresSatisfied ks ch
                       then Some (Inr (emit [EvGoApplyConstraints] ch, p))
                       else Some (Inr (ch, p)))))"

section \<open>Creation\<close>

text \<open>
  \<^verbatim>\<open>Config\<close>: the interface values that may be nil are options or booleans;
  \<open>cfgSendersClosed\<close> says whether the close channel of the Senders is closed already.
\<close>

record config =
  cfgLogicalName :: string
  cfgSenders :: bool
  cfgSendersClosed :: bool
  cfgMessageSourceProvider :: bool
  cfgBinder :: "bind_handler option"
  cfgUnderlay :: "Underlay option"
  cfgInjectUnderlayType :: bool
  cfgValidUnderlayTypes :: "string list"
  cfgDialPolicy :: bool
  cfgConstraints :: "string \<rightharpoonup> UnderlayConstraint"
  cfgMinTotalUnderlays :: int
  cfgListeners :: "nat list"

definition initialImpl :: "config \<Rightarrow> Underlay \<Rightarrow> channelImpl" where
  "initialImpl cfg u = \<lparr>
     ownerId = uId u, channelId = uConnectionId u, logicalName = cfgLogicalName cfg, fallbackUnderlay = u,
     waiters = empty_waiters, flagClosed = False, flagInjectUnderlayType = cfgInjectUnderlayType cfg,
     closeNotifyC = cfgSendersClosed cfg, peekHandlers = [], transformHandlers = [], receiveHandlers = Map.empty,
     errorHandlers = [], closeHandlers = [], userData = None, replyCounter = 0,
     groupSecret = hget (uHeaders u) GroupSecretHeader, dialPolicy = cfgDialPolicy cfg,
     constraints = cfgConstraints cfg, minTotalUnderlays = cfgMinTotalUnderlays cfg,
     validUnderlayTypes = cfgValidUnderlayTypes cfg, applyInProgress = False, lastRead = 0,
     underlays = fold AddListener (selfListener # cfgListeners cfg) NewUnderlays,
     closedU = {}, notified = {}, trace = []\<rparr>"

text \<open>
  The error and the channel object; with an error the caller gets no channel, but the object
  shows what became of the underlay. \<open>None\<close> stands for an error before there is one.
\<close>

definition NewChannel :: "(nat \<Rightarrow> err option) \<Rightarrow> config \<Rightarrow> (err option \<times> channelImpl option) res" where
  "NewChannel uclose cfg =
     (if \<not> cfgSenders cfg then Inr (Some (ErrText ''no senders configured''), None)
      else if \<not> cfgMessageSourceProvider cfg then Inr (Some (ErrText ''no message source provider configured''), None)
      else case cfgUnderlay cfg of
        None \<Rightarrow> Inr (Some (ErrText ''initialization produced zero underlays''), None)
      | Some u \<Rightarrow>
          (let impl = initialImpl cfg u
           in if groupSecret impl = [] \<and> (cfgDialPolicy cfg \<or> cfgConstraints cfg \<noteq> Map.empty \<or> cfgMinTotalUnderlays cfg > 0)
              then Inr (Some (ErrText ''no group secret header found for multi-underlay channel''), None)
              else case bind_channel (cfgBinder cfg) impl of
                (Some e, impl) \<Rightarrow>
                  rbind (Close uclose impl) (\<lambda>(_, impl). Inr (Some e, Some (snd (closeU uclose u impl))))
              | (None, impl) \<Rightarrow>
                  Inr (None, Some (emit [EvGoApplyConstraints] (startMultiplex u (addUnderlay u impl))))))"

end
