(* ===== verification/Envelopes.thy ===== *)
theory Envelopes
  imports Channel_Impl
begin

text \<open>
  The envelopes of \<^verbatim>\<open>envelope.go\<close> as send listeners and reply receivers: what the calls of
  a transmit goroutine do to an envelope's channels, and what its waiting goroutine then
  returns. A send to a Go channel may block or, once the channel is closed, panic, so the calls
  return an \<open>outcome\<close>.
\<close>

section \<open>Envelopes as listeners\<close>

datatype 'a outcome = Proceeds 'a | Blocks | Panics

text \<open>
  \<open>errC\<close> and \<open>replyC\<close> are the buffers of the channels of capacity one that the
  waiting functions make; \<open>ectx\<close> is the envelope's context and \<open>ecancelF\<close> whether the
  envelope holds its cancel function.
\<close>

record envelope =
  errC :: "err list"
  errCClosed :: bool
  replyC :: "Message list"
  ectx :: Ctx
  ecancelF :: bool

definition new_envelope :: "bool \<Rightarrow> Ctx \<Rightarrow> envelope" where
  "new_envelope hasCancel c = \<lparr>errC = [], errCClosed = False, replyC = [], ectx = c, ecancelF = hasCancel\<rparr>"

definition CancelF :: "envelope \<Rightarrow> envelope" where
  "CancelF env = (if ecancelF env then env\<lparr>ectx := cancel_ctx (ectx env)\<rparr> else env)"

text \<open>Only the two waiting envelopes pass the error on; for the others the call does nothing.\<close>

definition NotifyErr :: "sendable_kind \<Rightarrow> err \<Rightarrow> envelope \<Rightarrow> envelope outcome" where
  "NotifyErr k e env =
     (if k = KSendWait \<or> k = KReply then
        (if errCClosed env then Panics
         else if length (errC env) < 1 then Proceeds (env\<lparr>errC := errC env @ [e]\<rparr>)
         else Blocks)
      else Proceeds env)"

definition NotifyAfterWrite :: "sendable_kind \<Rightarrow> envelope \<Rightarrow> envelope outcome" where
  "NotifyAfterWrite k env =
     (case k of
        KSendWait \<Rightarrow> if errCClosed env then Panics else Proceeds (env\<lparr>errCClosed := True\<rparr>)
      | KEnvelope \<Rightarrow> Proceeds (CancelF env)
      | KQueueWait \<Rightarrow> Proceeds (CancelF env)
      | _ \<Rightarrow> Proceeds env)"

definition AcceptReply :: "Message \<Rightarrow> envelope \<Rightarrow> envelope" where
  "AcceptReply m env = (if length (replyC env) < 1 then env\<lparr>replyC := replyC env @ [m]\<rparr> else env)"

datatype listener_call = CallErr err | CallBeforeWrite | CallAfterWrite

fun listener_run :: "sendable_kind \<Rightarrow> listener_call list \<Rightarrow> envelope \<Rightarrow> envelope outcome" where
  "listener_run k [] env = Proceeds env"
| "listener_run k (c # cs) env =
     (case (case c of CallErr e \<Rightarrow> NotifyErr k e env
                    | CallBeforeWrite \<Rightarrow> Proceeds env
                    | CallAfterWrite \<Rightarrow> NotifyAfterWrite k env) of
        Proceeds env' \<Rightarrow> listener_run k cs env'
      | Blocks \<Rightarrow> Blocks
      | Panics \<Rightarrow> Panics)"

section \<open>Waiting\<close>

text \<open>
  The select of \<^verbatim>\<open>WaitForWire\<close> after the envelope was queued: a receive from the closed,
  empty error channel yields a nil error. \<open>None\<close> is blocked; the result is the returned
  error.
\<close>

definition waitTimeout :: "string \<Rightarrow> Ctx \<Rightarrow> err" where
  "waitTimeout t c = (case cerr c of Some e \<Rightarrow> TimeoutError (ErrWrap t e) | None \<Rightarrow> ErrText t)"

definition recv_errC :: "envelope \<Rightarrow> err option list" where
  "recv_errC env = (case errC env of e # _ \<Rightarrow> [Some e] | [] \<Rightarrow> if errCClosed env then [None] else [])"

definition WaitForWire_select :: "nat \<Rightarrow> bool \<Rightarrow> envelope \<Rightarrow> err option option" where
  "WaitForWire_select pick closed env =
     sel pick ((if closed then [Some ClosedError] else []) @ recv_errC env @
       (if cdone (ectx env) then [Some (waitTimeout ''timeout waiting for message to be written to wire'' (ectx env))] else []))"

definition WaitForReply_select :: "nat \<Rightarrow> bool \<Rightarrow> envelope \<Rightarrow> Message res option" where
  "WaitForReply_select pick closed env =
     sel pick ((if closed then [Inl ClosedError] else []) @ map (\<lambda>e. Inl e) (take 1 (errC env)) @
       (if cdone (ectx env) then [Inl (waitTimeout ''timeout waiting for message reply'' (ectx env))] else []) @
       map Inr (take 1 (replyC env)))"

text \<open>
  The whole calls: the queueing of the sender first; its error is returned as it is. \<open>during\<close>
  is what the other goroutines do to the envelope before the select is reached; in the end the
  envelope is cancelled (\<^verbatim>\<open>defer self.CancelF()\<close>).
\<close>

definition WaitForWire ::
    "(err option \<times> 'q sender) option \<Rightarrow> (envelope \<Rightarrow> envelope outcome) \<Rightarrow> nat \<Rightarrow> bool \<Rightarrow> bool \<Rightarrow> Ctx \<Rightarrow> (err option \<times> envelope) option" where
  "WaitForWire sent during pick closed hasCancel c =
     (case sent of
        None \<Rightarrow> None
      | Some (Some e, _) \<Rightarrow> Some (Some e, CancelF (new_envelope hasCancel c))
      | Some (None, _) \<Rightarrow>
          (case during (new_envelope hasCancel c) of
             Proceeds env \<Rightarrow> map_option (\<lambda>r. (r, CancelF env)) (WaitForWire_select pick closed env)
           | _ \<Rightarrow> None))"

definition WaitForReply ::
    "(err option \<times> 'q sender) option \<Rightarrow> (envelope \<Rightarrow> envelope outcome) \<Rightarrow> nat \<Rightarrow> bool \<Rightarrow> bool \<Rightarrow> Ctx \<Rightarrow> (Message res \<times> envelope) option" where
  "WaitForReply sent during pick closed hasCancel c =
     (case sent of
        None \<Rightarrow> None
      | Some (Some e, _) \<Rightarrow> Some (Inl e, CancelF (new_envelope hasCancel c))
      | Some (None, _) \<Rightarrow>
          (case during (new_envelope hasCancel c) of
             Proceeds env \<Rightarrow> map_option (\<lambda>r. (r, CancelF env)) (WaitForReply_select pick closed env)
           | _ \<Rightarrow> None))"

definition WaitForQueue :: "(err option \<times> 'q sender) option \<Rightarrow> bool \<Rightarrow> Ctx \<Rightarrow> (err option \<times> envelope) option" where
  "WaitForQueue sent hasCancel c = map_option (\<lambda>(e, _). (e, CancelF (new_envelope hasCancel c))) sent"

section \<open>The envelope interfaces\<close>

text \<open>
  \<^verbatim>\<open>context.WithCancel\<close> and \<^verbatim>\<open>context.WithTimeout\<close>: a derived context is done
  with its parent, has the earlier of the two deadlines, and is done at once when that deadline has
  passed. \<open>now\<close> and the duration are nanoseconds; deadlines are compared on the millisecond
  clock that \<open>Ctx\<close> keeps.
\<close>

definition WithCancel :: "Ctx \<Rightarrow> Ctx" where
  "WithCancel parent = parent"

definition deadline_ms :: "int64 \<Rightarrow> int64 \<Rightarrow> int64" where
  "deadline_ms now duration = word_of_int ((sint now + sint duration) div 1000000)"

definition ctx_WithTimeout :: "int64 \<Rightarrow> int64 \<Rightarrow> Ctx \<Rightarrow> Ctx" where
  "ctx_WithTimeout now duration parent =
     (let d = deadline_ms now duration
      in if (case cdeadline parent of Some p \<Rightarrow> sint p < sint d | None \<Rightarrow> False) then WithCancel parent
         else if cdone parent then parent\<lparr>cdeadline := Some d\<rparr>
         else if sint duration \<le> 0 then \<lparr>cdone = True, cerr = Some DeadlineExceeded, cdeadline = Some d\<rparr>
         else \<lparr>cdone = False, cerr = None, cdeadline = Some d\<rparr>)"

text \<open>
  \<^verbatim>\<open>envelopeImpl\<close> is only made with a context; the second implementation of the interface
  is the error envelope. A plain message is an envelope without a timeout.
\<close>

record envelopeImpl =
  ei_sid :: nat
  ei_msg :: Message
  ei_context :: Ctx
  ei_cancelF :: bool

datatype TimeoutEnvelope = TimedEnvelope envelopeImpl | ErrorEnvelope nat "err option"

datatype Envelope = MessageEnvelope nat Message | Timed TimeoutEnvelope

fun env_WithTimeout :: "int64 \<Rightarrow> int64 \<Rightarrow> Envelope \<Rightarrow> TimeoutEnvelope" where
  "env_WithTimeout now duration (MessageEnvelope i m) =
     TimedEnvelope \<lparr>ei_sid = i, ei_msg = m, ei_context = ctx_WithTimeout now duration Background, ei_cancelF = True\<rparr>"
| "env_WithTimeout now duration (Timed (TimedEnvelope e)) =
     TimedEnvelope (e\<lparr>ei_context := ctx_WithTimeout now duration (ei_context e), ei_cancelF := True\<rparr>)"
| "env_WithTimeout now duration (Timed (ErrorEnvelope i e)) = ErrorEnvelope i e"

fun env_WithContext :: "Ctx \<Rightarrow> Envelope \<Rightarrow> TimeoutEnvelope" where
  "env_WithContext c (MessageEnvelope i m) = TimedEnvelope \<lparr>ei_sid = i, ei_msg = m, ei_context = c, ei_cancelF = False\<rparr>"
| "env_WithContext c (Timed (TimedEnvelope e)) = TimedEnvelope (e\<lparr>ei_context := WithCancel c, ei_cancelF := True\<rparr>)"
| "env_WithContext c (Timed (ErrorEnvelope i e)) = ErrorEnvelope i e"

fun env_ReplyTo :: "Message \<Rightarrow> Envelope \<Rightarrow> Envelope" where
  "env_ReplyTo msg (MessageEnvelope i m) = MessageEnvelope i (ReplyTo msg m)"
| "env_ReplyTo msg (Timed (TimedEnvelope e)) = Timed (TimedEnvelope (e\<lparr>ei_msg := ReplyTo msg (ei_msg e)\<rparr>))"
| "env_ReplyTo msg (Timed (ErrorEnvelope i e)) = Timed (ErrorEnvelope i e)"

text \<open>The sendable that a waiting function wraps around an envelope.\<close>

definition wrapped :: "sendable_kind \<Rightarrow> envelopeImpl \<Rightarrow> Sendable" where
  "wrapped k e = \<lparr>skind = k, sid = ei_sid e, Msg = Some (ei_msg e), Context = ei_context e\<rparr>"

fun env_ToSendable :: "Envelope \<Rightarrow> Sendable" where
  "env_ToSendable (MessageEnvelope i m) = \<lparr>skind = KMessage, sid = i, Msg = Some m, Context = Background\<rparr>"
| "env_ToSendable (Timed (TimedEnvelope e)) = wrapped KEnvelope e"
| "env_ToSendable (Timed (ErrorEnvelope i e)) = NewErrorEnvelope i e"

text \<open>The sender is the single channel sender; the error envelope does not reach it.\<close>

fun env_Send :: "('q \<Rightarrow> 'w::len word \<times> 'q) \<Rightarrow> nat \<Rightarrow> Ctx \<Rightarrow> Envelope \<Rightarrow> 'q sender \<Rightarrow> (err option \<times> 'q sender) option" where
  "env_Send Next pick later (Timed (ErrorEnvelope i e)) st = Some (e, st)"
| "env_Send Next pick later env st = Send Next pick later (env_ToSendable env) st"

text \<open>
  The waiting sends: the outcome, the envelope's channels and the sender. What they wait for is
  \<open>WaitForWire\<close>, \<open>WaitForReply\<close> and \<open>WaitForQueue\<close> above.
\<close>

fun SendAndWaitForWire ::
    "('q \<Rightarrow> 'w::len word \<times> 'q) \<Rightarrow> nat \<Rightarrow> Ctx \<Rightarrow> (envelope \<Rightarrow> envelope outcome) \<Rightarrow> nat \<Rightarrow> bool \<Rightarrow> TimeoutEnvelope \<Rightarrow> 'q sender \<Rightarrow> err option option" where
  "SendAndWaitForWire Next pick later during pick' closed (ErrorEnvelope i e) st = Some e"
| "SendAndWaitForWire Next pick later during pick' closed (TimedEnvelope env) st =
     map_option fst (WaitForWire (Send Next pick later (wrapped KSendWait env) st) during pick' closed (ei_cancelF env) (ei_context env))"

fun SendForReply ::
    "('q \<Rightarrow> 'w::len word \<times> 'q) \<Rightarrow> nat \<Rightarrow> Ctx \<Rightarrow> (envelope \<Rightarrow> envelope outcome) \<Rightarrow> nat \<Rightarrow> bool \<Rightarrow> TimeoutEnvelope \<Rightarrow> 'q sender \<Rightarrow>
     (Message option \<times> err option) option" where
  "SendForReply Next pick later during pick' closed (ErrorEnvelope i e) st = Some (None, e)"
| "SendForReply Next pick later during pick' closed (TimedEnvelope env) st =
     map_option (\<lambda>(r, _). case r of Inl e \<Rightarrow> (None, Some e) | Inr m \<Rightarrow> (Some m, None))
       (WaitForReply (Send Next pick later (wrapped KReply env) st) during pick' closed (ei_cancelF env) (ei_context env))"

fun SendAndWaitForQueue ::
    "('q \<Rightarrow> 'w::len word \<times> 'q) \<Rightarrow> nat \<Rightarrow> Ctx \<Rightarrow> TimeoutEnvelope \<Rightarrow> 'q sender \<Rightarrow> err option option" where
  "SendAndWaitForQueue Next pick later (ErrorEnvelope i e) st = Some e"
| "SendAndWaitForQueue Next pick later (TimedEnvelope env) st =
     map_option fst (WaitForQueue (Send Next pick later (wrapped KQueueWait env) st) (ei_cancelF env) (ei_context env))"

section \<open>Timeouts and errors of envelopes\<close>

fun env_Context :: "Envelope \<Rightarrow> Ctx" where
  "env_Context (MessageEnvelope i m) = Background"
| "env_Context (Timed (TimedEnvelope e)) = ei_context e"
| "env_Context (Timed (ErrorEnvelope i e)) = NewErrorContext e"

lemma ctx_WithTimeout_tightens:
  "\<exists>d. cdeadline (ctx_WithTimeout now duration parent) = Some d \<and> sint d \<le> sint (deadline_ms now duration) \<and>
     (\<forall>p. cdeadline parent = Some p \<longrightarrow> sint d \<le> sint p)"
  "cdone parent \<Longrightarrow> cdone (ctx_WithTimeout now duration parent) \<and> cerr (ctx_WithTimeout now duration parent) = cerr parent"
  by (auto simp: ctx_WithTimeout_def Let_def WithCancel_def split: option.splits)

fun env_timeouts :: "(int64 \<times> int64) list \<Rightarrow> Envelope \<Rightarrow> Envelope" where
  "env_timeouts [] env = env"
| "env_timeouts ((now, duration) # ts) env = env_timeouts ts (Timed (env_WithTimeout now duration env))"

lemma env_timeouts_deadline:
  "cdeadline (env_Context env) = Some p \<Longrightarrow> (\<forall>i e. env \<noteq> Timed (ErrorEnvelope i e)) \<Longrightarrow>
   \<exists>d. cdeadline (env_Context (env_timeouts ts env)) = Some d \<and> sint d \<le> sint p \<and>
     (\<forall>(now, duration)\<in>set ts. sint d \<le> sint (deadline_ms now duration))"
proof (induction ts arbitrary: env p)
  case (Cons t ts)
  obtain now duration where t: "t = (now, duration)" by (cases t)
  from Cons.prems obtain e where e: "env = Timed (TimedEnvelope e)" "cdeadline (ei_context e) = Some p"
    by (cases env rule: env_Context.cases) (auto simp: Background_def)
  obtain d where d: "cdeadline (ctx_WithTimeout now duration (ei_context e)) = Some d" "sint d \<le> sint (deadline_ms now duration)"
      "sint d \<le> sint p"
    using ctx_WithTimeout_tightens(1) [of now duration "ei_context e"] e(2) by blast
  obtain d' where "cdeadline (env_Context (env_timeouts ts (Timed (env_WithTimeout now duration env)))) = Some d'" "sint d' \<le> sint d"
      "\<forall>(now, duration)\<in>set ts. sint d' \<le> sint (deadline_ms now duration)"
    using Cons.IH [of "Timed (env_WithTimeout now duration env)" d] d(1) e(1) by auto
  then show ?case using d(2,3) t by fastforce
qed simp

text \<open>
  Timeouts only tighten: an envelope on which \<^verbatim>\<open>WithTimeout\<close> was called several times has
  the earliest of all their deadlines, in whatever order they were set.
\<close>

theorem timeouts_only_tighten:
  assumes "(now, duration) \<in> set ts"
  shows "\<exists>d. cdeadline (env_Context (env_timeouts ts (MessageEnvelope i m))) = Some d \<and> sint d \<le> sint (deadline_ms now duration)"
proof -
  obtain n u ts' where ts: "ts = (n, u) # ts'" using assms by (cases ts) auto
  let ?env = "Timed (env_WithTimeout n u (MessageEnvelope i m))"
  obtain p where p: "cdeadline (env_Context ?env) = Some p" "sint p \<le> sint (deadline_ms n u)"
    using ctx_WithTimeout_tightens(1) [of n u Background] by auto
  obtain d where "cdeadline (env_Context (env_timeouts ts' ?env)) = Some d" "sint d \<le> sint p"
      "\<forall>(now, duration)\<in>set ts'. sint d \<le> sint (deadline_ms now duration)"
    using env_timeouts_deadline [OF p(1), of ts'] by auto
  then show ?thesis using assms ts p(2) by fastforce
qed

text \<open>
  An error envelope stays one, whatever timeouts, contexts and reply numbers are set on it: every
  send returns its error at once and does not touch the sender.
\<close>

lemma error_envelope_sends_nothing:
  "env_Send Next pick later (Timed (env_WithTimeout now d (env_ReplyTo m (Timed (ErrorEnvelope i e))))) st = Some (e, st)"
  "SendAndWaitForWire Next pick later during pick' closed (env_WithContext c (Timed (ErrorEnvelope i e))) st = Some e"
  "SendForReply Next pick later during pick' closed (env_WithContext c (Timed (ErrorEnvelope i e))) st = Some (None, e)"
  "SendAndWaitForQueue Next pick later (env_WithTimeout now d (Timed (ErrorEnvelope i e))) st = Some e"
  by simp_all

text \<open>An envelope whose deadline has passed when it is made is refused before it is queued.\<close>

lemma expired_envelope_refused:
  assumes "sint duration \<le> 0"
  shows "\<exists>x. SendForReply Next pick later during pick' closed (env_WithTimeout now duration (MessageEnvelope i m)) st = Some (None, Some x) \<and>
    IsTimeout x"
  using assms
  by (simp add: ctx_WithTimeout_def Background_def Let_def wrapped_def Send_def WaitForReply_def queueContextErr_def
      errors_Is_refl)

end
