(* ===== verification/Channel_Lifecycle.thy ===== *)
theory Channel_Lifecycle
  imports Channel_Impl
begin

text \<open>
  The life of a channel. First what each operation of \<^verbatim>\<open>Channel_Impl\<close> does on every branch;
  then a step relation in which the accepting, closing, receiving, transmitting and
  constraint-checking goroutines interleave at the points where they hold the channel's lock,
  with an inductive invariant. The two phases of \<^verbatim>\<open>closeUnderlay\<close> are separate steps, since
  the lock is taken only for the second.
\<close>

section \<open>What the operations change\<close>

lemma emit_simps [simp]:
  "underlays (emit evs ch) = underlays ch" "closedU (emit evs ch) = closedU ch" "flagClosed (emit evs ch) = flagClosed ch"
  "closeNotifyC (emit evs ch) = closeNotifyC ch" "fallbackUnderlay (emit evs ch) = fallbackUnderlay ch"
  "groupSecret (emit evs ch) = groupSecret ch" "dialPolicy (emit evs ch) = dialPolicy ch"
  "constraints (emit evs ch) = constraints ch" "minTotalUnderlays (emit evs ch) = minTotalUnderlays ch"
  "waiters (emit evs ch) = waiters ch" "trace (emit evs ch) = trace ch @ evs" "peekHandlers (emit evs ch) = peekHandlers ch"
  "closeHandlers (emit evs ch) = closeHandlers ch" "errorHandlers (emit evs ch) = errorHandlers ch"
  "receiveHandlers (emit evs ch) = receiveHandlers ch" "transformHandlers (emit evs ch) = transformHandlers ch"
  "replyCounter (emit evs ch) = replyCounter ch" "channelId (emit evs ch) = channelId ch"
  "validUnderlayTypes (emit evs ch) = validUnderlayTypes ch"
  by (simp_all add: emit_def)

lemma emit_emit [simp]: "emit b (emit a ch) = emit (a @ b) ch"
  by (simp add: emit_def)

lemma emit_Nil [simp]: "emit [] ch = ch"
  by (simp add: emit_def)

lemma snd_closeU: "snd (closeU uclose u ch) = ch\<lparr>closedU := insert (uid u) (closedU ch)\<rparr>"
  by (simp add: closeU_def insert_absorb)

lemma snd_closeAll: "snd (closeAll uclose us ch) = ch\<lparr>closedU := uid ` set us \<union> closedU ch\<rparr>"
proof (induction us arbitrary: ch)
  case (Cons u us)
  have "snd (closeAll uclose (u # us) ch) = snd (closeAll uclose us (snd (closeU uclose u ch)))"
    by (simp add: split_beta Let_def)
  also have "\<dots> = ch\<lparr>closedU := uid ` set (u # us) \<union> closedU ch\<rparr>"
    using Cons by (simp add: snd_closeU)
  finally show ?case .
qed simp

text \<open>The channel that \<^verbatim>\<open>Close\<close> leaves.\<close>

definition closed_channel :: "channelImpl \<Rightarrow> channelImpl" where
  "closed_channel ch = ch\<lparr>flagClosed := True, closeNotifyC := True,
     trace := trace ch @ map EvPeekClose (peekHandlers ch) @ map EvHandleClose (closeHandlers ch),
     waiters := clearWaiters (waiters ch), closedU := uid ` set (entries (underlays ch)) \<union> closedU ch\<rparr>"

lemma Close_cases:
  obtains (already) "flagClosed ch" "Close uclose ch = Inr (None, ch)"
    | (panic) "\<not> flagClosed ch" "closeNotifyC ch" "Close uclose ch = Inl GoPanic"
    | (closed) e where "\<not> flagClosed ch" "\<not> closeNotifyC ch" "Close uclose ch = Inr (e, closed_channel ch)"
proof (cases "flagClosed ch \<or> closeNotifyC ch")
  case True
  with already panic show thesis by (auto simp: Close_def)
next
  case False
  let ?ch = "ch\<lparr>flagClosed := True, closeNotifyC := True,
     trace := trace ch @ map EvPeekClose (peekHandlers ch) @ map EvHandleClose (closeHandlers ch),
     waiters := clearWaiters (waiters ch)\<rparr>"
  have "Close uclose ch =
      Inr (if fst (closeAll uclose (entries (underlays ch)) ?ch) = [] then None
           else Some (ErrJoin (fst (closeAll uclose (entries (underlays ch)) ?ch))),
           snd (closeAll uclose (entries (underlays ch)) ?ch))"
    using False by (simp add: Close_def Let_def split_beta emit_def GetAll_def)
  with False closed show thesis by (simp add: snd_closeAll closed_channel_def)
qed

lemma closed_channel_simps [simp]:
  "flagClosed (closed_channel ch)" "closeNotifyC (closed_channel ch)"
  "underlays (closed_channel ch) = underlays ch" "fallbackUnderlay (closed_channel ch) = fallbackUnderlay ch"
  "groupSecret (closed_channel ch) = groupSecret ch" "dialPolicy (closed_channel ch) = dialPolicy ch"
  "constraints (closed_channel ch) = constraints ch" "minTotalUnderlays (closed_channel ch) = minTotalUnderlays ch"
  "closedU (closed_channel ch) = uid ` set (entries (underlays ch)) \<union> closedU ch"
  "waiters (closed_channel ch) = clearWaiters (waiters ch)" "channelId (closed_channel ch) = channelId ch"
  by (simp_all add: closed_channel_def)

section \<open>The frame of an operation\<close>

text \<open>
  What nearly every operation keeps: the configuration, the members and the fallback. It may
  close the channel and underlays, but never reopens anything.
\<close>

definition same_members :: "channelImpl \<Rightarrow> channelImpl \<Rightarrow> bool" where
  "same_members a b \<longleftrightarrow> channelId b = channelId a \<and> groupSecret b = groupSecret a \<and> dialPolicy b = dialPolicy a \<and> constraints b = constraints a \<and>
     minTotalUnderlays b = minTotalUnderlays a \<and> fallbackUnderlay b = fallbackUnderlay a \<and>
     entries (underlays b) = entries (underlays a) \<and> listeners (underlays b) = listeners (underlays a)"

text \<open>Either nothing of the closing changed, or the channel was closed with all its members.\<close>

definition maybe_closed :: "channelImpl \<Rightarrow> channelImpl \<Rightarrow> bool" where
  "maybe_closed a b \<longleftrightarrow> same_members a b \<and>
     (flagClosed b = flagClosed a \<and> closeNotifyC b = closeNotifyC a \<and> closedU b = closedU a \<or>
      flagClosed b \<and> closeNotifyC b \<and> closedU b = uid ` set (entries (underlays a)) \<union> closedU a)"

lemma maybe_closed_refl [simp]: "maybe_closed ch ch"
  by (simp add: maybe_closed_def same_members_def)

lemma maybe_closed_trans: "maybe_closed a b \<Longrightarrow> maybe_closed b c \<Longrightarrow> maybe_closed a c"
  by (auto simp: maybe_closed_def same_members_def)

lemma maybe_closed_emit [simp]: "maybe_closed a (emit evs b) = maybe_closed a b"
  by (simp add: maybe_closed_def same_members_def)

lemma maybe_closed_capable: "maybe_closed a b \<Longrightarrow> isMultiUnderlayCapable b = isMultiUnderlayCapable a"
  by (simp add: maybe_closed_def same_members_def isMultiUnderlayCapable_def)

lemma maybe_closed_Close: "Close uclose ch = Inr (e, ch') \<Longrightarrow> maybe_closed ch ch'"
  by (cases rule: Close_cases [of ch uclose]) (auto simp: maybe_closed_def same_members_def)

lemma maybe_closed_closeIf: "closeIf uclose b ch = Inr ch' \<Longrightarrow> maybe_closed ch ch'"
  by (auto simp: closeIf_def res_simps split: if_splits dest: maybe_closed_Close)

lemma maybe_closed_countsShowValidState:
  "countsShowValidState uclose ks counts b ch = Inr (v, ch') \<Longrightarrow> maybe_closed ch ch'"
  by (auto simp: countsShowValidState_def res_simps split: if_splits dest: maybe_closed_closeIf)

lemma maybe_closed_channelUnderlayRemoved:
  assumes "channelUnderlayRemoved uclose now u ch = Inr ch'"
  shows "maybe_closed ch ch'"
proof -
  have "maybe_closed (emit evs ch) b \<Longrightarrow> maybe_closed ch b" for evs b
    by (simp add: maybe_closed_def same_members_def)
  with assms show ?thesis
    by (auto simp: channelUnderlayRemoved_def res_simps Let_def split: if_splits dest: maybe_closed_Close)
qed

lemma maybe_closed_notifyListeners:
  "notifyListeners uclose now evs ch = Inr ch' \<Longrightarrow> maybe_closed ch ch'"
proof (induction evs arbitrary: ch)
  case (Cons e evs)
  then obtain c where c: "notifyListeners uclose now evs c = Inr ch'"
    "(case e of UnderlayRemoved l u \<Rightarrow> if l = selfListener then channelUnderlayRemoved uclose now u ch else Inr (emit [EvListener e] ch)
      | UnderlayAdded l u \<Rightarrow> Inr (emit [EvListener e] ch)) = Inr c"
    by (auto simp: res_simps)
  have "maybe_closed ch c"
    using c(2) by (auto split: underlay_event.splits if_splits dest: maybe_closed_channelUnderlayRemoved)
  with Cons.IH [OF c(1)] show ?case by (rule maybe_closed_trans [rotated])
qed simp

text \<open>Receiving and transmitting touch the waiters and the trace only.\<close>

lemma maybe_closed_dispatch [simp]: "maybe_closed a (dispatch m ch) = maybe_closed a ch"
  by (simp add: dispatch_def split: option.splits)

lemma maybe_closed_upd [simp]:
  "maybe_closed a (ch\<lparr>lastRead := n\<rparr>) = maybe_closed a ch" "maybe_closed a (ch\<lparr>waiters := ws\<rparr>) = maybe_closed a ch"
  "maybe_closed a (ch\<lparr>replyCounter := k\<rparr>) = maybe_closed a ch"
  by (simp_all add: maybe_closed_def same_members_def)

lemma maybe_closed_rx:
  assumes "rx now ks m ch = Inr ch'"
  shows "maybe_closed ch ch'"
proof (cases "IsReply (fold fst (transformHandlers ch) m)")
  case True
  with assms show ?thesis
    by (auto simp: rx_def rbind_eq_Inr Let_def split: option.splits)
next
  case False
  with assms show ?thesis by (simp add: rx_def Let_def) (use maybe_closed_dispatch in force)
qed

lemma maybe_closed_tx:
  assumes "tx env now u t s wt ch = Inr (e, ch')"
  shows "maybe_closed ch ch'"
  using assms by (auto simp: tx_def rbind_eq_Inr Let_def split: option.splits if_splits)

section \<open>Interleaved steps\<close>

text \<open>
  A state is the channel and the underlays whose \<^verbatim>\<open>closeUnderlay\<close> has removed them but not
  yet repaired the fallback. Every step is one critical section: an offered underlay is open and
  not already a member; the receive and the transmit goroutine of an underlay may end at any time
  (\<open>remove\<close>), each once, so an underlay is pending at most twice.
\<close>

type_synonym ch_state = "channelImpl \<times> Underlay list"

inductive ch_step :: "(nat \<Rightarrow> err option) \<Rightarrow> ch_state \<Rightarrow> ch_state \<Rightarrow> bool" for uclose :: "nat \<Rightarrow> err option" where
  step_accept: "uid u \<notin> uid ` set (entries (underlays ch)) \<Longrightarrow> uid u \<notin> closedU ch \<Longrightarrow>
    AcceptUnderlay uclose u ch = (e, ch') \<Longrightarrow> ch_step uclose (ch, pend) (ch', pend)"
| step_close: "Close uclose ch = Inr (e, ch') \<Longrightarrow> ch_step uclose (ch, pend) (ch', pend)"
| step_check: "checkConstraintsValid uclose ks b ch = Inr (v, ch') \<Longrightarrow> ch_step uclose (ch, pend) (ch', pend)"
| step_rx: "rx now ks m ch = Inr ch' \<Longrightarrow> ch_step uclose (ch, pend) (ch', pend)"
| step_tx: "tx env now u t s wt ch = Inr (e, ch') \<Longrightarrow> ch_step uclose (ch, pend) (ch', pend)"
| step_remove: "closeUnderlay_remove uclose now u ch = Inr ch' \<Longrightarrow> ch_step uclose (ch, pend) (ch', u # pend)"
| step_fallback: "ch_step uclose (ch, pre @ u # post) (closeUnderlay_fallback u ch, pre @ post)"

text \<open>A channel as \<^verbatim>\<open>NewChannel\<close> returns it, with a bind handler that registers handlers only.\<close>

definition registers_only :: "bind_handler option \<Rightarrow> bool" where
  "registers_only b \<longleftrightarrow> (\<forall>ch. \<exists>ph th rh eh clh ud. bind_channel b ch =
     (None, ch\<lparr>peekHandlers := ph, transformHandlers := th, receiveHandlers := rh, errorHandlers := eh,
               closeHandlers := clh, userData := ud\<rparr>))"

definition new_state :: "(nat \<Rightarrow> err option) \<Rightarrow> ch_state \<Rightarrow> bool" where
  "new_state uclose = (\<lambda>(ch, pend). pend = [] \<and>
     (\<exists>cfg. NewChannel uclose cfg = Inr (None, Some ch) \<and> registers_only (cfgBinder cfg) \<and> \<not> cfgSendersClosed cfg))"

definition secret_of :: "Underlay \<Rightarrow> bytes" where
  "secret_of u = hget (uHeaders u) GroupSecretHeader"

definition chan_inv :: "ch_state \<Rightarrow> bool" where
  "chan_inv = (\<lambda>(ch, pend).
     distinct (map uid (entries (underlays ch))) \<and>
     flagClosed ch = closeNotifyC ch \<and>
     (flagClosed ch \<longrightarrow> uid ` set (entries (underlays ch)) \<subseteq> closedU ch) \<and>
     (isMultiUnderlayCapable ch \<longrightarrow> groupSecret ch \<noteq> [] \<and> (\<forall>u\<in>set (entries (underlays ch)). secret_of u = groupSecret ch)) \<and>
     (\<not> isMultiUnderlayCapable ch \<and> entries (underlays ch) = [] \<longrightarrow> flagClosed ch) \<and>
     (entries (underlays ch) \<noteq> [] \<longrightarrow>
        uid (fallbackUnderlay ch) \<in> uid ` set (entries (underlays ch)) \<union> uid ` set pend) \<and>
     listeners (underlays ch) \<noteq> [] \<and> hd (listeners (underlays ch)) = selfListener)"

lemma chan_inv_maybe_closed:
  assumes "chan_inv (ch, pend)" "maybe_closed ch ch'"
  shows "chan_inv (ch', pend)"
  using assms maybe_closed_capable [OF assms(2)]
  by (auto simp: chan_inv_def maybe_closed_def same_members_def)

lemma chan_inv_closeU: "chan_inv (ch, pend) \<Longrightarrow> chan_inv (snd (closeU uclose u ch), pend)"
  by (auto simp: chan_inv_def snd_closeU isMultiUnderlayCapable_def)

lemma addUnderlay_simps [simp]:
  "entries (underlays (addUnderlay u ch)) = entries (underlays ch) @ [u]"
  "listeners (underlays (addUnderlay u ch)) = listeners (underlays ch)"
  "closedU (addUnderlay u ch) = closedU ch" "flagClosed (addUnderlay u ch) = flagClosed ch"
  "closeNotifyC (addUnderlay u ch) = closeNotifyC ch" "groupSecret (addUnderlay u ch) = groupSecret ch"
  "dialPolicy (addUnderlay u ch) = dialPolicy ch" "constraints (addUnderlay u ch) = constraints ch"
  "minTotalUnderlays (addUnderlay u ch) = minTotalUnderlays ch" "fallbackUnderlay (addUnderlay u ch) = fallbackUnderlay ch"
  "applyInProgress (addUnderlay u ch) = applyInProgress ch" "channelId (addUnderlay u ch) = channelId ch"
  by (simp_all add: addUnderlay_def Add_underlay_def emit_def)

lemma AcceptUnderlay_cases:
  obtains (refused) x where "AcceptUnderlay uclose u ch = (Some x, snd (closeU uclose u ch))"
      "\<not> isMultiUnderlayCapable ch \<or> secret_of u \<noteq> groupSecret ch \<or> flagClosed ch"
    | (accepted) "AcceptUnderlay uclose u ch =
        (None, startMultiplex u (addUnderlay u (ch\<lparr>fallbackUnderlay := u\<rparr>)))"
      "isMultiUnderlayCapable ch" "secret_of u = groupSecret ch" "\<not> flagClosed ch"
proof (cases "\<not> isMultiUnderlayCapable ch \<or> secret_of u \<noteq> groupSecret ch \<or> flagClosed ch")
  case True
  then have "\<exists>x. AcceptUnderlay uclose u ch = (Some x, snd (closeU uclose u ch))"
    by (auto simp: AcceptUnderlay_def secret_of_def IsClosed_def)
  with refused True show thesis by blast
next
  case False
  with accepted show thesis by (simp add: AcceptUnderlay_def secret_of_def IsClosed_def)
qed

lemma chan_inv_accept:
  assumes "chan_inv (ch, pend)" "uid u \<notin> uid ` set (entries (underlays ch))"
  shows "chan_inv (snd (AcceptUnderlay uclose u ch), pend)"
proof (cases rule: AcceptUnderlay_cases [of uclose u ch])
  case (refused x)
  with chan_inv_closeU [OF assms(1)] show ?thesis by simp
next
  case accepted
  with assms show ?thesis
    by (auto simp: chan_inv_def startMultiplex_def isMultiUnderlayCapable_def)
qed

text \<open>Removing a member: the invariant before the listeners run, and after.\<close>

lemma channelUnderlayRemoved_closes:
  assumes "channelUnderlayRemoved uclose now u ch = Inr ch'" "\<not> isMultiUnderlayCapable ch" "entries (underlays ch) = []"
  shows "flagClosed ch'"
proof -
  have "flagClosed c'" if "Close uclose c = Inr (e, c')" for c e c'
    using that by (cases rule: Close_cases [of c uclose]) auto
  moreover have "isMultiUnderlayCapable (emit evs ch) = isMultiUnderlayCapable ch" for evs
    by (simp add: isMultiUnderlayCapable_def)
  ultimately show ?thesis
    using assms by (auto simp: channelUnderlayRemoved_def Let_def res_simps GetAll_def split: if_splits)
qed

lemma closeUnderlay_remove_elim:
  assumes "closeUnderlay_remove uclose now u ch = Inr ch'" "distinct (map uid (entries (underlays ch)))"
  obtains c where "maybe_closed c ch'"
    "c = ch\<lparr>closedU := insert (uid u) (closedU ch), notified := insert (uid u) (notified ch),
            underlays := (underlays ch)\<lparr>entries := filter (\<lambda>e. uid e \<noteq> uid u) (entries (underlays ch))\<rparr>\<rparr>"
    "notifyListeners uclose now (if uid u \<in> uid ` set (entries (underlays ch))
       then map (\<lambda>l. UnderlayRemoved l u) (listeners (underlays ch)) else []) c = Inr ch'"
proof -
  let ?c = "ch\<lparr>closedU := insert (uid u) (closedU ch), notified := insert (uid u) (notified ch),
            underlays := (underlays ch)\<lparr>entries := filter (\<lambda>e. uid e \<noteq> uid u) (entries (underlays ch))\<rparr>\<rparr>"
  have n: "notifyListeners uclose now (if uid u \<in> uid ` set (entries (underlays ch))
      then map (\<lambda>l. UnderlayRemoved l u) (listeners (underlays ch)) else []) ?c = Inr ch'"
    using assms
    by (auto simp: closeUnderlay_remove_def Remove_underlay_def Remove_loop_distinct snd_closeU Let_def split: if_splits)
  show thesis by (rule that [OF maybe_closed_notifyListeners [OF n] refl n])
qed

lemma chan_inv_remove:
  assumes inv: "chan_inv (ch, pend)" and rm: "closeUnderlay_remove uclose now u ch = Inr ch'"
  shows "chan_inv (ch', u # pend)"
proof -
  have d: "distinct (map uid (entries (underlays ch)))" using inv by (simp add: chan_inv_def)
  from closeUnderlay_remove_elim [OF rm d] obtain c where
    c: "c = ch\<lparr>closedU := insert (uid u) (closedU ch), notified := insert (uid u) (notified ch),
            underlays := (underlays ch)\<lparr>entries := filter (\<lambda>e. uid e \<noteq> uid u) (entries (underlays ch))\<rparr>\<rparr>"
    and mc: "maybe_closed c ch'"
    and n: "notifyListeners uclose now (if uid u \<in> uid ` set (entries (underlays ch))
       then map (\<lambda>l. UnderlayRemoved l u) (listeners (underlays ch)) else []) c = Inr ch'"
    by blast
  have cap: "isMultiUnderlayCapable ch' = isMultiUnderlayCapable ch"
    using maybe_closed_capable [OF mc] by (simp add: c isMultiUnderlayCapable_def)
  have closed: "flagClosed ch'" if simple: "\<not> isMultiUnderlayCapable ch" and none: "entries (underlays c) = []"
  proof (cases "uid u \<in> uid ` set (entries (underlays ch))")
    case False
    with none have "entries (underlays ch) = []" by (auto simp: c filter_empty_conv image_iff)
    with inv simple mc show ?thesis by (auto simp: chan_inv_def maybe_closed_def c)
  next
    case True
    obtain ls where ls: "listeners (underlays ch) = selfListener # ls"
      using inv by (cases "listeners (underlays ch)") (auto simp: chan_inv_def)
    with n True obtain c' where c': "channelUnderlayRemoved uclose now u c = Inr c'"
      "notifyListeners uclose now (map (\<lambda>l. UnderlayRemoved l u) ls) c' = Inr ch'"
      by (auto simp: res_simps)
    have "flagClosed c'"
      using channelUnderlayRemoved_closes [OF c'(1)] simple none by (simp add: c isMultiUnderlayCapable_def)
    with maybe_closed_notifyListeners [OF c'(2)] show ?thesis by (auto simp: maybe_closed_def)
  qed
  have eqs: "entries (underlays ch') = filter (\<lambda>e. uid e \<noteq> uid u) (entries (underlays ch))" "entries (underlays ch') = entries (underlays c)"
      "listeners (underlays ch') = listeners (underlays ch)" "groupSecret ch' = groupSecret ch" "fallbackUnderlay ch' = fallbackUnderlay ch"
    using mc by (simp_all add: c maybe_closed_def same_members_def)
  have flags: "flagClosed ch' = closeNotifyC ch'" "flagClosed ch' \<longrightarrow> uid ` set (entries (underlays ch')) \<subseteq> closedU ch'"
    using inv mc unfolding eqs(1) by (auto simp: chan_inv_def c maybe_closed_def)
  have fb: "uid (fallbackUnderlay ch) \<in> uid ` set (filter (\<lambda>e. uid e \<noteq> uid u) (entries (underlays ch))) \<union> uid ` set (u # pend)"
    if "entries (underlays ch) \<noteq> []"
    using inv that by (auto simp: chan_inv_def)
  have "distinct (map uid (entries (underlays ch')))" unfolding eqs(1) using d by (rule distinct_map_filter)
  moreover have "\<not> isMultiUnderlayCapable ch' \<and> entries (underlays ch') = [] \<longrightarrow> flagClosed ch'"
    using closed cap eqs(2) by simp
  moreover have "entries (underlays ch') \<noteq> [] \<longrightarrow>
      uid (fallbackUnderlay ch') \<in> uid ` set (entries (underlays ch')) \<union> uid ` set (u # pend)"
    unfolding eqs(1,5) using fb by (cases "entries (underlays ch)") simp_all
  ultimately show ?thesis
    using inv flags cap unfolding chan_inv_def prod.case eqs(3-4) by (auto simp: eqs(1))
qed

lemma chan_inv_fallback:
  assumes "chan_inv (ch, pre @ u # post)"
  shows "chan_inv (closeUnderlay_fallback u ch, pre @ post)"
  using assms last_in_set [of "entries (underlays ch)"]
  by (auto simp: chan_inv_def closeUnderlay_fallback_def Let_def GetAll_def isMultiUnderlayCapable_def)

lemma initialImpl_simps [simp]:
  "entries (underlays (initialImpl cfg u)) = []" "listeners (underlays (initialImpl cfg u)) = selfListener # cfgListeners cfg"
  "flagClosed (initialImpl cfg u) = False" "closeNotifyC (initialImpl cfg u) = cfgSendersClosed cfg"
  "groupSecret (initialImpl cfg u) = secret_of u" "dialPolicy (initialImpl cfg u) = cfgDialPolicy cfg"
  "constraints (initialImpl cfg u) = cfgConstraints cfg" "minTotalUnderlays (initialImpl cfg u) = cfgMinTotalUnderlays cfg"
  "fallbackUnderlay (initialImpl cfg u) = u" "channelId (initialImpl cfg u) = uConnectionId u"
  by (simp_all add: initialImpl_def NewUnderlays_def secret_of_def)

lemma NewChannel_elim:
  assumes "NewChannel uclose cfg = Inr (None, Some ch)" "registers_only (cfgBinder cfg)" "cfgUnderlay cfg = Some u"
  obtains ph th rh eh clh ud where "ch = emit [EvGoApplyConstraints] (startMultiplex u (addUnderlay u
      ((initialImpl cfg u)\<lparr>peekHandlers := ph, transformHandlers := th, receiveHandlers := rh,
       errorHandlers := eh, closeHandlers := clh, userData := ud\<rparr>)))"
    "secret_of u \<noteq> [] \<or> \<not> (cfgDialPolicy cfg \<or> cfgConstraints cfg \<noteq> Map.empty \<or> cfgMinTotalUnderlays cfg > 0)"
proof -
  obtain ph th rh eh clh ud where b: "bind_channel (cfgBinder cfg) (initialImpl cfg u) =
     (None, (initialImpl cfg u)\<lparr>peekHandlers := ph, transformHandlers := th, receiveHandlers := rh, errorHandlers := eh,
               closeHandlers := clh, userData := ud\<rparr>)"
    using assms(2) unfolding registers_only_def by meson
  show thesis
    by (rule that [of ud clh eh rh th ph]) (use assms(1) in \<open>simp_all add: NewChannel_def assms(3) b Let_def split: if_splits\<close>)
qed

lemma chan_inv_new:
  assumes "new_state uclose s"
  shows "chan_inv s"
proof -
  obtain ch cfg where s: "s = (ch, [])" and new: "NewChannel uclose cfg = Inr (None, Some ch)"
    and reg: "registers_only (cfgBinder cfg)" "\<not> cfgSendersClosed cfg"
    using assms by (auto simp: new_state_def split: prod.splits)
  from new obtain u where u: "cfgUnderlay cfg = Some u" by (auto simp: NewChannel_def split: if_splits option.splits)
  obtain ph th rh eh clh ud
    where ch: "ch = emit [EvGoApplyConstraints] (startMultiplex u (addUnderlay u
        ((initialImpl cfg u)\<lparr>peekHandlers := ph, transformHandlers := th, receiveHandlers := rh,
         errorHandlers := eh, closeHandlers := clh, userData := ud\<rparr>)))"
      and sec: "secret_of u \<noteq> [] \<or> \<not> (cfgDialPolicy cfg \<or> cfgConstraints cfg \<noteq> Map.empty \<or> cfgMinTotalUnderlays cfg > 0)"
    by (rule NewChannel_elim [OF new reg(1) u])
  show ?thesis
    using sec reg(2) by (simp add: s ch chan_inv_def startMultiplex_def isMultiUnderlayCapable_def) blast
qed

interpretation channel: inductive_invariant "new_state uclose" "ch_step uclose" chan_inv for uclose
proof
  fix s t assume inv: "chan_inv s" and step: "ch_step uclose s t"
  from step show "chan_inv t"
  proof cases
    case (step_accept u ch e ch' pend)
    with inv chan_inv_accept [of ch pend u uclose] show ?thesis by simp
  next
    case (step_close ch e ch' pend)
    with inv show ?thesis by (auto intro: chan_inv_maybe_closed dest: maybe_closed_Close)
  next
    case (step_check ks b ch v ch' pend)
    with inv show ?thesis
      by (auto simp: checkConstraintsValid_def intro: chan_inv_maybe_closed dest: maybe_closed_countsShowValidState)
  next
    case (step_rx now ks m ch ch' pend)
    with inv show ?thesis by (auto intro: chan_inv_maybe_closed dest: maybe_closed_rx)
  next
    case (step_tx env now u x s wt ch e ch' pend)
    with inv show ?thesis by (auto intro: chan_inv_maybe_closed dest: maybe_closed_tx)
  next
    case (step_remove now u ch ch' pend)
    with inv chan_inv_remove show ?thesis by blast
  next
    case (step_fallback ch pre u post)
    with inv chan_inv_fallback show ?thesis by blast
  qed
qed (rule chan_inv_new)

section \<open>What no step changes\<close>

definition same_group :: "channelImpl \<Rightarrow> channelImpl \<Rightarrow> bool" where
  "same_group a b \<longleftrightarrow> channelId b = channelId a \<and> groupSecret b = groupSecret a \<and>
     isMultiUnderlayCapable b = isMultiUnderlayCapable a"

lemma same_group_maybe_closed: "maybe_closed a b \<Longrightarrow> same_group a b"
  using maybe_closed_capable [of a b] by (simp add: same_group_def maybe_closed_def same_members_def)

lemma same_group_step:
  assumes "chan_inv (ch, pend)" "ch_step uclose (ch, pend) (ch', pend')"
  shows "same_group ch ch'"
  using assms(2)
proof cases
  case (step_accept u e)
  then show ?thesis
    by (cases rule: AcceptUnderlay_cases [of uclose u ch])
      (auto simp: same_group_def snd_closeU startMultiplex_def isMultiUnderlayCapable_def)
next
  case (step_remove now u)
  have d: "distinct (map uid (entries (underlays ch)))" using assms(1) by (simp add: chan_inv_def)
  from closeUnderlay_remove_elim [OF step_remove(2) d] obtain c where "maybe_closed c ch'"
    "c = ch\<lparr>closedU := insert (uid u) (closedU ch), notified := insert (uid u) (notified ch),
          underlays := (underlays ch)\<lparr>entries := filter (\<lambda>e. uid e \<noteq> uid u) (entries (underlays ch))\<rparr>\<rparr>"
    by blast
  with same_group_maybe_closed [of c ch'] show ?thesis by (simp add: same_group_def isMultiUnderlayCapable_def)
next
  case (step_check ks b v)
  then have "maybe_closed ch ch'" by (auto simp: checkConstraintsValid_def dest: maybe_closed_countsShowValidState)
  then show ?thesis by (rule same_group_maybe_closed)
next
  case (step_close e)
  from maybe_closed_Close [OF step_close(2)] show ?thesis by (rule same_group_maybe_closed)
next
  case (step_rx now ks m)
  from maybe_closed_rx [OF step_rx(2)] show ?thesis by (rule same_group_maybe_closed)
next
  case (step_tx env now u x s wt e)
  from maybe_closed_tx [OF step_tx(2)] show ?thesis by (rule same_group_maybe_closed)
next
  case (step_fallback pre u post)
  then show ?thesis by (simp add: same_group_def closeUnderlay_fallback_def Let_def isMultiUnderlayCapable_def)
qed

lemma same_group_steps:
  assumes "(ch_step uclose)\<^sup>*\<^sup>* s t" "chan_inv s"
  shows "same_group (fst s) (fst t)"
  using assms(1)
proof (induction rule: rtranclp_induct)
  case base
  then show ?case by (simp add: same_group_def)
next
  case (step t v)
  have "chan_inv t" using channel.steps_inv [OF step(1) assms(2)] .
  with step(2) have "same_group (fst t) (fst v)"
    using same_group_step [of "fst t" "snd t" uclose "fst v" "snd v"] by simp
  with step(3) show ?case by (simp add: same_group_def)
qed

text \<open>An open channel that was created on the underlay \<open>u\<close> and accepts further ones.\<close>

definition channel_on :: "(nat \<Rightarrow> err option) \<Rightarrow> Underlay \<Rightarrow> channelImpl \<Rightarrow> bool" where
  "channel_on uclose u ch \<longleftrightarrow> (\<exists>cfg ch0 pend. cfgUnderlay cfg = Some u \<and> registers_only (cfgBinder cfg) \<and> \<not> cfgSendersClosed cfg \<and>
     NewChannel uclose cfg = Inr (None, Some ch0) \<and> (ch_step uclose)\<^sup>*\<^sup>* (ch0, []) (ch, pend)) \<and>
     isMultiUnderlayCapable ch \<and> \<not> flagClosed ch"

lemma channel_on_group:
  assumes "channel_on uclose u ch"
  shows "groupSecret ch = secret_of u" "channelId ch = uConnectionId u"
proof -
  obtain cfg ch0 pend where c: "cfgUnderlay cfg = Some u" "registers_only (cfgBinder cfg)" "\<not> cfgSendersClosed cfg"
    "NewChannel uclose cfg = Inr (None, Some ch0)" "(ch_step uclose)\<^sup>*\<^sup>* (ch0, []) (ch, pend)"
    using assms by (auto simp: channel_on_def)
  have "chan_inv (ch0, [])" using c(2-4) by (intro chan_inv_new) (auto simp: new_state_def)
  from same_group_steps [OF c(5) this] have same: "same_group ch0 ch" by simp
  obtain ph th rh eh clh ud
    where "ch0 = emit [EvGoApplyConstraints] (startMultiplex u (addUnderlay u
        ((initialImpl cfg u)\<lparr>peekHandlers := ph, transformHandlers := th, receiveHandlers := rh,
         errorHandlers := eh, closeHandlers := clh, userData := ud\<rparr>)))"
    by (rule NewChannel_elim [OF c(4,2,1)])
  then have "groupSecret ch0 = secret_of u" "channelId ch0 = uConnectionId u" by (simp_all add: startMultiplex_def)
  with same show "groupSecret ch = secret_of u" "channelId ch = uConnectionId u" by (simp_all add: same_group_def)
qed

lemma accepted_by_channel_on:
  assumes "channel_on uclose u0 ch"
  shows "fst (AcceptUnderlay uclose u ch) = None \<longleftrightarrow> secret_of u = secret_of u0"
    "secret_of u = secret_of u0 \<Longrightarrow> entries (underlays (snd (AcceptUnderlay uclose u ch))) = entries (underlays ch) @ [u]"
  using assms channel_on_group(1) [OF assms]
  by (cases rule: AcceptUnderlay_cases [of uclose u ch]; auto simp: channel_on_def startMultiplex_def)+

section \<open>A sample channel\<close>

text \<open>A channel that accepts further underlays of its group, with one underlay and no handlers.\<close>

definition sample_config :: config where
  "sample_config = \<lparr>cfgLogicalName = ''ctrl'', cfgSenders = True, cfgSendersClosed = False, cfgMessageSourceProvider = True,
     cfgBinder = None, cfgUnderlay = Some (sample_underlay 1 ''a''), cfgInjectUnderlayType = False, cfgValidUnderlayTypes = [],
     cfgDialPolicy = False, cfgConstraints = Map.empty, cfgMinTotalUnderlays = 1, cfgListeners = []\<rparr>"

definition sample_channel :: channelImpl where
  "sample_channel = emit [EvGoApplyConstraints]
     (startMultiplex (sample_underlay 1 ''a'') (addUnderlay (sample_underlay 1 ''a'') (initialImpl sample_config (sample_underlay 1 ''a''))))"

definition no_close_error :: "nat \<Rightarrow> err option" where
  "no_close_error i = None"

lemma secret_of_sample [simp]: "secret_of (sample_underlay i t) = [1, 2, 3]" "uid (sample_underlay i t) = i"
  by (simp_all add: secret_of_def sample_underlay_def hget_def header_keys)

lemma sample_channel_simps [simp]:
  "entries (underlays sample_channel) = [sample_underlay 1 ''a'']" "flagClosed sample_channel = False"
  "closedU sample_channel = {}" "groupSecret sample_channel = [1, 2, 3]" "isMultiUnderlayCapable sample_channel"
  "fallbackUnderlay sample_channel = sample_underlay 1 ''a''" "closeNotifyC sample_channel = False"
  by (simp_all add: sample_channel_def startMultiplex_def isMultiUnderlayCapable_def)
    (simp_all add: sample_config_def initialImpl_def)

lemma sample_new: "NewChannel no_close_error sample_config = Inr (None, Some sample_channel)"
proof -
  have "groupSecret (initialImpl sample_config (sample_underlay 1 ''a'')) \<noteq> []" by simp
  then show ?thesis
    by (simp add: NewChannel_def sample_channel_def Let_def del: initialImpl_simps)
      (simp add: sample_config_def bind_channel_def)
qed

lemma registers_only_None: "registers_only None"
  unfolding registers_only_def
proof
  fix ch :: channelImpl
  have "bind_channel None ch = (None, ch\<lparr>peekHandlers := peekHandlers ch, transformHandlers := transformHandlers ch,
      receiveHandlers := receiveHandlers ch, errorHandlers := errorHandlers ch, closeHandlers := closeHandlers ch,
      userData := userData ch\<rparr>)"
    by (simp add: bind_channel_def)
  then show "\<exists>ph th rh eh clh ud. bind_channel None ch =
     (None, ch\<lparr>peekHandlers := ph, transformHandlers := th, receiveHandlers := rh, errorHandlers := eh,
               closeHandlers := clh, userData := ud\<rparr>)" by blast
qed

lemma sample_reached: "reach (new_state no_close_error) (ch_step no_close_error) (sample_channel, [])"
  using sample_new registers_only_None by (intro reach_init) (auto simp: new_state_def sample_config_def)

lemma sample_closed_reached:
  "reach (new_state no_close_error) (ch_step no_close_error) (closed_channel sample_channel, [])"
proof -
  obtain e where "Close no_close_error sample_channel = Inr (e, closed_channel sample_channel)"
    by (cases rule: Close_cases [of sample_channel no_close_error]) simp_all
  with sample_reached show ?thesis by (blast intro: reach_step step_close)
qed

section \<open>Properties of the channel's life\<close>

text \<open>
  C23. Admission of an underlay: it succeeds exactly when the channel can grow, the underlay
  carries the channel's group secret and the channel is open; then the underlay becomes the last
  member and the fallback, and its goroutines are started. A refused underlay is closed and
  nothing else changes.
\<close>

theorem AcceptUnderlay_admission:
  "case AcceptUnderlay uclose u ch of (e, ch') \<Rightarrow>
     (e = None \<longleftrightarrow> isMultiUnderlayCapable ch \<and> secret_of u = groupSecret ch \<and> \<not> flagClosed ch) \<and>
     (if e = None
      then entries (underlays ch') = entries (underlays ch) @ [u] \<and> fallbackUnderlay ch' = u \<and>
        closedU ch' = closedU ch \<and> last (trace ch') = EvGoMultiplex (uid u)
      else ch' = ch\<lparr>closedU := insert (uid u) (closedU ch)\<rparr>)"
  by (cases rule: AcceptUnderlay_cases [of uclose u ch]) (auto simp: snd_closeU startMultiplex_def)

text \<open>
  C8. In every interleaving of accepting, closing, failing, receiving, transmitting and
  constraint checks: closing the channel never panics (its close channel is closed exactly once),
  and a closed channel has closed every underlay it still holds, so none leaks.
\<close>

theorem channel_closes_cleanly:
  assumes "reach (new_state uclose) (ch_step uclose) (ch, pend)"
  shows "Close uclose ch \<noteq> Inl GoPanic \<and> (flagClosed ch \<longrightarrow> uid ` set (entries (underlays ch)) \<subseteq> closedU ch)"
  using channel.reach_inv [OF assms]
  by (cases rule: Close_cases [of ch uclose]) (auto simp: chan_inv_def)

theorem channel_closes_cleanly_witness:
  "Close no_close_error (closed_channel sample_channel) \<noteq> Inl GoPanic \<and>
   uid ` set (entries (underlays (closed_channel sample_channel))) \<subseteq> closedU (closed_channel sample_channel)"
  using channel_closes_cleanly [OF sample_closed_reached] by simp

text \<open>
  C20. Without the secret nobody joins: in every reachable state of a channel that can grow, the
  group secret is not empty and every member presented exactly that secret.
\<close>

theorem members_have_group_secret:
  assumes "reach (new_state uclose) (ch_step uclose) (ch, pend)" "isMultiUnderlayCapable ch"
  shows "groupSecret ch \<noteq> [] \<and> (\<forall>u\<in>set (entries (underlays ch)). hget (uHeaders u) GroupSecretHeader = groupSecret ch)"
  using channel.reach_inv [OF assms(1)] assms(2) by (auto simp: chan_inv_def secret_of_def)

theorem members_have_group_secret_witness:
  "hget (uHeaders (sample_underlay 1 ''a'')) GroupSecretHeader = groupSecret sample_channel \<and> groupSecret sample_channel \<noteq> []"
  using members_have_group_secret [OF sample_reached] by simp

text \<open>
  C21. Closing is final: once closed, a channel stays closed under every further step and never
  gains a member.
\<close>

theorem close_is_final:
  assumes "reach (new_state uclose) (ch_step uclose) (ch, pend)" "ch_step uclose (ch, pend) (ch', pend')" "flagClosed ch"
  shows "flagClosed ch' \<and> set (entries (underlays ch')) \<subseteq> set (entries (underlays ch))"
proof -
  have d: "distinct (map uid (entries (underlays ch)))" using channel.reach_inv [OF assms(1)] by (simp add: chan_inv_def)
  have keep: "flagClosed c' \<and> entries (underlays c') = entries (underlays ch)" if "maybe_closed ch c'" for c'
    using that assms(3) by (auto simp: maybe_closed_def same_members_def)
  from assms(2) show ?thesis
  proof cases
    case (step_accept u e)
    with assms(3) show ?thesis
      by (cases rule: AcceptUnderlay_cases [of uclose u ch]) (auto simp: snd_closeU)
  next
    case (step_remove now u)
    from closeUnderlay_remove_elim [OF step_remove(2) d] obtain c where mc: "maybe_closed c ch'"
      and c: "c = ch\<lparr>closedU := insert (uid u) (closedU ch), notified := insert (uid u) (notified ch),
            underlays := (underlays ch)\<lparr>entries := filter (\<lambda>e. uid e \<noteq> uid u) (entries (underlays ch))\<rparr>\<rparr>"
      by blast
    have "flagClosed ch'" "entries (underlays ch') = filter (\<lambda>e. uid e \<noteq> uid u) (entries (underlays ch))"
      using mc assms(3) by (auto simp: maybe_closed_def same_members_def c)
    then show ?thesis by simp
  next
    case (step_check ks b v)
    then have "maybe_closed ch ch'" by (auto simp: checkConstraintsValid_def dest: maybe_closed_countsShowValidState)
    from keep [OF this] show ?thesis by simp
  next
    case (step_close e)
    from keep [OF maybe_closed_Close [OF step_close(2)]] show ?thesis by simp
  next
    case (step_rx now ks m)
    from keep [OF maybe_closed_rx [OF step_rx(2)]] show ?thesis by simp
  next
    case (step_tx env now u x s wt e)
    from keep [OF maybe_closed_tx [OF step_tx(2)]] show ?thesis by simp
  next
    case (step_fallback pre u post)
    with assms(3) show ?thesis by (simp add: closeUnderlay_fallback_def Let_def)
  qed
qed

theorem close_is_final_witness:
  "flagClosed (snd (AcceptUnderlay no_close_error (sample_underlay 2 ''b'') (closed_channel sample_channel))) \<and>
   set (entries (underlays (snd (AcceptUnderlay no_close_error (sample_underlay 2 ''b'') (closed_channel sample_channel)))))
     \<subseteq> set (entries (underlays (closed_channel sample_channel)))"
proof (rule close_is_final [OF sample_closed_reached])
  show "ch_step no_close_error (closed_channel sample_channel, [])
      (snd (AcceptUnderlay no_close_error (sample_underlay 2 ''b'') (closed_channel sample_channel)), [])"
    by (rule step_accept [where u = "sample_underlay 2 ''b''" and
          e = "fst (AcceptUnderlay no_close_error (sample_underlay 2 ''b'') (closed_channel sample_channel))"]) simp_all
qed simp

text \<open>
  The underlay that identity queries go to is a live member: whenever no
  \<^verbatim>\<open>closeUnderlay\<close> is between its two phases and the channel has members, the fallback is
  one of them.
\<close>

theorem fallback_is_member:
  assumes "reach (new_state uclose) (ch_step uclose) (ch, [])" "entries (underlays ch) \<noteq> []"
  shows "uid (fallbackUnderlay ch) \<in> uid ` set (GetAll (underlays ch))"
  using channel.reach_inv [OF assms(1)] assms(2) by (simp add: chan_inv_def GetAll_def)

theorem fallback_is_member_witness:
  "uid (fallbackUnderlay sample_channel) \<in> uid ` set (GetAll (underlays sample_channel))"
  by (rule fallback_is_member [OF sample_reached]) simp

text \<open>
  A simple channel does not outlive its underlay: a channel that cannot grow is closed in
  every reachable state in which it has no member left.
\<close>

theorem simple_channel_closes_with_last_underlay:
  assumes "reach (new_state uclose) (ch_step uclose) (ch, pend)" "\<not> isMultiUnderlayCapable ch" "GetAll (underlays ch) = []"
  shows "IsClosed ch"
  using channel.reach_inv [OF assms(1)] assms(2,3) by (auto simp: chan_inv_def GetAll_def IsClosed_def)

definition sample_simple_config :: config where
  "sample_simple_config = sample_config\<lparr>cfgMinTotalUnderlays := 0\<rparr>"

definition sample_simple_channel :: channelImpl where
  "sample_simple_channel = emit [EvGoApplyConstraints]
     (startMultiplex (sample_underlay 1 ''a'') (addUnderlay (sample_underlay 1 ''a'')
       (initialImpl sample_simple_config (sample_underlay 1 ''a''))))"

lemma sample_simple_channel_simps [simp]:
  "underlays sample_simple_channel = \<lparr>entries = [sample_underlay 1 ''a''], listeners = [selfListener]\<rparr>"
  "flagClosed sample_simple_channel = False" "\<not> isMultiUnderlayCapable sample_simple_channel"
  "closeNotifyC sample_simple_channel = False" "dialPolicy sample_simple_channel = False"
  by (simp_all add: sample_simple_channel_def startMultiplex_def isMultiUnderlayCapable_def emit_def addUnderlay_def
      Add_underlay_def sample_simple_config_def sample_config_def initialImpl_def AddListener_def NewUnderlays_def)

lemma sample_simple_reached: "reach (new_state no_close_error) (ch_step no_close_error) (sample_simple_channel, [])"
proof (rule reach_init)
  have "NewChannel no_close_error sample_simple_config = Inr (None, Some sample_simple_channel)"
    by (simp add: NewChannel_def sample_simple_channel_def Let_def del: initialImpl_simps)
      (simp add: sample_simple_config_def sample_config_def bind_channel_def)
  with registers_only_None show "new_state no_close_error (sample_simple_channel, [])"
    by (auto simp: new_state_def sample_simple_config_def sample_config_def)
qed

theorem simple_channel_closes_with_last_underlay_witness:
  "\<exists>ch pend. reach (new_state no_close_error) (ch_step no_close_error) (ch, pend) \<and> \<not> isMultiUnderlayCapable ch \<and>
     GetAll (underlays ch) = [] \<and> IsClosed ch"
proof -
  let ?u = "sample_underlay 1 ''a''"
  let ?c = "sample_simple_channel\<lparr>closedU := insert 1 (closedU sample_simple_channel),
      notified := insert 1 (notified sample_simple_channel), underlays := \<lparr>entries = [], listeners = [selfListener]\<rparr>\<rparr>"
  have c: "flagClosed ?c = False" "closeNotifyC ?c = False" "\<not> isMultiUnderlayCapable ?c" "dialPolicy ?c = False"
    using sample_simple_channel_simps(3) by (simp_all add: isMultiUnderlayCapable_def)
  then obtain e where e: "Close no_close_error ?c = Inr (e, closed_channel ?c)"
    by (cases rule: Close_cases [of ?c no_close_error]) simp_all
  have "closeUnderlay_remove no_close_error 0 ?u sample_simple_channel =
      notifyListeners no_close_error 0 [UnderlayRemoved selfListener ?u] ?c"
    by (simp add: closeUnderlay_remove_def Remove_underlay_def snd_closeU)
  also have "\<dots> = Inr (closed_channel ?c)"
    using c(3,4) e by (simp add: channelUnderlayRemoved_def GetAll_def del: One_nat_def)
  finally have "ch_step no_close_error (sample_simple_channel, []) (closed_channel ?c, [?u])"
    by (rule step_remove)
  with sample_simple_reached have r: "reach (new_state no_close_error) (ch_step no_close_error) (closed_channel ?c, [?u])"
    by (rule reach_step)
  have "\<not> isMultiUnderlayCapable (closed_channel ?c)" "GetAll (underlays (closed_channel ?c)) = []"
    using c(3) by (simp_all add: isMultiUnderlayCapable_def GetAll_def)
  with r simple_channel_closes_with_last_underlay [OF r] show ?thesis by blast
qed

end
