(* ===== verification/Channel_IO.thy ===== *)
theory Channel_IO
  imports Envelopes Channel_Lifecycle
begin

text \<open>
  Sending and receiving on a channel: what a transmission does to the waiters and which calls
  it makes to the send listener, in every outcome; how an incoming message is dispatched; and
  that the envelopes survive every sequence of calls that transmissions, retries included, make.
\<close>

section \<open>Outcomes of a transmission\<close>

datatype tx_outcome =
    Expired err
  | NoMessage
  | TimeoutNotSet err
  | Requeued err
  | WriteFailed err
  | Written

definition tx_outcome_of :: "tx_env \<Rightarrow> Sendable \<Rightarrow> int64 \<Rightarrow> tx_outcome" where
  "tx_outcome_of env s writeTimeout =
     (case cerr (writeContext s) of
        Some e \<Rightarrow> Expired e
      | None \<Rightarrow>
          if Msg s = None then NoMessage
          else case (if sint writeTimeout > 0 then setWriteTimeout env else None) of
            Some e \<Rightarrow> TimeoutNotSet e
          | None \<Rightarrow>
              (case txWrite env of
                 None \<Rightarrow> Written
               | Some e \<Rightarrow> if handleTxFailed env then Requeued e else WriteFailed e))"

fun outcome_error :: "tx_outcome \<Rightarrow> err option" where
  "outcome_error (TimeoutNotSet e) = Some e"
| "outcome_error (Requeued e) = Some e"
| "outcome_error (WriteFailed e) = Some e"
| "outcome_error _ = None"

fun outcome_calls :: "tx_outcome \<Rightarrow> listener_call list" where
  "outcome_calls (Expired e) = [CallErr (TimeoutError e)]"
| "outcome_calls NoMessage = [CallBeforeWrite]"
| "outcome_calls (TimeoutNotSet e) = [CallBeforeWrite, CallErr e]"
| "outcome_calls (Requeued e) = [CallBeforeWrite]"
| "outcome_calls (WriteFailed e) = [CallBeforeWrite, CallErr e, CallAfterWrite]"
| "outcome_calls Written = [CallBeforeWrite, CallAfterWrite]"

text \<open>The calls to the listener of sendable \<open>i\<close> in a trace.\<close>

fun call_of :: "nat \<Rightarrow> ch_event \<Rightarrow> listener_call list" where
  "call_of i (EvNotifyErr j e) = (if j = i then [CallErr e] else [])"
| "call_of i (EvNotifyBeforeWrite j) = (if j = i then [CallBeforeWrite] else [])"
| "call_of i (EvNotifyAfterWrite j) = (if j = i then [CallAfterWrite] else [])"
| "call_of i _ = []"

definition calls_in :: "nat \<Rightarrow> ch_event list \<Rightarrow> listener_call list" where
  "calls_in i evs = concat (map (call_of i) evs)"

lemma calls_in_simps [simp]:
  "calls_in i [] = []" "calls_in i (e # evs) = call_of i e @ calls_in i evs"
  "calls_in i (a @ b) = calls_in i a @ calls_in i b"
  by (simp_all add: calls_in_def)

lemma calls_in_handlers [simp]:
  "calls_in i (map (\<lambda>h. EvPeekTx h m) hs) = []" "calls_in i (map (\<lambda>h. EvHandleError h e) hs) = []"
  by (simp_all add: calls_in_def)

text \<open>The message and the sendable as the transform handlers leave them.\<close>

definition tx_message :: "channelImpl \<Rightarrow> Message \<Rightarrow> Message" where
  "tx_message ch m = fold snd (transformHandlers ch) m"

definition tx_sendable :: "channelImpl \<Rightarrow> Sendable \<Rightarrow> Sendable" where
  "tx_sendable ch s = s\<lparr>Msg := map_option (tx_message ch) (Msg s)\<rparr>"

text \<open>A transmission, outcome by outcome: its error, its listener calls and its waiters.\<close>

definition tx_waiters :: "tx_outcome \<Rightarrow> int64 \<Rightarrow> Sendable \<Rightarrow> waiterMap \<Rightarrow> waiterMap \<Rightarrow> bool" where
  "tx_waiters oc now s ws ws' =
     (case oc of
        Expired e \<Rightarrow> ws' = ws
      | NoMessage \<Rightarrow> ws' = ws
      | TimeoutNotSet e \<Rightarrow> AddWaiter now s ws = Inr ws'
      | Written \<Rightarrow> AddWaiter now s ws = Inr ws'
      | Requeued e \<Rightarrow> \<exists>ws1 r. AddWaiter now s ws = Inr ws1 \<and> RemoveWaiter (sequence (the (Msg s))) ws1 = Inr (r, ws')
      | WriteFailed e \<Rightarrow> \<exists>ws1 r. AddWaiter now s ws = Inr ws1 \<and> RemoveWaiter (sequence (the (Msg s))) ws1 = Inr (r, ws'))"

lemma tx_spec:
  assumes "tx env now u t s wt ch = Inr (e, ch')"
  shows "(\<exists>evs. trace ch' = trace ch @ evs \<and> calls_in (sid s) evs = outcome_calls (tx_outcome_of env s wt)) \<and>
    e = outcome_error (tx_outcome_of env s wt) \<and>
    tx_waiters (tx_outcome_of env s wt) now (tx_sendable ch s) (waiters ch) (waiters ch')"
proof (cases "cerr (writeContext s)")
  case (Some x)
  with assms show ?thesis by (auto simp: tx_def tx_outcome_of_def tx_waiters_def)
next
  case ctx: None
  show ?thesis
  proof (cases "Msg s")
    case None
    with assms ctx show ?thesis by (auto simp: tx_def tx_outcome_of_def tx_waiters_def Let_def)
  next
    case (Some m)
    define T where "T = (if sint wt > 0 then setWriteTimeout env else None)"
    note msg = Some and defs = tx_def tx_outcome_of_def T_def [symmetric] rbind_eq_Inr Let_def tx_waiters_def
      tx_sendable_def tx_message_def
    show ?thesis
    proof (cases T)
      case (Some x)
      with assms ctx msg show ?thesis by (auto simp: defs)
    next
      case timeout: None
      show ?thesis
      proof (cases "txWrite env")
        case None
        with assms ctx msg timeout show ?thesis by (auto simp: defs)
      next
        case (Some x)
        with assms ctx msg timeout show ?thesis by (cases "handleTxFailed env") (auto simp: defs)
      qed
    qed
  qed
qed

text \<open>A transmission only panics when the waiter table does.\<close>

lemma tx_total:
  assumes "wf_waiters (waiters ch)" "\<And>m. Msg (tx_sendable ch s) = Some m \<Longrightarrow> wm (waiters ch) (sequence m) = None"
  shows "\<exists>e ch'. tx env now u t s wt ch = Inr (e, ch')"
proof (cases "Msg s")
  case None
  then show ?thesis by (auto simp: tx_def Let_def split: option.splits)
next
  case (Some m)
  let ?s = "s\<lparr>Msg := Some (fold snd (transformHandlers ch) m)\<rparr>"
  obtain ws where ws: "AddWaiter now ?s (waiters ch) = Inr ws"
    by (cases "ReplyReceiver ?s") (simp_all add: AddWaiter_def Let_def)
  have "wf_waiters ws"
    using assms Some by (intro wf_AddWaiter [OF _ ws]) (auto simp: tx_sendable_def tx_message_def domIff)
  then obtain r ws' where "RemoveWaiter (sequence (fold snd (transformHandlers ch) m)) ws = Inr (r, ws')"
    by (cases rule: RemoveWaiter_elim) auto
  with Some ws show ?thesis by (auto simp: tx_def Let_def split: option.splits)
qed

lemma remove_added:
  assumes "AddWaiter now s ws = Inr ws1" "RemoveWaiter (sequence (the (Msg s))) ws1 = Inr (r, ws2)"
    and "wf_waiters ws" "wm ws (sequence (the (Msg s))) = None"
  shows "ws2 = ws"
proof (cases "ReplyReceiver s")
  case None
  with assms show ?thesis by (simp add: AddWaiter_def RemoveWaiter_def)
next
  case (Some rr)
  have "(wm ws)(k := None) = wm ws" if "wm ws k = None" for k using that by (rule fun_upd_idem)
  with Some assms show ?thesis
    by (auto simp: AddWaiter_def RemoveWaiter_def storeWaiter_def Let_def split: option.splits)
qed

section \<open>Envelope safety\<close>

text \<open>
  The attempts to write one sendable: every attempt but the last was queued again, the last one
  was not. \<open>attempt_calls\<close> are the listener calls of the whole sequence.
\<close>

fun is_requeued :: "tx_outcome \<Rightarrow> bool" where
  "is_requeued (Requeued e) = True"
| "is_requeued _ = False"

definition attempts :: "tx_outcome list \<Rightarrow> bool" where
  "attempts ocs \<longleftrightarrow> ocs \<noteq> [] \<and> list_all is_requeued (butlast ocs) \<and> \<not> is_requeued (last ocs)"

definition attempt_calls :: "tx_outcome list \<Rightarrow> listener_call list" where
  "attempt_calls ocs = concat (map outcome_calls ocs)"

lemma listener_run_append:
  "listener_run k (a @ b) env =
     (case listener_run k a env of Proceeds env' \<Rightarrow> listener_run k b env' | Blocks \<Rightarrow> Blocks | Panics \<Rightarrow> Panics)"
  by (induction a arbitrary: env) (auto split: outcome.splits)

lemma requeued_calls: "list_all is_requeued ocs \<Longrightarrow> listener_run k (attempt_calls ocs) env = Proceeds env"
proof (induction ocs)
  case (Cons oc ocs)
  then show ?case by (cases oc) (simp_all add: attempt_calls_def)
qed (simp add: attempt_calls_def)

lemma attempts_run:
  assumes "attempts ocs"
  shows "listener_run k (attempt_calls ocs) env = listener_run k (outcome_calls (last ocs)) env"
proof -
  have "attempt_calls ocs = attempt_calls (butlast ocs) @ outcome_calls (last ocs)"
    using assms append_butlast_last_id [of ocs]
    by (metis attempt_calls_def attempts_def concat.simps concat_append list.simps(8,9) map_append self_append_conv)
  with assms requeued_calls [of "butlast ocs" k env] show ?thesis
    by (simp add: listener_run_append attempts_def)
qed

section \<open>Properties of sending\<close>

text \<open>
  The listener of a sendable is told the truth, and safely: in every transmission its calls
  are those of the outcome. The write is announced before it is made, an error is reported exactly
  when the sendable was not written and will not be tried again, and after the final notification
  there is no further call; the error returned to the transmit loop is that of the transport.
\<close>

theorem tx_listener_calls:
  assumes "tx env now u t s wt ch = Inr (e, ch')"
  shows "\<exists>evs. trace ch' = trace ch @ evs \<and> calls_in (sid s) evs = outcome_calls (tx_outcome_of env s wt) \<and>
    e = outcome_error (tx_outcome_of env s wt)"
  using tx_spec [OF assms] by blast

definition sample_tx_env :: tx_env where
  "sample_tx_env = \<lparr>setWriteTimeout = None, txWrite = Some ErrNetClosed, handleTxFailed = False\<rparr>"

lemma sample_tx_runs:
  "\<exists>e ch'. tx sample_tx_env 100 (sample_underlay 1 ''a'') ''a'' (sample_request 7) 0 sample_channel = Inr (e, ch')"
proof (rule tx_total)
  show "wf_waiters (waiters sample_channel)"
    by (simp add: sample_channel_def startMultiplex_def addUnderlay_def Add_underlay_def initialImpl_def)
  show "wm (waiters sample_channel) (sequence m) = None" for m
    by (simp add: sample_channel_def startMultiplex_def addUnderlay_def Add_underlay_def initialImpl_def empty_waiters_def)
qed

theorem tx_listener_calls_witness:
  "\<exists>e ch' evs. tx sample_tx_env 100 (sample_underlay 1 ''a'') ''a'' (sample_request 7) 0 sample_channel = Inr (e, ch') \<and>
     trace ch' = trace sample_channel @ evs \<and>
     calls_in 3 evs = [CallBeforeWrite, CallErr ErrNetClosed, CallAfterWrite] \<and> e = Some ErrNetClosed"
proof -
  obtain e ch' where run: "tx sample_tx_env 100 (sample_underlay 1 ''a'') ''a'' (sample_request 7) 0 sample_channel = Inr (e, ch')"
    using sample_tx_runs by blast
  have "tx_outcome_of sample_tx_env (sample_request 7) 0 = WriteFailed ErrNetClosed"
    by (simp add: tx_outcome_of_def sample_tx_env_def sample_request_def writeContext_def Background_def)
  with tx_listener_calls [OF run] run show ?thesis by (auto simp: sample_request_def)
qed







text \<open>
  The exception: when the write timeout cannot be set, the sendable is told the error and
  nothing is written, but its waiter stays in the table (until a reap or the channel's close),
  unlike on every other failure.
\<close>

theorem tx_timeout_failure_leaks_waiter:
  assumes "tx env now u t s wt ch = Inr (e, ch')" "wf_waiters (waiters ch)" "Msg s = Some m" "ReplyReceiver s = Some r"
    and "tx_outcome_of env s wt = TimeoutNotSet x"
  shows "e = Some x \<and> fst (takeWaiter (sequence (tx_message ch m)) (waiters ch')) = Some r"
proof -
  have "AddWaiter now (tx_sendable ch s) (waiters ch) = Inr (waiters ch')" "e = Some x"
    using tx_spec [OF assms(1)] assms(5) by (auto simp: tx_waiters_def)
  with takeWaiter_AddWaiter [OF _ assms(2), of now "tx_sendable ch s"] assms(3,4) show ?thesis
    by (simp add: tx_sendable_def ReplyReceiver_def split: if_splits)
qed

theorem tx_timeout_failure_leaks_waiter_witness:
  "\<exists>e ch'. tx \<lparr>setWriteTimeout = Some ErrNetClosed, txWrite = None, handleTxFailed = False\<rparr> 100 (sample_underlay 1 ''a'') ''a''
      (sample_request 7) 5 sample_channel = Inr (e, ch') \<and> fst (takeWaiter 7 (waiters ch')) = Some 3"
proof -
  let ?env = "\<lparr>setWriteTimeout = Some ErrNetClosed, txWrite = None, handleTxFailed = False\<rparr>"
  have w: "waiters sample_channel = empty_waiters" "transformHandlers sample_channel = []"
    by (simp_all add: sample_channel_def startMultiplex_def addUnderlay_def Add_underlay_def initialImpl_def)
  then obtain e ch' where run: "tx ?env 100 (sample_underlay 1 ''a'') ''a'' (sample_request 7) 5 sample_channel = Inr (e, ch')"
    using tx_total [of sample_channel "sample_request 7" ?env 100 "sample_underlay 1 ''a''" "''a''" 5]
    by auto
  have "tx_outcome_of ?env (sample_request 7) 5 = TimeoutNotSet ErrNetClosed"
    by (simp add: tx_outcome_of_def sample_request_def writeContext_def Background_def)
  with tx_timeout_failure_leaks_waiter [OF run, of "SetSequence 7 (NewMessage 5 [])" 3 ErrNetClosed] w run show ?thesis
    by (auto simp: sample_request_def ReplyReceiver_def tx_message_def SetSequence_def NewMessage_def)
qed

section \<open>Properties of receiving\<close>

text \<open>The message the handlers see, and where it goes when no waiter takes it.\<close>

definition rx_message :: "channelImpl \<Rightarrow> Message \<Rightarrow> Message" where
  "rx_message ch m = cacheReplyFor (fold fst (transformHandlers ch) m)"

definition handler_event :: "channelImpl \<Rightarrow> Message \<Rightarrow> ch_event" where
  "handler_event ch m =
     (case receiveHandlers ch (ContentType m) of
        Some h \<Rightarrow> EvReceive h m
      | None \<Rightarrow> (case receiveHandlers ch AnyContentType of Some h \<Rightarrow> EvReceive h m | None \<Rightarrow> EvDropped m))"

text \<open>The waiters that a reply is matched against: every hundredth reply reaps a crowded table first.\<close>

definition rx_waiters :: "int64 \<Rightarrow> int32 list \<Rightarrow> channelImpl \<Rightarrow> waiterMap" where
  "rx_waiters now ks ch =
     (if (replyCounter ch + 1) mod 100 = 0 \<and> sint (wsize (waiters ch)) > 1000
      then reapExpired now ks (waiters ch) else waiters ch)"

definition destination :: "waiterMap \<Rightarrow> channelImpl \<Rightarrow> Message \<Rightarrow> ch_event" where
  "destination ws ch m =
     (case (if IsReply m then fst (takeWaiter (ReplyFor m) ws) else None) of
        Some r \<Rightarrow> EvAcceptReply r m
      | None \<Rightarrow> handler_event ch m)"

lemma dispatch_eq: "dispatch m ch = emit [handler_event ch m] ch"
  by (simp add: dispatch_def handler_event_def split: option.splits)

lemma IsReply_cached [simp]: "IsReply (cacheReplyFor m) = IsReply m" "ReplyFor (cacheReplyFor m) = ReplyFor m"
  by (simp_all add: IsReply_def ReplyFor_def)

lemma handler_event_upd [simp]:
  "handler_event (ch\<lparr>waiters := ws\<rparr>) m = handler_event ch m" "handler_event (ch\<lparr>replyCounter := n\<rparr>) m = handler_event ch m"
  "handler_event (ch\<lparr>lastRead := k\<rparr>) m = handler_event ch m" "handler_event (emit evs ch) m = handler_event ch m"
  by (simp_all add: handler_event_def split: option.splits)

lemma wf_rx_waiters:
  "wf_waiters (waiters ch) \<Longrightarrow> enumerates ks (wm (waiters ch)) \<Longrightarrow> wf_waiters (rx_waiters now ks ch)"
  by (simp add: rx_waiters_def wf_reapExpired)

text \<open>A reception: its events and its waiters.\<close>

lemma rx_spec:
  assumes "wf_waiters (waiters ch)" "enumerates ks (wm (waiters ch))"
  shows "\<exists>ch'. rx now ks m ch = Inr ch' \<and>
    trace ch' = trace ch @ map (\<lambda>h. EvPeekRx h (fold fst (transformHandlers ch) m)) (peekHandlers ch) @
      [destination (rx_waiters now ks ch) ch (rx_message ch m)] \<and>
    waiters ch' = (if IsReply (rx_message ch m)
      then snd (takeWaiter (ReplyFor (rx_message ch m)) (rx_waiters now ks ch)) else waiters ch)"
proof (cases "IsReply (fold fst (transformHandlers ch) m)")
  case False
  then show ?thesis
    by (simp add: rx_def rx_message_def destination_def Let_def dispatch_eq)
next
  case True
  obtain r ws where rm: "RemoveWaiter (ReplyFor (rx_message ch m)) (rx_waiters now ks ch) = Inr (r, ws)"
    using wf_rx_waiters [OF assms] by (cases rule: RemoveWaiter_elim) auto
  then have tw: "takeWaiter (ReplyFor (rx_message ch m)) (rx_waiters now ks ch) = (r, ws)"
    by (simp add: takeWaiter_def)
  show ?thesis
  proof (cases "(replyCounter ch + 1) mod 100 = 0 \<and> sint (wsize (waiters ch)) > 1000")
    case reap: True
    then have "rx_waiters now ks ch = reapExpired now ks (waiters ch)" by (simp add: rx_waiters_def)
    with True reap rm tw show ?thesis
      by (cases r) (simp_all add: rx_def rx_message_def destination_def Let_def dispatch_eq)
  next
    case no_reap: False
    then have "rx_waiters now ks ch = waiters ch" by (auto simp: rx_waiters_def)
    with True no_reap rm tw show ?thesis
      by (cases r) (auto simp: rx_def rx_message_def destination_def Let_def dispatch_eq)
  qed
qed

text \<open>
  C17. Every incoming message goes to exactly one place: all peek handlers see it in order, then a
  reply whose sequence number has a waiter goes to that waiter, and only there; any other message
  goes to the handler of its content type, else to the handler of every content type, else it is
  dropped. Receiving never panics and takes no waiter but the matched one.
\<close>

theorem rx_dispatches_once:
  assumes "wf_waiters (waiters ch)" "enumerates ks (wm (waiters ch))"
  shows "\<exists>ch'. rx now ks m ch = Inr ch' \<and>
    trace ch' = trace ch @ map (\<lambda>h. EvPeekRx h (fold fst (transformHandlers ch) m)) (peekHandlers ch) @
      [destination (rx_waiters now ks ch) ch (rx_message ch m)] \<and>
    waiters ch' = (if IsReply (rx_message ch m)
      then snd (takeWaiter (ReplyFor (rx_message ch m)) (rx_waiters now ks ch)) else waiters ch)"
  using rx_spec [OF assms] .

theorem rx_dispatches_once_witness:
  "\<exists>ch'. rx 5 [] (ReplyTo (SetSequence 7 (NewMessage 5 [])) (NewMessage 2 [])) sample_channel = Inr ch' \<and>
     last (trace ch') = EvDropped (rx_message sample_channel (ReplyTo (SetSequence 7 (NewMessage 5 [])) (NewMessage 2 [])))"
proof -
  have w: "waiters sample_channel = empty_waiters" "receiveHandlers sample_channel = Map.empty" "replyCounter sample_channel = 0"
    by (simp_all add: sample_channel_def startMultiplex_def addUnderlay_def Add_underlay_def initialImpl_def)
  have "wf_waiters (waiters sample_channel)" "enumerates [] (wm (waiters sample_channel))"
    by (simp_all add: w enumerates_def)
  from rx_dispatches_once [OF this, of 5 "ReplyTo (SetSequence 7 (NewMessage 5 [])) (NewMessage 2 [])"] w
  show ?thesis
    by (auto simp: destination_def handler_event_def rx_waiters_def takeWaiter_fst split: option.splits if_splits)
qed

end
