(* ===== verification/Conn_Underlays.thy ===== *)
theory Conn_Underlays
  imports Wire
begin

text \<open>
  The underlays over a connection: \<^verbatim>\<open>classic_impl.go\<close>, \<^verbatim>\<open>existing_conn_impl.go\<close>,
  \<^verbatim>\<open>ws_impl.go\<close> (streams), \<^verbatim>\<open>datagram_underlay.go\<close> (packets) and
  \<^verbatim>\<open>websockets/ws_underlay.go\<close>. The connection itself is the transport's: a reader of
  what the peer sent, the bytes written so far, and the answers of the transport to a write and
  to a close as arguments. The locale \<open>closeable_underlay\<close> is the part of the
  \<^verbatim>\<open>Underlay\<close> contract all of them share.
\<close>

section \<open>Connections\<close>

record conn =
  cin :: reader
  cout :: bytes
  cshut :: bool

text \<open>
  \<^verbatim>\<open>net.Conn.Write\<close>: without an error all bytes are written; with one, some first
  \<open>n\<close> of them.
\<close>

definition conn_Write :: "(nat \<times> err) option \<Rightarrow> bytes \<Rightarrow> conn \<Rightarrow> err option \<times> conn" where
  "conn_Write w b c =
     (if cshut c then (Some ErrNetClosed, c)
      else case w of
        None \<Rightarrow> (None, c\<lparr>cout := cout c @ b\<rparr>)
      | Some (n, e) \<Rightarrow> (Some e, c\<lparr>cout := cout c @ take n b\<rparr>))"

definition conn_Close :: "err option \<Rightarrow> conn \<Rightarrow> err option \<times> conn" where
  "conn_Close e c = (e, c\<lparr>cin := \<lparr>chunks = [], rfinal = ErrNetClosed\<rparr>, cshut := True\<rparr>)"

definition conn_read :: "(reader \<Rightarrow> 'a \<times> reader) \<Rightarrow> conn \<Rightarrow> 'a \<times> conn" where
  "conn_read f c = (case f (cin c) of (x, r) \<Rightarrow> (x, c\<lparr>cin := r\<rparr>))"

text \<open>One packet: a buffer that is large enough gets the whole packet, \<open>over\<close> is what the
  transport makes of a packet that is longer than the buffer.\<close>

definition conn_ReadPacket :: "(bytes \<Rightarrow> bytes res) \<Rightarrow> nat \<Rightarrow> conn \<Rightarrow> bytes res \<times> conn" where
  "conn_ReadPacket over n c =
     (case chunks (cin c) of
        [] \<Rightarrow> (Inl (rfinal (cin c)), c)
      | p # ps \<Rightarrow> (if length p \<le> n then Inr p else over p, c\<lparr>cin := (cin c)\<lparr>chunks := ps\<rparr>\<rparr>))"

section \<open>Underlays\<close>

text \<open>
  The marshalling function of an underlay, with the iteration order of the message's headers;
  it also returns the message as it left it (\<^verbatim>\<open>MarshalV2\<close> stores the reply header).
\<close>

type_synonym marshal_fun = "int32 list \<Rightarrow> Message \<Rightarrow> (bytes \<times> Message) res"
type_synonym stream_read = "reader \<Rightarrow> Message res \<times> reader"
type_synonym packet_read = "bytes \<Rightarrow> Message res"

record MessageStrategy =
  GetMarshaller :: "marshal_fun option"
  GetStreamProducer :: "stream_read option"
  GetPacketProducer :: "packet_read option"

record ('i, 'r) conn_underlay =
  peer :: conn
  cu_id :: 'i
  cu_connectionId :: string
  cu_headers :: headers
  cu_closed :: bool
  readF :: 'r
  marshalF :: marshal_fun
  cu_createdAt :: int64

type_synonym classicImpl = "(string, stream_read) conn_underlay"
type_synonym DatagramUnderlay = "(string, packet_read) conn_underlay"

text \<open>The identity of these two is a pointer that is nil until the handshake sets it.\<close>

type_synonym existingConnImpl = "(string option, stream_read) conn_underlay"
type_synonym wsImpl = "(string option, stream_read) conn_underlay"

definition marshal_of :: "uint32 \<Rightarrow> marshal_fun" where
  "marshal_of version = (\<lambda>ks m. Inr (if version = 3 then marshalV3 ks m else MarshalV2 ks m))"

definition strategy_marshal :: "MessageStrategy option \<Rightarrow> marshal_fun \<Rightarrow> marshal_fun" where
  "strategy_marshal messageStrategy f =
     (case messageStrategy of
        None \<Rightarrow> f
      | Some s \<Rightarrow> (case GetMarshaller s of None \<Rightarrow> f | Some g \<Rightarrow> g))"

subsection \<open>Classic\<close>

definition newClassicImpl :: "MessageStrategy option \<Rightarrow> conn \<Rightarrow> uint32 \<Rightarrow> int64 \<Rightarrow> classicImpl" where
  "newClassicImpl messageStrategy p version now =
     \<lparr>peer = p, cu_id = [], cu_connectionId = [], cu_headers = Map.empty, cu_closed = False,
      readF = (case messageStrategy of
                 None \<Rightarrow> ReadV2
               | Some s \<Rightarrow> (case GetStreamProducer s of None \<Rightarrow> ReadV2 | Some f \<Rightarrow> f)),
      marshalF = strategy_marshal messageStrategy (marshal_of version),
      cu_createdAt = now\<rparr>"

definition classic_rxHello :: "classicImpl \<Rightarrow> Message res \<times> classicImpl" where
  "classic_rxHello impl =
     (case conn_read readHello (peer impl) of
        (m, p) \<Rightarrow> (m, impl\<lparr>peer := p, readF := ReadV2, marshalF := marshal_of 2\<rparr>))"

definition classic_Rx :: "classicImpl \<Rightarrow> Message res \<times> classicImpl" where
  "classic_Rx impl =
     (if cu_closed impl then (Inl (ErrText ''underlay closed''), impl)
      else case conn_read (readF impl) (peer impl) of (m, p) \<Rightarrow> (m, impl\<lparr>peer := p\<rparr>))"

definition classic_Tx :: "(nat \<times> err) option \<Rightarrow> int32 list \<Rightarrow> Message \<Rightarrow> classicImpl \<Rightarrow> err option \<times> classicImpl" where
  "classic_Tx w ks m impl =
     (if cu_closed impl then (Some (ErrText ''underlay closed''), impl)
      else case marshalF impl ks m of
        Inl e \<Rightarrow> (Some e, impl)
      | Inr (data, _) \<Rightarrow> (case conn_Write w data (peer impl) of (e, p) \<Rightarrow> (e, impl\<lparr>peer := p\<rparr>)))"

definition classic_Close :: "err option \<Rightarrow> classicImpl \<Rightarrow> err option \<times> classicImpl" where
  "classic_Close e impl =
     (if cu_closed impl then (None, impl)
      else case conn_Close e (peer impl) of (e, p) \<Rightarrow> (e, impl\<lparr>peer := p, cu_closed := True\<rparr>))"

definition classic_IsClosed :: "classicImpl \<Rightarrow> bool" where
  "classic_IsClosed impl = cu_closed impl"

definition classic_init :: "string \<Rightarrow> string \<Rightarrow> headers \<Rightarrow> classicImpl \<Rightarrow> classicImpl" where
  "classic_init i connectionId h impl = impl\<lparr>cu_id := i, cu_connectionId := connectionId, cu_headers := h\<rparr>"

subsection \<open>Datagram\<close>

definition newDatagramUnderlay :: "MessageStrategy option \<Rightarrow> conn \<Rightarrow> uint32 \<Rightarrow> int64 \<Rightarrow> DatagramUnderlay" where
  "newDatagramUnderlay messageStrategy p version now =
     \<lparr>peer = p, cu_id = [], cu_connectionId = [], cu_headers = Map.empty, cu_closed = False,
      readF = (case messageStrategy of
                 None \<Rightarrow> (\<lambda>buf. fst (ReadV2 (NewBuffer buf)))
               | Some s \<Rightarrow> (case GetPacketProducer s of None \<Rightarrow> (\<lambda>buf. fst (ReadV2 (NewBuffer buf))) | Some f \<Rightarrow> f)),
      marshalF = strategy_marshal messageStrategy (marshal_of version),
      cu_createdAt = now\<rparr>"

definition datagram_Rx :: "(bytes \<Rightarrow> bytes res) \<Rightarrow> DatagramUnderlay \<Rightarrow> Message res \<times> DatagramUnderlay" where
  "datagram_Rx over u =
     (case conn_ReadPacket over 2000 (peer u) of
        (r, p) \<Rightarrow> (rbind r (readF u), u\<lparr>peer := p\<rparr>))"

definition datagram_rxHello :: "(bytes \<Rightarrow> bytes res) \<Rightarrow> DatagramUnderlay \<Rightarrow> Message res \<times> DatagramUnderlay" where
  "datagram_rxHello over u = datagram_Rx over u"

definition datagram_Tx :: "(nat \<times> err) option \<Rightarrow> int32 list \<Rightarrow> Message \<Rightarrow> DatagramUnderlay \<Rightarrow> err option \<times> DatagramUnderlay" where
  "datagram_Tx w ks m u =
     (case marshalF u ks m of
        Inl e \<Rightarrow> (Some e, u)
      | Inr (data, _) \<Rightarrow> (case conn_Write w data (peer u) of (e, p) \<Rightarrow> (e, u\<lparr>peer := p\<rparr>)))"

definition datagram_Close :: "err option \<Rightarrow> DatagramUnderlay \<Rightarrow> err option \<times> DatagramUnderlay" where
  "datagram_Close e u =
     (if cu_closed u then (None, u)
      else case conn_Close e (peer u) of (e, p) \<Rightarrow> (e, u\<lparr>peer := p, cu_closed := True\<rparr>))"

definition datagram_init :: "string \<Rightarrow> string \<Rightarrow> headers \<Rightarrow> DatagramUnderlay \<Rightarrow> DatagramUnderlay" where
  "datagram_init i connectionId h u = u\<lparr>cu_id := i, cu_connectionId := connectionId, cu_headers := h\<rparr>"

definition DatagramMessageStrategy :: "packet_read \<Rightarrow> MessageStrategy" where
  "DatagramMessageStrategy producer =
     \<lparr>GetMarshaller = Some (\<lambda>ks m. Inr (MarshalV2WithRaw ks m)), GetStreamProducer = None, GetPacketProducer = Some producer\<rparr>"

subsection \<open>Existing connections\<close>

definition newExistingImpl :: "conn \<Rightarrow> uint32 \<Rightarrow> int64 \<Rightarrow> existingConnImpl" where
  "newExistingImpl p version now =
     \<lparr>peer = p, cu_id = None, cu_connectionId = [], cu_headers = Map.empty, cu_closed = False,
      readF = ReadV2, marshalF = marshal_of version, cu_createdAt = now\<rparr>"

definition existing_rxHello :: "existingConnImpl \<Rightarrow> Message res \<times> existingConnImpl" where
  "existing_rxHello impl =
     (case conn_read readHello (peer impl) of
        (m, p) \<Rightarrow> (m, impl\<lparr>peer := p, readF := ReadV2, marshalF := marshal_of 2\<rparr>))"

definition existing_Rx :: "existingConnImpl \<Rightarrow> Message res \<times> existingConnImpl" where
  "existing_Rx impl =
     (if cu_closed impl then (Inl (ErrText ''underlay closed''), impl)
      else case conn_read (readF impl) (peer impl) of (m, p) \<Rightarrow> (m, impl\<lparr>peer := p\<rparr>))"

definition existing_Tx :: "(nat \<times> err) option \<Rightarrow> int32 list \<Rightarrow> Message \<Rightarrow> existingConnImpl \<Rightarrow> err option \<times> existingConnImpl" where
  "existing_Tx w ks m impl =
     (if cu_closed impl then (Some (ErrText ''underlay closed''), impl)
      else case marshalF impl ks m of
        Inl e \<Rightarrow> (Some e, impl)
      | Inr (data, _) \<Rightarrow> (case conn_Write w data (peer impl) of (e, p) \<Rightarrow> (e, impl\<lparr>peer := p\<rparr>)))"

text \<open>\<^verbatim>\<open>Id\<close> dereferences the identity, which panics while it is nil.\<close>

definition existing_Id :: "existingConnImpl \<Rightarrow> string res" where
  "existing_Id impl = (case cu_id impl of None \<Rightarrow> Inl GoPanic | Some token \<Rightarrow> Inr token)"

definition existing_Close :: "err option \<Rightarrow> existingConnImpl \<Rightarrow> err option \<times> existingConnImpl" where
  "existing_Close e impl =
     (if cu_closed impl then (None, impl)
      else case conn_Close e (peer impl) of (e, p) \<Rightarrow> (e, impl\<lparr>peer := p, cu_closed := True\<rparr>))"

subsection \<open>Websocket transport\<close>

definition newWSImpl :: "conn \<Rightarrow> uint32 \<Rightarrow> int64 \<Rightarrow> wsImpl" where
  "newWSImpl p version now =
     \<lparr>peer = p, cu_id = None, cu_connectionId = [], cu_headers = Map.empty, cu_closed = False,
      readF = ReadV2, marshalF = marshal_of version, cu_createdAt = now\<rparr>"

definition ws_Rx :: "wsImpl \<Rightarrow> Message res \<times> wsImpl" where
  "ws_Rx u =
     (if cu_closed u then (Inl (ErrText ''underlay closed''), u)
      else case conn_read (readF u) (peer u) of (m, p) \<Rightarrow> (m, u\<lparr>peer := p\<rparr>))"

definition ws_Tx :: "(nat \<times> err) option \<Rightarrow> int32 list \<Rightarrow> Message \<Rightarrow> wsImpl \<Rightarrow> err option \<times> wsImpl" where
  "ws_Tx w ks m u =
     (if cu_closed u then (Some (ErrText ''underlay closed''), u)
      else case marshalF u ks m of
        Inl e \<Rightarrow> (Some e, u)
      | Inr (data, _) \<Rightarrow> (case conn_Write w data (peer u) of (e, p) \<Rightarrow> (e, u\<lparr>peer := p\<rparr>)))"

definition ws_Close :: "err option \<Rightarrow> wsImpl \<Rightarrow> err option \<times> wsImpl" where
  "ws_Close e u =
     (if cu_closed u then (None, u)
      else case conn_Close e (peer u) of (e, p) \<Rightarrow> (e, u\<lparr>peer := p, cu_closed := True\<rparr>))"

definition ws_Respond :: "(nat \<times> err) option \<Rightarrow> int32 list \<Rightarrow> Message \<Rightarrow> bool \<Rightarrow> bytes \<Rightarrow> wsImpl \<Rightarrow> err option \<times> wsImpl" where
  "ws_Respond w ks request success body u =
     (let response = NewMessage ContentTypeResultType body;
          response = response\<lparr>Headers := PutBoolHeader ResultSuccessHeader success (Headers response)\<rparr>;
          response = response\<lparr>sequence := sequence request\<rparr>;
          response = ReplyTo request response
      in ws_Tx w ks response u)"

subsection \<open>Websocket messages\<close>

text \<open>
  \<^verbatim>\<open>websockets.Underlay\<close>: the websocket connection delivers whole messages with a type
  (\<open>2\<close> is binary).
\<close>

record WSUnderlay =
  wsu_token :: string
  wsu_in :: "(int \<times> bytes) list"
  wsu_final :: err
  wsu_out :: "bytes list"
  wsu_closed :: bool

definition BinaryMessage :: int where
  "BinaryMessage = 2"

definition wsu_Rx :: "WSUnderlay \<Rightarrow> Message res \<times> WSUnderlay" where
  "wsu_Rx u =
     (case wsu_in u of
        [] \<Rightarrow> (Inl (wsu_final u), u)
      | (t, data) # ms \<Rightarrow>
          (if t \<noteq> BinaryMessage then Inl (ErrText ''expected binary message type'')
           else fst (ReadV2 (NewBuffer data)), u\<lparr>wsu_in := ms\<rparr>))"

text \<open>The error of the websocket write is an argument.\<close>

definition wsu_Tx :: "err option \<Rightarrow> int32 list \<Rightarrow> Message \<Rightarrow> WSUnderlay \<Rightarrow> err option \<times> WSUnderlay" where
  "wsu_Tx e ks m u =
     (case e of
        Some x \<Rightarrow> (Some x, u)
      | None \<Rightarrow> (None, u\<lparr>wsu_out := wsu_out u @ [fst (MarshalV2 ks m)]\<rparr>))"

definition wsu_Close :: "err option \<Rightarrow> WSUnderlay \<Rightarrow> err option \<times> WSUnderlay" where
  "wsu_Close e u =
     (if wsu_closed u then (None, u) else (e, u\<lparr>wsu_closed := True, wsu_in := [], wsu_final := ErrNetClosed\<rparr>))"

section \<open>The contract of Close\<close>

text \<open>
  What the interface documents: \<^verbatim>\<open>Close\<close> closes, every further call does nothing and
  returns nil, and no other operation opens the underlay again. A stream underlay also refuses
  to read and write once it is closed.
\<close>

datatype 'w underlay_op = URx | UTx 'w "int32 list" Message | UClose "err option"

fun underlay_run ::
    "('u \<Rightarrow> Message res \<times> 'u) \<Rightarrow> ('w \<Rightarrow> int32 list \<Rightarrow> Message \<Rightarrow> 'u \<Rightarrow> err option \<times> 'u) \<Rightarrow>
     (err option \<Rightarrow> 'u \<Rightarrow> err option \<times> 'u) \<Rightarrow> 'w underlay_op list \<Rightarrow> 'u \<Rightarrow> 'u" where
  "underlay_run rx tx close [] u = u"
| "underlay_run rx tx close (URx # os) u = underlay_run rx tx close os (snd (rx u))"
| "underlay_run rx tx close (UTx w ks m # os) u = underlay_run rx tx close os (snd (tx w ks m u))"
| "underlay_run rx tx close (UClose e # os) u = underlay_run rx tx close os (snd (close e u))"

locale closeable_underlay =
  fixes rx :: "'u \<Rightarrow> Message res \<times> 'u"
    and tx :: "'w \<Rightarrow> int32 list \<Rightarrow> Message \<Rightarrow> 'u \<Rightarrow> err option \<times> 'u"
    and close :: "err option \<Rightarrow> 'u \<Rightarrow> err option \<times> 'u"
    and closed :: "'u \<Rightarrow> bool"
  assumes close_closes: "closed (snd (close e u))"
    and close_again: "closed u \<Longrightarrow> close e u = (None, u)"
    and rx_keeps: "closed (snd (rx u)) = closed u"
    and tx_keeps: "closed (snd (tx w ks m u)) = closed u"
begin

lemma close_idempotent: "close e' (snd (close e u)) = (None, snd (close e u))"
  by (rule close_again) (rule close_closes)

lemma run_closed: "closed u \<Longrightarrow> closed (underlay_run rx tx close os u)"
proof (induction os arbitrary: u)
  case (Cons x os)
  then show ?case by (cases x) (auto simp: rx_keeps tx_keeps close_closes)
qed simp

lemma close_after_run: "closed u \<Longrightarrow> close e (underlay_run rx tx close os u) = (None, underlay_run rx tx close os u)"
  by (intro close_again run_closed)

end

locale stream_underlay = closeable_underlay +
  fixes refused :: err
  assumes rx_closed: "closed u \<Longrightarrow> rx u = (Inl refused, u)"
    and tx_closed: "closed u \<Longrightarrow> tx w ks m u = (Some refused, u)"
begin

lemma run_frozen: "closed u \<Longrightarrow> underlay_run rx tx close os u = u"
proof (induction os)
  case (Cons x os)
  then show ?case by (cases x) (auto simp: rx_closed tx_closed close_again)
qed simp

end

lemmas close_defs = classic_Close_def datagram_Close_def existing_Close_def ws_Close_def wsu_Close_def conn_Close_def

interpretation classic_underlay: stream_underlay classic_Rx classic_Tx classic_Close cu_closed "ErrText ''underlay closed''"
  by unfold_locales (auto simp: close_defs classic_Rx_def classic_Tx_def split: prod.splits sum.splits)

interpretation existing_underlay: stream_underlay existing_Rx existing_Tx existing_Close cu_closed "ErrText ''underlay closed''"
  by unfold_locales (auto simp: close_defs existing_Rx_def existing_Tx_def split: prod.splits sum.splits)

interpretation ws_underlay: stream_underlay ws_Rx ws_Tx ws_Close cu_closed "ErrText ''underlay closed''"
  by unfold_locales (auto simp: close_defs ws_Rx_def ws_Tx_def split: prod.splits sum.splits)

interpretation datagram_underlay: closeable_underlay "datagram_Rx over" datagram_Tx datagram_Close cu_closed for over
  by unfold_locales (auto simp: close_defs datagram_Rx_def datagram_Tx_def split: prod.splits sum.splits)

interpretation websocket_underlay: closeable_underlay wsu_Rx wsu_Tx wsu_Close wsu_closed
  by unfold_locales (auto simp: close_defs wsu_Rx_def wsu_Tx_def split: prod.splits list.splits option.splits)

text \<open>
  The underlays keep the \<^verbatim>\<open>Close\<close> contract that the layers above rely on when more
  than one of them closes an underlay: after a first close, whatever reads, writes and closes
  follow, a further close does nothing and returns nil; and a closed stream underlay neither
  writes another byte nor consumes one.
\<close>

theorem underlay_close_contract:
  "classic_Close e (underlay_run classic_Rx classic_Tx classic_Close os (snd (classic_Close e' c))) = (None, snd (classic_Close e' c)) \<and>
   existing_Close e (underlay_run existing_Rx existing_Tx existing_Close os (snd (existing_Close e' x))) = (None, snd (existing_Close e' x)) \<and>
   ws_Close e (underlay_run ws_Rx ws_Tx ws_Close os (snd (ws_Close e' w))) = (None, snd (ws_Close e' w)) \<and>
   fst (datagram_Close e (underlay_run (datagram_Rx over) datagram_Tx datagram_Close os (snd (datagram_Close e' d)))) = None \<and>
   fst (wsu_Close e (underlay_run wsu_Rx wsu_Tx wsu_Close os' (snd (wsu_Close e' b)))) = None"
  by (simp add: classic_underlay.run_frozen classic_underlay.close_closes classic_underlay.close_idempotent
      existing_underlay.run_frozen existing_underlay.close_closes existing_underlay.close_idempotent
      ws_underlay.run_frozen ws_underlay.close_closes ws_underlay.close_idempotent
      datagram_underlay.close_after_run datagram_underlay.close_closes
      websocket_underlay.close_after_run websocket_underlay.close_closes)

section \<open>Packets\<close>

lemma length_MarshalV2:
  "length (fst (MarshalV2 ks m)) = 20 + length (marshalHeaders ks (Headers (putReplyFor m))) + length (Body m)"
  by (simp add: MarshalV2_def marshalWithVersion_def Let_def)

lemma frame_header_take: "i + 4 \<le> n \<Longrightarrow> frame_header i (take n s) = frame_header i s"
  by (simp add: frame_header_def drop_take)

lemma MarshalV2_sizes:
  assumes "frame_fits ks m"
  shows "unat (frame_header 12 (fst (MarshalV2 ks m))) = length (marshalHeaders ks (Headers (putReplyFor m)))"
    "unat (frame_header 16 (fst (MarshalV2 ks m))) = length (Body m)"
proof -
  let ?H = "marshalHeaders ks (Headers (putReplyFor m))"
  let ?pre = "magicV2 @ PutUint32 (ContentType m) @ PutUint32 (sequence m)"
  have "frame_header 12 (fst (MarshalV2 ks m)) = word_of_nat (length ?H)"
    using frame_header_at [of ?pre 12] by (simp add: MarshalV2_def marshalWithVersion_def Let_def)
  moreover have "frame_header 16 (fst (MarshalV2 ks m)) = word_of_nat (length (Body m))"
    using frame_header_at [of "?pre @ PutUint32 (word_of_nat (length ?H))" 16]
    by (simp add: MarshalV2_def marshalWithVersion_def Let_def)
  ultimately show "unat (frame_header 12 (fst (MarshalV2 ks m))) = length ?H"
      "unat (frame_header 16 (fst (MarshalV2 ks m))) = length (Body m)"
    using assms by (simp_all add: frame_fits_def unat_of_nat)
qed

lemma decode_frame_prefix:
  assumes "frame_fits ks m" "n < length (fst (MarshalV2 ks m))"
  shows "decode_frame (take n (fst (MarshalV2 ks m))) = None"
proof (cases "n < 20")
  case True
  then have "length (take n (fst (MarshalV2 ks m))) < 20" by simp
  then show ?thesis unfolding decode_frame_def Let_def by (simp only: simp_thms if_True)
next
  case False
  then have "length (drop 20 (take n (fst (MarshalV2 ks m)))) <
      unat (frame_header 12 (take n (fst (MarshalV2 ks m)))) + unat (frame_header 16 (take n (fst (MarshalV2 ks m))))"
    using assms(2) MarshalV2_sizes [OF assms(1)] by (simp add: frame_header_take length_MarshalV2)
  then show ?thesis unfolding decode_frame_def Let_def by (simp only: simp_thms if_True)
qed

text \<open>
  A datagram carries a message whole or not at all: a message whose frame fits the 2000-byte
  receive buffer arrives as it was sent; a longer one is an error, whether the transport refuses
  it or cuts it to the buffer, and never a message with missing or shifted content.
\<close>

theorem datagram_all_or_nothing:
  assumes "enumerates ks (Headers (putReplyFor m))" "frame_fits ks m"
    and "chunks (cin (peer u)) = fst (MarshalV2 ks m) # ps" "readF u = readF (newDatagramUnderlay None p v now)"
    and "isl (over (fst (MarshalV2 ks m))) \<or> (\<exists>n\<le>2000. over (fst (MarshalV2 ks m)) = Inr (take n (fst (MarshalV2 ks m))))"
  shows "if length (fst (MarshalV2 ks m)) \<le> 2000 then fst (datagram_Rx over u) = Inr (received m)
    else isl (fst (datagram_Rx over u))"
proof (cases "length (fst (MarshalV2 ks m)) \<le> 2000")
  case True
  have "decode_frame (content (NewBuffer (fst (MarshalV2 ks m)))) = Some (received m, [])"
    using decode_frame_MarshalV2 [OF assms(1,2), of "[]"] by simp
  then show ?thesis
    using ReadV2_decode_frame(1) True assms(3,4)
    by (simp add: datagram_Rx_def conn_ReadPacket_def newDatagramUnderlay_def)
next
  case False
  let ?f = "fst (MarshalV2 ks m)"
  have rx: "fst (datagram_Rx over u) = rbind (over ?f) (\<lambda>b. fst (ReadV2 (NewBuffer b)))"
    using False assms(3,4) by (simp add: datagram_Rx_def conn_ReadPacket_def newDatagramUnderlay_def)
  have cut: "isl (fst (ReadV2 (NewBuffer (take n ?f))))" if "n \<le> 2000" for n
    using ReadV2_no_frame [of "NewBuffer (take n ?f)"] decode_frame_prefix [OF assms(2), of n] False that by auto
  from assms(5) have "isl (fst (datagram_Rx over u))"
  proof
    assume "isl (over ?f)"
    then show ?thesis by (cases "over ?f") (simp_all add: rx)
  next
    assume "\<exists>n\<le>2000. over ?f = Inr (take n ?f)"
    then show ?thesis using cut by (auto simp: rx)
  qed
  then show ?thesis using False by simp
qed

definition sample_packet_conn :: conn where
  "sample_packet_conn = \<lparr>cin = \<lparr>chunks = [fst (MarshalV2 [128, 1] sample_message)], rfinal = ErrEOF\<rparr>, cout = [], cshut = False\<rparr>"

theorem datagram_all_or_nothing_witness:
  "fst (datagram_Rx (\<lambda>b. Inr (take 2000 b)) (newDatagramUnderlay None sample_packet_conn 2 0)) = Inr (received sample_message)"
proof -
  have c: "chunks (cin (peer (newDatagramUnderlay None sample_packet_conn 2 0))) = fst (MarshalV2 [128, 1] sample_message) # []"
    by (simp add: newDatagramUnderlay_def sample_packet_conn_def)
  have "length (fst (MarshalV2 [128, 1] sample_message)) \<le> 2000"
    by (simp add: length_MarshalV2 sample_message_def putReplyFor_def PutUint32Header_def ReplyForHeader_def Let_def)
  then show ?thesis
    using datagram_all_or_nothing [OF sample_message_ok c refl, of "\<lambda>b. Inr (take 2000 b)"]
    by (simp add: exI [of _ 2000])
qed

text \<open>
  The listening side does not keep a configured message strategy: \<^verbatim>\<open>rxHello\<close> overwrites the
  read and marshal functions that \<^verbatim>\<open>newClassicImpl\<close> took from it, whatever they were.
\<close>

theorem rxHello_drops_message_strategy:
  "readF (snd (classic_rxHello (newClassicImpl strategy p v now))) = ReadV2 \<and>
   marshalF (snd (classic_rxHello (newClassicImpl strategy p v now))) = marshalF (newClassicImpl None p 2 now)"
  by (simp add: classic_rxHello_def newClassicImpl_def strategy_marshal_def split: prod.splits)

text \<open>A websocket message is a frame of its own: what one end writes the other reads back.\<close>

lemma websocket_exchange:
  assumes "enumerates ks (Headers (putReplyFor m))" "frame_fits ks m" "wsu_Tx None ks m a = (None, a')"
    and "wsu_in b = map (\<lambda>d. (BinaryMessage, d)) (drop (length (wsu_out a)) (wsu_out a'))"
  shows "fst (wsu_Rx b) = Inr (received m)"
proof -
  have "decode_frame (content (NewBuffer (fst (MarshalV2 ks m)))) = Some (received m, [])"
    using decode_frame_MarshalV2 [OF assms(1,2), of "[]"] by simp
  moreover have "wsu_out a' = wsu_out a @ [fst (MarshalV2 ks m)]"
    using assms(3) by (auto simp: wsu_Tx_def)
  ultimately show ?thesis
    using assms(4) ReadV2_decode_frame(1) by (simp add: wsu_Rx_def)
qed

end
