(* ===== verification/Underlay_Streams.thy ===== *)
theory Underlay_Streams
  imports Conn_Underlays
begin

text \<open>
  Sequences of messages over a pair of stream underlays. The locale \<open>message_stream\<close> is what
  the channel relies on of an underlay that is open: \<^verbatim>\<open>Tx\<close> appends one frame to what the
  connection carries and \<^verbatim>\<open>Rx\<close> takes one frame off it. The classic, existing-connection and
  websocket-transport underlays of \<open>Conn_Underlays\<close> provide it.
\<close>

section \<open>Sending and receiving in sequence\<close>

type_synonym 'u tx_fun = "(nat \<times> err) option \<Rightarrow> int32 list \<Rightarrow> Message \<Rightarrow> 'u \<Rightarrow> err option \<times> 'u"
type_synonym 'u rx_fun = "'u \<Rightarrow> Message res \<times> 'u"

text \<open>Both stop at the first error, as the transmit and receive loops of the channel do.\<close>

fun send_seq :: "'u tx_fun \<Rightarrow> (int32 list \<times> Message) list \<Rightarrow> 'u \<Rightarrow> err option \<times> 'u" where
  "send_seq tx [] u = (None, u)"
| "send_seq tx ((ks, m) # sent) u =
     (case tx None ks m u of
        (Some e, u) \<Rightarrow> (Some e, u)
      | (None, u) \<Rightarrow> send_seq tx sent u)"

fun recv_seq :: "'u rx_fun \<Rightarrow> nat \<Rightarrow> 'u \<Rightarrow> Message list \<times> err option" where
  "recv_seq rx 0 u = ([], None)"
| "recv_seq rx (Suc n) u =
     (case rx u of
        (Inl e, _) \<Rightarrow> ([], Some e)
      | (Inr m, u) \<Rightarrow> (let (ms, e) = recv_seq rx n u in (m # ms, e)))"

text \<open>What was written between two states of one end is what the other end is about to read.\<close>

definition carried :: "conn \<Rightarrow> conn \<Rightarrow> conn \<Rightarrow> bytes \<Rightarrow> bool" where
  "carried before after far rest \<longleftrightarrow> content (cin far) = drop (length (cout before)) (cout after) @ rest"

definition frames_ok :: "(int32 list \<times> Message) list \<Rightarrow> bool" where
  "frames_ok = list_all (\<lambda>(ks, m). enumerates ks (Headers (putReplyFor m)) \<and> frame_fits ks m)"

section \<open>The logging underlay\<close>

text \<open>
  \<^verbatim>\<open>TypeLoggingUnderlay\<close> wraps another underlay and logs the content type of what is sent;
  \<open>ty\<close> is the underlay type of the wrapped one.
\<close>

record 'u TypeLoggingUnderlay =
  wrappedU :: 'u
  typeLog :: "(int32 \<times> string) list"

definition logging_Rx :: "'u rx_fun \<Rightarrow> 'u TypeLoggingUnderlay rx_fun" where
  "logging_Rx rx u = (case rx (wrappedU u) of (r, x) \<Rightarrow> (r, u\<lparr>wrappedU := x\<rparr>))"

definition logging_Tx :: "('u \<Rightarrow> string) \<Rightarrow> 'u tx_fun \<Rightarrow> 'u TypeLoggingUnderlay tx_fun" where
  "logging_Tx ty tx w ks m u =
     (let u = u\<lparr>typeLog := typeLog u @ [(ContentType m, ty (wrappedU u))]\<rparr>
      in case tx w ks m (wrappedU u) of (e, x) \<Rightarrow> (e, u\<lparr>wrappedU := x\<rparr>))"

definition logging_Close :: "(err option \<Rightarrow> 'u \<Rightarrow> err option \<times> 'u) \<Rightarrow> err option \<Rightarrow> 'u TypeLoggingUnderlay \<Rightarrow> err option \<times> 'u TypeLoggingUnderlay" where
  "logging_Close close e u = (case close e (wrappedU u) of (e, x) \<Rightarrow> (e, u\<lparr>wrappedU := x\<rparr>))"

section \<open>The contract of an open stream\<close>

locale message_stream =
  fixes tx :: "'u tx_fun" and rx :: "'u rx_fun" and ready :: "'u \<Rightarrow> bool" and conn_of :: "'u \<Rightarrow> conn"
  assumes tx_ready: "ready u \<Longrightarrow> fst (tx None ks m u) = None \<and> ready (snd (tx None ks m u)) \<and>
      cout (conn_of (snd (tx None ks m u))) = cout (conn_of u) @ fst (MarshalV2 ks m)"
    and rx_ready: "ready u \<Longrightarrow> fst (rx u) = fst (ReadV2 (cin (conn_of u))) \<and> ready (snd (rx u)) \<and>
      cin (conn_of (snd (rx u))) = snd (ReadV2 (cin (conn_of u)))"
begin

lemma send_seq_writes:
  "ready u \<Longrightarrow> fst (send_seq tx sent u) = None \<and>
     cout (conn_of (snd (send_seq tx sent u))) = cout (conn_of u) @ concat (map (\<lambda>(ks, m). fst (MarshalV2 ks m)) sent)"
proof (induction sent arbitrary: u)
  case (Cons x sent)
  obtain ks m where x: "x = (ks, m)" by (cases x)
  obtain u' where u': "tx None ks m u = (None, u')" using tx_ready [OF Cons.prems, of ks m] by (cases "tx None ks m u") auto
  with tx_ready [OF Cons.prems, of ks m] have "ready u'" "cout (conn_of u') = cout (conn_of u) @ fst (MarshalV2 ks m)" by simp_all
  with Cons.IH [OF this(1)] u' show ?case by (simp add: x)
qed simp

lemma recv_seq_reads: "ready u \<Longrightarrow> recv_seq rx n u = read_seq ReadV2 n (cin (conn_of u))"
proof (induction n arbitrary: u)
  case (Suc n)
  obtain r u' where u': "rx u = (r, u')" by (cases "rx u")
  with rx_ready [OF Suc.prems] have r: "ready u'" "ReadV2 (cin (conn_of u)) = (r, cin (conn_of u'))"
    by (simp_all add: prod_eq_iff)
  with Suc.IH [OF r(1)] u' show ?case by (simp split: sum.splits)
qed simp

lemma receives_in_order:
  "ready u \<Longrightarrow> frames_ok sent \<Longrightarrow> content (cin (conn_of u)) = concat (map (\<lambda>(ks, m). fst (MarshalV2 ks m)) sent) @ rest \<Longrightarrow>
   recv_seq rx (length sent) u = (map (\<lambda>(ks, m). received m) sent, None)"
  by (simp add: recv_seq_reads frames_ok_def v2_framing.read_seq_enc)

lemma logged:
  "message_stream (logging_Tx ty tx) (logging_Rx rx) (\<lambda>u. ready (wrappedU u)) (\<lambda>u. conn_of (wrappedU u))"
  by unfold_locales (use tx_ready rx_ready in \<open>auto simp: logging_Tx_def logging_Rx_def case_prod_beta\<close>)

end

text \<open>Two ends of one connection, which may be different kinds of underlay.\<close>

locale stream_pair =
  near: message_stream txa rxa readya conna + far: message_stream txb rxb readyb connb
  for txa :: "'a tx_fun" and rxa readya conna and txb :: "'b tx_fun" and rxb readyb connb
begin

lemma delivers_in_order:
  assumes "readya a" "readyb b" "frames_ok sent" "send_seq txa sent a = (e, a')" "carried (conna a) (conna a') (connb b) rest"
  shows "e = None \<and> recv_seq rxb (length sent) b = (map (\<lambda>(ks, m). received m) sent, None)"
  using near.send_seq_writes [OF assms(1), of sent] far.receives_in_order [OF assms(2,3), of rest] assms(4,5)
  by (simp add: carried_def)

end

section \<open>The underlays\<close>

text \<open>An open underlay that speaks version 2, on a connection that is not shut.\<close>

definition open_v2 :: "('i, stream_read) conn_underlay \<Rightarrow> bool" where
  "open_v2 u \<longleftrightarrow> \<not> cu_closed u \<and> \<not> cshut (peer u) \<and> readF u = ReadV2 \<and> marshalF u = marshal_of 2"

lemmas open_v2_simps = open_v2_def marshal_of_def conn_Write_def conn_read_def

interpretation classic_stream: message_stream classic_Tx classic_Rx open_v2 peer
  by unfold_locales (auto simp: open_v2_simps classic_Tx_def classic_Rx_def split: prod.splits)

interpretation existing_stream: message_stream existing_Tx existing_Rx open_v2 peer
  by unfold_locales (auto simp: open_v2_simps existing_Tx_def existing_Rx_def split: prod.splits)

interpretation ws_stream: message_stream ws_Tx ws_Rx open_v2 peer
  by unfold_locales (auto simp: open_v2_simps ws_Tx_def ws_Rx_def split: prod.splits)

interpretation logging_classic_stream:
    message_stream "logging_Tx ty classic_Tx" "logging_Rx classic_Rx" "\<lambda>u. open_v2 (wrappedU u)" "\<lambda>u. peer (wrappedU u)" for ty
  by (rule classic_stream.logged)

interpretation logging_classic_underlay:
    closeable_underlay "logging_Rx classic_Rx" "logging_Tx ty classic_Tx" "logging_Close classic_Close" "\<lambda>u. cu_closed (wrappedU u)" for ty
  by unfold_locales
    (auto simp: logging_Tx_def logging_Rx_def logging_Close_def case_prod_beta classic_underlay.close_closes classic_underlay.close_again
      classic_underlay.rx_keeps classic_underlay.tx_keeps)

interpretation logging_pair:
    stream_pair "logging_Tx ty classic_Tx" "logging_Rx classic_Rx" "\<lambda>u. open_v2 (wrappedU u)" "\<lambda>u. peer (wrappedU u)"
      classic_Tx classic_Rx open_v2 peer for ty
  by unfold_locales

interpretation classic_pair: stream_pair classic_Tx classic_Rx open_v2 peer classic_Tx classic_Rx open_v2 peer
  by unfold_locales

interpretation existing_pair: stream_pair existing_Tx existing_Rx open_v2 peer existing_Tx existing_Rx open_v2 peer
  by unfold_locales

interpretation ws_pair: stream_pair ws_Tx ws_Rx open_v2 peer classic_Tx classic_Rx open_v2 peer
  by unfold_locales

lemma fresh_open_v2:
  "\<not> cshut p \<Longrightarrow> open_v2 (newClassicImpl None p 2 now)" "\<not> cshut p \<Longrightarrow> open_v2 (newExistingImpl p 2 now)"
  "\<not> cshut p \<Longrightarrow> open_v2 (newWSImpl p 2 now)"
  by (simp_all add: open_v2_def newClassicImpl_def newExistingImpl_def newWSImpl_def strategy_marshal_def)


text \<open>Two messages from a websocket listener to a classic end, in three pieces.\<close>

definition sample_conn :: "bytes list \<Rightarrow> conn" where
  "sample_conn cs = \<lparr>cin = \<lparr>chunks = cs, rfinal = ErrEOF\<rparr>, cout = [], cshut = False\<rparr>"

definition sample_sent :: "(int32 list \<times> Message) list" where
  "sample_sent = [([128, 1], sample_message), ([1, 128], sample_message)]"

definition sample_stream :: bytes where
  "sample_stream = fst (MarshalV2 [128, 1] sample_message) @ fst (MarshalV2 [1, 128] sample_message)"

lemma sample_sent_ok: "frames_ok sample_sent"
  using sample_message_ok by (auto simp: frames_ok_def sample_sent_def enumerates_def frame_fits_def Let_def)


end
