(* ===== verification/Delivery.thy ===== *)
theory Delivery
  imports Channel_IO Underlay_Streams
begin

text \<open>
  From the senders of one channel to the handlers of the other: the queue, the transmit loop, the
  stream between the underlays, the receive loop and the dispatch put together.
\<close>

section \<open>What the loops do\<close>

text \<open>The messages a channel wrote to an underlay, and those it delivered, in order.\<close>

fun written_by :: "nat \<Rightarrow> ch_event \<Rightarrow> Message list" where
  "written_by i (EvTx j m None) = (if i = j then [m] else [])"
| "written_by i _ = []"

fun delivered_by :: "ch_event \<Rightarrow> Message list" where
  "delivered_by (EvAcceptReply r m) = [m]"
| "delivered_by (EvReceive h m) = [m]"
| "delivered_by (EvDropped m) = [m]"
| "delivered_by _ = []"

definition written :: "nat \<Rightarrow> channelImpl \<Rightarrow> Message list" where
  "written i ch = concat (map (written_by i) (trace ch))"

definition delivered :: "channelImpl \<Rightarrow> Message list" where
  "delivered ch = concat (map delivered_by (trace ch))"

text \<open>What a transmission puts on the wire when the transport takes it: nothing for an expired sendable.\<close>

definition wire_message :: "channelImpl \<Rightarrow> Sendable \<Rightarrow> Message list" where
  "wire_message ch s =
     (if cerr (writeContext s) \<noteq> None then [] else case Msg s of None \<Rightarrow> [] | Some m \<Rightarrow> [tx_message ch m])"

lemma tx_writes:
  assumes "setWriteTimeout env = None" "txWrite env = None"
  shows "\<exists>ch'. tx env now u t s wt ch = Inr (None, ch') \<and> transformHandlers ch' = transformHandlers ch \<and>
    written (uid u) ch' = written (uid u) ch @ wire_message ch s"
proof (cases "cerr (writeContext s) \<noteq> None \<or> Msg s = None")
  case True
  then show ?thesis
    by (auto simp: tx_def wire_message_def written_def emit_def split: option.splits)
next
  case False
  then obtain m where m: "cerr (writeContext s) = None" "Msg s = Some m" by auto
  obtain ws where "AddWaiter now (s\<lparr>Msg := Some (fold snd (transformHandlers ch) m)\<rparr>) (waiters ch) = Inr ws"
    by (cases "ReplyReceiver (s\<lparr>Msg := Some (fold snd (transformHandlers ch) m)\<rparr>)") (simp_all add: AddWaiter_def Let_def)
  moreover have "concat (map (written_by (uid u) \<circ> (\<lambda>h. EvPeekTx h x)) hs) = []" for x hs by (induction hs) simp_all
  ultimately show ?thesis
    using m assms by (simp add: tx_def wire_message_def written_def emit_def tx_message_def Let_def)
qed

lemma txer_loop_writes:
  assumes "\<forall>(now, env, r) \<in> set ins. setWriteTimeout env = None \<and> txWrite env = None"
    and "map (\<lambda>(now, env, r). r) ins = map Inr ss"
  shows "\<exists>ch'. txer_loop u t wt ins ch = Inr (False, ch') \<and>
    written (uid u) ch' = written (uid u) ch @ concat (map (wire_message ch) ss)"
  using assms
proof (induction ins arbitrary: ss ch)
  case (Cons x ins)
  from Cons.prems obtain now env s ss' where x: "x = (now, env, Inr s)" "ss = s # ss'" "map (\<lambda>(now, env, r). r) ins = map Inr ss'"
    "setWriteTimeout env = None" "txWrite env = None" by (cases x; cases ss) auto
  obtain c where c: "tx env now u t s wt ch = Inr (None, c)" "transformHandlers c = transformHandlers ch"
    "written (uid u) c = written (uid u) ch @ wire_message ch s" using tx_writes [OF x(4,5), of now u t s wt ch] by blast
  have "wire_message c = wire_message ch" using c(2) by (intro ext) (simp add: wire_message_def tx_message_def split: option.split)
  with Cons.IH [OF _ x(3), of c] Cons.prems(1) c show ?case by (auto simp: x(1,2))
qed simp

text \<open>Nothing but waiters in the waiter table, as in every table that \<^verbatim>\<open>AddWaiter\<close> fills.\<close>

definition typed_waiters :: "waiterMap \<Rightarrow> bool" where
  "typed_waiters ws \<longleftrightarrow> (\<forall>k. wm ws k \<noteq> Some OtherEntry)"

lemma typed_reapExpired: "typed_waiters ws \<Longrightarrow> typed_waiters (reapExpired now ks ws)"
proof -
  have "typed_waiters (fst acc) \<Longrightarrow> typed_waiters (fst (reapRange now ks acc))" for acc
    by (induction ks arbitrary: acc) (auto simp: typed_waiters_def reapVisit_def case_prod_beta split: option.splits)
  from this [of "(ws, 0)"] show "typed_waiters ws \<Longrightarrow> typed_waiters (reapExpired now ks ws)"
    by (simp add: reapExpired_def reapFinish_def typed_waiters_def case_prod_beta)
qed

lemma typed_RemoveWaiter:
  assumes "typed_waiters ws"
  shows "\<exists>r ws'. RemoveWaiter s ws = Inr (r, ws') \<and> typed_waiters ws'"
proof (cases "wm ws s")
  case (Some e)
  with assms show ?thesis by (cases e) (auto simp: RemoveWaiter_def typed_waiters_def)
qed (use assms in \<open>simp add: RemoveWaiter_def\<close>)

lemma typed_rx_waiters: "typed_waiters (waiters ch) \<Longrightarrow> typed_waiters (rx_waiters now ks ch)"
  by (simp add: rx_waiters_def typed_reapExpired)

lemma rx_delivers:
  assumes "typed_waiters (waiters ch)"
  shows "\<exists>ch'. rx now ks m ch = Inr ch' \<and> typed_waiters (waiters ch') \<and> transformHandlers ch' = transformHandlers ch \<and>
    delivered ch' = delivered ch @ [rx_message ch m]"
proof -
  let ?m = "fold fst (transformHandlers ch) m"
  have peek: "concat (map (delivered_by \<circ> (\<lambda>h. EvPeekRx h x)) hs) = []" for x hs by (induction hs) simp_all
  have disp: "delivered_by (handler_event c x) = [x]" for c x by (simp add: handler_event_def split: option.splits)
  obtain r ws where "RemoveWaiter (ReplyFor (cacheReplyFor ?m)) (rx_waiters now ks ch) = Inr (r, ws)" "typed_waiters ws"
    using typed_RemoveWaiter [OF typed_rx_waiters [OF assms]] by blast
  note rm = this
  show ?thesis
  proof (cases "(replyCounter ch + 1) mod 100 = 0 \<and> sint (wsize (waiters ch)) > 1000")
    case True
    then have "rx_waiters now ks ch = reapExpired now ks (waiters ch)" by (simp add: rx_waiters_def)
    with rm True assms show ?thesis
      by (cases "IsReply ?m"; cases r) (simp_all add: rx_def Let_def dispatch_eq delivered_def rx_message_def peek disp)
  next
    case False
    then have "rx_waiters now ks ch = waiters ch" by (auto simp: rx_waiters_def)
    with rm False assms show ?thesis
      by (cases "IsReply ?m"; cases r) (auto simp: rx_def Let_def dispatch_eq delivered_def rx_message_def peek disp)
  qed
qed

lemma rxer_loop_delivers:
  assumes "typed_waiters (waiters ch)" "map (\<lambda>(now, ks, r). r) ins = map Inr ms"
  shows "\<exists>ch'. rxer_loop u t False ins ch = Inr (False, ch') \<and> delivered ch' = delivered ch @ map (rx_message ch) ms"
  using assms
proof (induction ins arbitrary: ms ch)
  case (Cons x ins)
  from Cons.prems(2) obtain now ks m ms' where x: "x = (now, ks, Inr m)" "ms = m # ms'" "map (\<lambda>(now, ks, r). r) ins = map Inr ms'"
    by (cases x; cases ms) auto
  obtain c where c: "rx now ks m ch = Inr c" "typed_waiters (waiters c)" "transformHandlers c = transformHandlers ch"
    "delivered c = delivered ch @ [rx_message ch m]" using rx_delivers [OF Cons.prems(1)] by blast
  have "rx_message c = rx_message ch" using c(3) by (intro ext) (simp add: rx_message_def)
  with Cons.IH [OF c(2) x(3)] c show ?case by (auto simp: x(1,2))
qed simp

section \<open>From the senders to the handlers\<close>

definition quiet_transport :: "(int64 \<times> tx_env \<times> 'r) list \<Rightarrow> bool" where
  "quiet_transport = list_all (\<lambda>(now, env, r). setWriteTimeout env = None \<and> txWrite env = None)"


text \<open>One message through a queue of one, in two pieces.\<close>

definition sample_first :: Message where
  "sample_first = SetSequence 7 (NewMessage 5 [])"

definition sample_ins :: "(int64 \<times> tx_env \<times> Sendable res) list" where
  "sample_ins = [(0, \<lparr>setWriteTimeout = None, txWrite = None, handleTxFailed = False\<rparr>, Inr (SetSequence_sendable 7 sample_sendable))]"

lemma sample_wire: "wire_message sample_channel (SetSequence_sendable 7 sample_sendable) = [sample_first]"
  by (simp add: wire_message_def SetSequence_sendable_def sample_sendable_def writeContext_def Background_def tx_message_def
      sample_first_def sample_channel_def initialImpl_def startMultiplex_def addUnderlay_def case_prod_beta)

lemma sample_first_ok: "frames_ok [([], sample_first)]"
  by (simp add: frames_ok_def frame_fits_def enumerates_def sample_first_def SetSequence_def NewMessage_def putReplyFor_def)

lemma sample_tx_loop:
  "\<exists>ch'. txer_loop (sample_underlay 1 ''a'') ''a'' 0 sample_ins sample_channel = Inr (False, ch') \<and>
     written 1 ch' = written 1 sample_channel @ map snd [([] :: int32 list, sample_first)]"
  using txer_loop_writes [of sample_ins "[SetSequence_sendable 7 sample_sendable]" "sample_underlay 1 ''a''" "''a''" 0 sample_channel]
  by (simp add: sample_ins_def sample_wire)


end
