(* ===== verification/Channel_Constraints.thy ===== *)
theory Channel_Constraints
  imports Channel_Lifecycle
begin

text \<open>
  The enforcement of underlay constraints (\<^verbatim>\<open>applyConstraints\<close> and its helpers in
  \<^verbatim>\<open>impl.go\<close>, lines 753--910): a channel below a minimum closes, and with a dialer that
  succeeds the dial loop ends with every type at its desired count, after as many traversals as
  underlays are missing at most.
\<close>

section \<open>Validity\<close>

definition constraints_met :: "channelImpl \<Rightarrow> bool" where
  "constraints_met ch \<longleftrightarrow>
     (\<forall>t\<in>dom (constraints ch). Min (the (constraints ch t)) \<le> int (type_count t (entries (underlays ch)))) \<and>
     minTotalUnderlays ch \<le> int (length (entries (underlays ch)))"

lemma countsShowValidState_eq:
  assumes "enumerates ks (constraints ch)"
  shows "countsShowValidState uclose ks (CountsByType (underlays ch)) b ch =
    (if constraints_met ch then Inr (True, ch) else rbind (closeIf uclose b ch) (\<lambda>ch. Inr (False, ch)))"
proof -
  have "list_ex (\<lambda>t. Min (the (constraints ch t)) > count_of (CountsByType (underlays ch)) t) ks \<longleftrightarrow>
      (\<exists>t\<in>dom (constraints ch). Min (the (constraints ch t)) > int (type_count t (entries (underlays ch))))"
    using assms by (simp add: enumerates_def list_ex_iff count_of_CountsByType)
  then show ?thesis
    unfolding countsShowValidState_def sum_CountsByType constraints_met_def by (simp only: not_le [symmetric]) auto
qed

section \<open>Dialing\<close>

text \<open>
  A dialer that succeeds: an underlay of the requested type that presents the group's secret. No
  underlay has the empty type, since a missing type header reads as the default type.
\<close>

definition dialer_succeeds :: "'p dial \<Rightarrow> bool" where
  "dialer_succeeds dial \<longleftrightarrow> (\<forall>t cid sec first timeout p. t \<noteq> [] \<longrightarrow>
     (\<exists>u p'. dial t cid sec first timeout p = (Inr u, p') \<and> GetUnderlayType u = t \<and> secret_of u = sec))"

definition open_capable :: "channelImpl \<Rightarrow> bool" where
  "open_capable ch \<longleftrightarrow> \<not> flagClosed ch \<and> isMultiUnderlayCapable ch"

text \<open>\<open>grown ch ch' us\<close>: the same open channel with the underlays \<open>us\<close> appended.\<close>

definition grown :: "channelImpl \<Rightarrow> channelImpl \<Rightarrow> Underlay list \<Rightarrow> bool" where
  "grown ch ch' us \<longleftrightarrow> open_capable ch' \<and> entries (underlays ch') = entries (underlays ch) @ us \<and>
     constraints ch' = constraints ch \<and> minTotalUnderlays ch' = minTotalUnderlays ch"

lemma grown_refl: "open_capable ch \<Longrightarrow> grown ch ch []"
  by (simp add: grown_def)

lemma grown_trans: "grown a b us \<Longrightarrow> grown b c vs \<Longrightarrow> grown a c (us @ vs)"
  by (simp add: grown_def)

lemma dialUnderlay_grows:
  assumes "dialer_succeeds dial" "open_capable ch" "t \<noteq> []"
  obtains u p' where "dialUnderlay dial uclose opt t (ch, p) = (startMultiplex u (addUnderlay u (ch\<lparr>fallbackUnderlay := u\<rparr>)), p')"
    "grown ch (startMultiplex u (addUnderlay u (ch\<lparr>fallbackUnderlay := u\<rparr>))) [u]" "GetUnderlayType u = t"
proof -
  let ?to = "case opt of Some x \<Rightarrow> if sint x > 0 then x else DefaultConnectTimeout | None \<Rightarrow> DefaultConnectTimeout"
  obtain u p' where d: "dial t (channelId ch) (groupSecret ch) (GetAll (underlays ch) = []) ?to p = (Inr u, p')"
    "GetUnderlayType u = t" "secret_of u = groupSecret ch"
    using assms(1,3) unfolding dialer_succeeds_def by blast
  have a: "AcceptUnderlay uclose u ch = (None, startMultiplex u (addUnderlay u (ch\<lparr>fallbackUnderlay := u\<rparr>)))"
    using assms(2) d(3) by (cases rule: AcceptUnderlay_cases [of uclose u ch]) (auto simp: open_capable_def)
  show thesis
    by (rule that [of u p'])
      (use d a assms(2) in \<open>auto simp: dialUnderlay_def Let_def grown_def open_capable_def startMultiplex_def isMultiUnderlayCapable_def\<close>)
qed

text \<open>One traversal dials once for every type that is short, and nothing else.\<close>

definition short_of :: "channelImpl \<Rightarrow> (string \<rightharpoonup> int) \<Rightarrow> string \<Rightarrow> bool" where
  "short_of ch counts t \<longleftrightarrow> Desired (the (constraints ch t)) > count_of counts t"

lemma dialMissing_spec:
  assumes "dialer_succeeds dial" "open_capable ch" "distinct ks" "[] \<notin> set ks"
  obtains us ch' p' where "dialMissing dial uclose opt counts ks (ch, p) = (\<not> list_ex (short_of ch counts) ks, ch', p')"
    "grown ch ch' us" "map GetUnderlayType us = filter (short_of ch counts) ks"
  using assms
proof (induction ks arbitrary: ch p thesis)
  case Nil
  from Nil(1) [of ch p "[]"] Nil(3) grown_refl show ?case by simp
next
  case (Cons t ks)
  show ?case
  proof (cases "short_of ch counts t")
    case False
    obtain us ch' p' where "dialMissing dial uclose opt counts ks (ch, p) = (\<not> list_ex (short_of ch counts) ks, ch', p')"
      "grown ch ch' us" "map GetUnderlayType us = filter (short_of ch counts) ks"
      using Cons.IH [of ch p] Cons.prems by auto
    moreover have "\<not> Desired (the (constraints ch t)) > count_of counts t" using False by (simp add: short_of_def)
    ultimately show ?thesis using False Cons.prems(1) [of ch' p' us] by simp
  next
    case True
    have tn: "t \<noteq> []" using Cons.prems(5) by auto
    obtain u q where u: "dialUnderlay dial uclose opt t (ch, p) = (startMultiplex u (addUnderlay u (ch\<lparr>fallbackUnderlay := u\<rparr>)), q)"
      and g: "grown ch (startMultiplex u (addUnderlay u (ch\<lparr>fallbackUnderlay := u\<rparr>))) [u]" and t: "GetUnderlayType u = t"
      by (rule dialUnderlay_grows [OF Cons.prems(2,3) tn])
    let ?c = "startMultiplex u (addUnderlay u (ch\<lparr>fallbackUnderlay := u\<rparr>))"
    have same: "short_of ?c counts = short_of ch counts" using g by (simp add: short_of_def grown_def fun_eq_iff)
    have oc: "open_capable ?c" "distinct ks" "[] \<notin> set ks" using g Cons.prems by (simp_all add: grown_def)
    obtain us ch' p' where "dialMissing dial uclose opt counts ks (?c, q) = (\<not> list_ex (short_of ch counts) ks, ch', p')"
      "grown ?c ch' us" "map GetUnderlayType us = filter (short_of ch counts) ks"
      using Cons.IH [OF _ Cons.prems(2) oc, of q] unfolding same by blast
    moreover have "Desired (the (constraints ch t)) > count_of counts t" using True by (simp add: short_of_def)
    ultimately show ?thesis using True u t grown_trans [OF g] Cons.prems(1) [of ch' p' "u # us"] by simp
  qed
qed

section \<open>Reaching the desired counts\<close>

definition missing :: "channelImpl \<Rightarrow> string \<Rightarrow> nat" where
  "missing ch t = nat (Desired (the (constraints ch t)) - int (type_count t (entries (underlays ch))))"

definition deficit :: "channelImpl \<Rightarrow> nat" where
  "deficit ch = (\<Sum>t\<in>dom (constraints ch). missing ch t)"

lemma constraints_met_grown:
  assumes "constraints_met ch" "grown ch ch' us"
  shows "constraints_met ch'"
proof -
  have "Min (the (constraints ch t)) \<le> int (type_count t (entries (underlays ch)))" if "t \<in> dom (constraints ch)" for t
    using assms(1) that unfolding constraints_met_def by blast
  then have "Min (the (constraints ch t)) \<le> int (type_count t (entries (underlays ch')))" if "t \<in> dom (constraints ch)" for t
    using assms(2) that by (force simp: grown_def)
  with assms show ?thesis by (simp add: constraints_met_def grown_def)
qed

lemma count_list_filter_distinct:
  "distinct ks \<Longrightarrow> count_list (filter P ks) t = (if t \<in> set ks \<and> P t then 1 else 0)"
  by (induction ks) auto

lemma deficit_decreases:
  assumes "enumerates ks (constraints ch)" "grown ch ch' us"
    and types: "map GetUnderlayType us = filter (short_of ch (CountsByType (underlays ch))) ks"
    and "list_ex (short_of ch (CountsByType (underlays ch))) ks"
  shows "deficit ch' < deficit ch"
proof -
  let ?short = "short_of ch (CountsByType (underlays ch))"
  have "type_count t us = count_list (map GetUnderlayType us) t" for t
    by (induction us) auto
  then have cnt: "type_count t us = (if t \<in> set ks \<and> ?short t then 1 else 0)" for t
    unfolding types using assms(1) by (simp add: enumerates_def count_list_filter_distinct)
  have step: "missing ch' t = missing ch t - (if t \<in> set ks \<and> ?short t then 1 else 0)" for t
    using assms(2) cnt by (auto simp: missing_def grown_def)
  have pos: "missing ch t > 0" if "?short t" for t
    using that by (simp add: missing_def short_of_def count_of_CountsByType)
  obtain t where t: "t \<in> set ks" "?short t" using assms(4) by (auto simp: list_ex_iff)
  have "(\<Sum>t\<in>dom (constraints ch). missing ch' t) < (\<Sum>t\<in>dom (constraints ch). missing ch t)"
  proof (rule sum_strict_mono_ex1)
    show "finite (dom (constraints ch))" using assms(1) by (rule enumerates_finite)
    show "\<forall>t\<in>dom (constraints ch). missing ch' t \<le> missing ch t" by (simp add: step)
    show "\<exists>t\<in>dom (constraints ch). missing ch' t < missing ch t"
      using t pos assms(1) by (intro bexI [of _ t]) (auto simp: step enumerates_def)
  qed
  then show ?thesis using assms(2) by (simp add: deficit_def grown_def)
qed

lemma applyLoop_reaches:
  assumes "dialer_succeeds dial" "open_capable ch" "constraints_met ch" "\<And>n. enumerates (ord n) (constraints ch)"
    and "deficit ch < fuel" "[] \<notin> dom (constraints ch)"
  shows "\<exists>ch' p'. applyLoop dial uclose opt ord fuel (ch, p) = Some (Inr (ch', p')) \<and> open_capable ch' \<and>
    constraints ch' = constraints ch \<and>
    (\<forall>t\<in>dom (constraints ch). Desired (the (constraints ch t)) \<le> int (type_count t (entries (underlays ch'))))"
  using assms
proof (induction fuel arbitrary: ch p)
  case 0
  then show ?case by simp
next
  case (Suc n)
  let ?counts = "CountsByType (underlays ch)"
  have d: "distinct (ord n)" "[] \<notin> set (ord n)" using Suc.prems(4) [of n] Suc.prems(6) by (simp_all add: enumerates_def)
  obtain us ch' p' where pass: "dialMissing dial uclose opt ?counts (ord n) (ch, p) = (\<not> list_ex (short_of ch ?counts) (ord n), ch', p')"
    and g: "grown ch ch' us" and types: "map GetUnderlayType us = filter (short_of ch ?counts) (ord n)"
    by (rule dialMissing_spec [OF Suc.prems(1,2) d])
  have valid: "countsShowValidState uclose (ord n) ?counts True ch = Inr (True, ch)"
    using countsShowValidState_eq [OF Suc.prems(4)] Suc.prems(3) by simp
  have "\<not> flagClosed ch" using Suc.prems(2) by (simp add: open_capable_def)
  with valid pass have run: "applyLoop dial uclose opt ord (Suc n) (ch, p) =
      (if list_ex (short_of ch ?counts) (ord n) then applyLoop dial uclose opt ord n (ch', p') else Some (Inr (ch', p')))"
    by (simp add: IsClosed_def Let_def)
  show ?case
  proof (cases "list_ex (short_of ch ?counts) (ord n)")
    case True
    have "deficit ch' < n" using deficit_decreases [OF Suc.prems(4) g types True] Suc.prems(5) by simp
    with Suc.IH [of ch' p'] Suc.prems g constraints_met_grown [OF Suc.prems(3) g] True run show ?thesis
      by (simp add: grown_def)
  next
    case False
    have "Desired (the (constraints ch t)) \<le> int (type_count t (entries (underlays ch)))" if "t \<in> dom (constraints ch)" for t
      using that False Suc.prems(4) [of n]
      by (auto simp: short_of_def list_ex_iff enumerates_def count_of_CountsByType not_less)
    with False run g show ?thesis by (fastforce simp: grown_def)
  qed
qed

section \<open>Properties of the constraint enforcement\<close>

text \<open>
  C10. With a dialer that succeeds, the channel gets what it desires: on an open channel that
  meets its minimums, a constraint run returns after at most one traversal more than there are
  underlays missing, in whatever orders the traversals visit the types, with every type at or
  above its desired count, the channel open and the in-progress flag released.
\<close>

theorem applyConstraints_reaches_desired:
  assumes "dialer_succeeds dial" "dialPolicy ch" "\<not> flagClosed ch" "\<not> applyInProgress ch" "constraints_met ch"
    and "[] \<notin> dom (constraints ch)"
    and "enumerates ks (constraints ch)" "\<And>n. enumerates (ord n) (constraints ch)" "deficit ch < fuel"
  shows "\<exists>ch' p'. applyConstraints dial uclose opt ks ord fuel (ch, p) = Some (Inr (ch', p')) \<and> \<not> IsClosed ch' \<and>
    \<not> applyInProgress ch' \<and> areConstraintDesiresSatisfied ks ch'"
proof (cases "constraints ch = Map.empty \<and> minTotalUnderlays ch = 0")
  case True
  with assms(3,4,7) show ?thesis
    by (simp add: applyConstraints_def IsClosed_def areConstraintDesiresSatisfied_def enumerates_def)
next
  case some: False
  let ?ch = "ch\<lparr>applyInProgress := True\<rparr>"
  have start: "open_capable ?ch" "constraints_met ?ch" "deficit ?ch < fuel" "\<And>n. enumerates (ord n) (constraints ?ch)"
      "[] \<notin> dom (constraints ?ch)"
    using assms by (simp_all add: open_capable_def isMultiUnderlayCapable_def constraints_met_def deficit_def missing_def)
  obtain ch' p' where
    run: "applyLoop dial uclose opt ord fuel (?ch, p) = Some (Inr (ch', p'))"
    and ch': "open_capable ch'" "constraints ch' = constraints ch"
      "\<forall>t\<in>dom (constraints ch). Desired (the (constraints ch t)) \<le> int (type_count t (entries (underlays ch')))"
    using applyLoop_reaches [OF assms(1) start(1,2,4,3,5)] by fastforce
  have sat: "areConstraintDesiresSatisfied ks (ch'\<lparr>applyInProgress := False\<rparr>)"
    using ch' assms(7) by (simp add: areConstraintDesiresSatisfied_def list_all_iff enumerates_def count_of_CountsByType not_less)
  have "checkConstraintsValid uclose ks True ch = Inr (True, ch)"
    using countsShowValidState_eq [OF assms(7)] assms(5) by (simp add: checkConstraintsValid_def)
  then have "applyConstraints dial uclose opt ks ord fuel (ch, p) = Some (Inr (ch'\<lparr>applyInProgress := False\<rparr>, p'))"
    using some assms(2-4) run sat by (auto simp: applyConstraints_def IsClosed_def Let_def)
  with sat ch'(1) show ?thesis by (auto simp: open_capable_def IsClosed_def)
qed

definition sample_dial :: "nat dial" where
  "sample_dial t cid sec first timeout p =
     (Inr \<lparr>uid = p, uId = ''peer'', uConnectionId = cid,
           uHeaders = [TypeHeader \<mapsto> string_bytes t, GroupSecretHeader \<mapsto> sec], uCreatedAt = 0\<rparr>, Suc p)"

definition sample_wanting :: channelImpl where
  "sample_wanting = sample_channel\<lparr>dialPolicy := True, constraints := [''a'' \<mapsto> OneUnderlay, ''b'' \<mapsto> OptionalUnderlays 2]\<rparr>"

lemma sample_wanting_met: "constraints_met sample_wanting" "deficit sample_wanting < 3"
proof -
  have m: "minTotalUnderlays sample_channel = 1"
    by (simp add: sample_channel_def startMultiplex_def sample_config_def)
  show "constraints_met sample_wanting" "deficit sample_wanting < 3"
    by (simp_all add: constraints_met_def deficit_def missing_def sample_wanting_def m OneUnderlay_def OptionalUnderlays_def)
qed

theorem applyConstraints_reaches_desired_witness:
  "\<exists>ch' p'. applyConstraints sample_dial no_close_error None [''b'', ''a''] (\<lambda>n. [''a'', ''b'']) 3 (sample_wanting, 2) =
     Some (Inr (ch', p')) \<and> \<not> IsClosed ch' \<and> \<not> applyInProgress ch' \<and> areConstraintDesiresSatisfied [''b'', ''a''] ch'"
proof (rule applyConstraints_reaches_desired [OF _ _ _ _ sample_wanting_met(1) _ _ _ sample_wanting_met(2)])
  show "dialer_succeeds sample_dial"
    by (simp add: dialer_succeeds_def sample_dial_def secret_of_def GetUnderlayType_def hget_def header_keys)
  show "\<not> applyInProgress sample_wanting"
    by (simp add: sample_wanting_def sample_channel_def startMultiplex_def emit_def addUnderlay_def Add_underlay_def initialImpl_def)
qed (auto simp: sample_wanting_def enumerates_def)

text \<open>
  A channel that falls below a minimum closes at once: whenever a type has fewer underlays
  than its minimum, or all types together fewer than the minimum total, a constraint run closes
  the channel with all its underlays before it looks at the in-progress flag, so also while
  another run is dialing or backing off.
\<close>

theorem below_minimum_closes:
  assumes "\<not> constraints_met ch" "\<not> flagClosed ch" "\<not> closeNotifyC ch" "enumerates ks (constraints ch)"
    and "constraints ch \<noteq> Map.empty \<or> minTotalUnderlays ch \<noteq> 0"
  shows "applyConstraints dial uclose opt ks ord fuel (ch, p) = Some (Inr (closed_channel ch, p))"
proof -
  obtain e where "Close uclose ch = Inr (e, closed_channel ch)"
    using assms(2,3) by (cases rule: Close_cases [of ch uclose]) auto
  then have "checkConstraintsValid uclose ks True ch = Inr (False, closed_channel ch)"
    using countsShowValidState_eq [OF assms(4)] assms(1) by (simp add: checkConstraintsValid_def closeIf_def)
  with assms(2,5) show ?thesis by (auto simp: applyConstraints_def IsClosed_def)
qed

theorem below_minimum_closes_witness:
  "applyConstraints sample_dial no_close_error None [''b''] (\<lambda>n. [''b'']) 0
     (sample_channel\<lparr>constraints := [''b'' \<mapsto> OneUnderlay], applyInProgress := True\<rparr>, 2) =
   Some (Inr (closed_channel (sample_channel\<lparr>constraints := [''b'' \<mapsto> OneUnderlay], applyInProgress := True\<rparr>), 2))"
proof (rule below_minimum_closes)
  show "\<not> constraints_met (sample_channel\<lparr>constraints := [''b'' \<mapsto> OneUnderlay], applyInProgress := True\<rparr>)"
    by (simp add: constraints_met_def OneUnderlay_def)
qed (simp_all add: enumerates_def)

end
