(* ===== verification/Single_Channel.thy ===== *)
theory Single_Channel
  imports Channel_IO
begin

text \<open>
  Channels on one underlay: \<^verbatim>\<open>NewSingleChannel\<close> and its helpers in \<^verbatim>\<open>impl.go\<close>, the
  queues of \<^verbatim>\<open>senders.go\<close> they are made of, and the typed bindings of \<^verbatim>\<open>bind.go\<close> and
  \<^verbatim>\<open>handler.go\<close>.
\<close>

section \<open>Queues\<close>

text \<open>
  A sender context is a sequence counter and a close channel; \<open>q0\<close> is the state of a new
  counter. A queue of negative size panics.
\<close>

definition NewSenderContext :: "'q \<Rightarrow> 'q \<times> bool" where
  "NewSenderContext q0 = (q0, False)"

definition NewSingleChSender :: "'q \<times> bool \<Rightarrow> Sendable gochan \<Rightarrow> 'q sender" where
  "NewSingleChSender ctx c = \<lparr>seqState = fst ctx, closeNotify = snd ctx, msgC = c\<rparr>"

definition NewMessageQueue :: "'q \<times> bool \<Rightarrow> int64 \<Rightarrow> 'q sender res" where
  "NewMessageQueue ctx n =
     (if sint n < 0 then Inl GoPanic else Inr (NewSingleChSender ctx (make_chan (nat (sint n)))))"

section \<open>Typed bindings\<close>

text \<open>A typed bind handler also gets the senders; \<open>None\<close> is a nil handler.\<close>

type_synonym 's typed_bind_handler = "'s \<Rightarrow> bind_handler"

fun runTypedBindHandlers :: "'s typed_bind_handler option list \<Rightarrow> 's typed_bind_handler" where
  "runTypedBindHandlers [] senders ch = (None, ch)"
| "runTypedBindHandlers (None # hs) senders ch = runTypedBindHandlers hs senders ch"
| "runTypedBindHandlers (Some h # hs) senders ch =
     (case h senders ch of (Some e, ch) \<Rightarrow> (Some e, ch) | (None, ch) \<Rightarrow> runTypedBindHandlers hs senders ch)"

definition TypedBindHandlers :: "'s typed_bind_handler option list \<Rightarrow> 's typed_bind_handler option" where
  "TypedBindHandlers handlers = (case handlers of [h] \<Rightarrow> h | _ \<Rightarrow> Some (runTypedBindHandlers handlers))"

definition MakeTypedBinder :: "'s \<Rightarrow> 's typed_bind_handler option \<Rightarrow> bind_handler" where
  "MakeTypedBinder senders handler ch = (case handler of None \<Rightarrow> (None, ch) | Some h \<Rightarrow> h senders ch)"

text \<open>A content type receiver is its content type and its handler.\<close>

fun AddReceiveHandlers :: "(int32 \<times> nat) list \<Rightarrow> channelImpl \<Rightarrow> channelImpl" where
  "AddReceiveHandlers [] ch = ch"
| "AddReceiveHandlers ((contentType, h) # hs) ch = AddReceiveHandlers hs (AddReceiveHandler contentType h ch)"

definition SetLogicalName :: "string \<Rightarrow> channelImpl \<Rightarrow> channelImpl" where
  "SetLogicalName n ch = ch\<lparr>logicalName := n\<rparr>"

section \<open>Single channels\<close>

definition single_HandleTxFailed :: "string \<Rightarrow> Sendable \<Rightarrow> bool" where
  "single_HandleTxFailed underlayType s = False"

definition singleMessageSource ::
    "nat \<Rightarrow> bool \<Rightarrow> bool \<Rightarrow> Sendable gochan \<Rightarrow> (Sendable res \<times> Sendable gochan) option" where
  "singleMessageSource pick senderClosed notifierClosed msgChan =
     sel pick ((case chan_recv msgChan of None \<Rightarrow> [] | Some (msg, c) \<Rightarrow> [(Inr msg, c)]) @
       (if senderClosed then [(Inl ErrEOF, msgChan)] else []) @ (if notifierClosed then [(Inl ErrEOF, msgChan)] else []))"

definition singleConfig :: "string \<Rightarrow> Underlay \<Rightarrow> bind_handler option \<Rightarrow> config" where
  "singleConfig name u bindHandler =
     \<lparr>cfgLogicalName = name, cfgSenders = True, cfgSendersClosed = False, cfgMessageSourceProvider = True,
      cfgBinder = Some (MakeBinder bindHandler), cfgUnderlay = Some u, cfgInjectUnderlayType = False,
      cfgValidUnderlayTypes = [], cfgDialPolicy = False, cfgConstraints = Map.empty, cfgMinTotalUnderlays = 0,
      cfgListeners = []\<rparr>"

text \<open>\<open>opts\<close> are the connect timeout and the queue size of the options, \<open>None\<close> for nil options.\<close>

definition NewSingleChannelWithUnderlay ::
    "(nat \<Rightarrow> err option) \<Rightarrow> 'q \<Rightarrow> string \<Rightarrow> Underlay \<Rightarrow> bind_handler option \<Rightarrow> (int64 \<times> int64) option \<Rightarrow>
     (err option \<times> channelImpl option \<times> 'q sender) res" where
  "NewSingleChannelWithUnderlay uclose q0 name u bindHandler opts =
     (let outQueueSize = (case opts of None \<Rightarrow> DefaultOutQueueSize | Some (_, n) \<Rightarrow> n)
      in rbind (NewMessageQueue (NewSenderContext q0) outQueueSize) (\<lambda>sender.
         rbind (NewChannel uclose (singleConfig name u bindHandler)) (\<lambda>(e, ch). Inr (e, ch, sender))))"

text \<open>\<open>create\<close> is the underlay factory.\<close>

definition NewSingleChannel ::
    "(nat \<Rightarrow> err option) \<Rightarrow> (int64 \<Rightarrow> Underlay res) \<Rightarrow> 'q \<Rightarrow> string \<Rightarrow> bind_handler option \<Rightarrow> (int64 \<times> int64) option \<Rightarrow>
     (err option \<times> channelImpl option \<times> 'q sender option) res" where
  "NewSingleChannel uclose create q0 name bindHandler opts =
     (let timeout = (case opts of None \<Rightarrow> 0 | Some (t, _) \<Rightarrow> t)
      in case create timeout of
           Inl e \<Rightarrow> Inr (Some e, None, None)
         | Inr u \<Rightarrow>
             rbind (NewSingleChannelWithUnderlay uclose q0 name u bindHandler opts) (\<lambda>(e, ch, s). Inr (e, ch, Some s)))"

section \<open>The life of a single channel\<close>

lemma singleMessageSource_eq:
  "singleMessageSource pick closed notifierClosed q = MakeSingleQueueMessageSource pick closed notifierClosed q"
  by (simp add: singleMessageSource_def MakeSingleQueueMessageSource_def recv_case_def eof_cases_def)

lemma not_capable_steps:
  assumes "ch_step uclose (ch, pend) (ch', pend')" "\<not> isMultiUnderlayCapable ch" "distinct (map uid (entries (underlays ch)))"
  shows "\<not> isMultiUnderlayCapable ch' \<and> set (entries (underlays ch')) \<subseteq> set (entries (underlays ch))"
proof -
  have same: "\<not> isMultiUnderlayCapable b \<and> entries (underlays b) = entries (underlays ch)" if "maybe_closed ch b" for b
    using that maybe_closed_capable [OF that] assms(2) by (auto simp: maybe_closed_def same_members_def)
  have keep: ?thesis if "maybe_closed ch ch'" using same [OF that] by simp
  from assms(1) show ?thesis
  proof cases
    case (step_accept u e)
    show ?thesis
    proof (cases rule: AcceptUnderlay_cases [of uclose u ch])
      case (refused x)
      then have "ch' = ch\<lparr>closedU := insert (uid u) (closedU ch)\<rparr>" using step_accept by (simp add: snd_closeU)
      then show ?thesis using assms(2) by (simp add: isMultiUnderlayCapable_def)
    next
      case accepted
      with assms(2) show ?thesis by simp
    qed
  next
    case (step_close e)
    show ?thesis by (rule keep) (rule maybe_closed_Close [OF step_close(2)])
  next
    case (step_check ks b v)
    show ?thesis by (rule keep) (rule maybe_closed_countsShowValidState [OF step_check(2) [unfolded checkConstraintsValid_def]])
  next
    case (step_rx now ks m)
    show ?thesis by (rule keep) (rule maybe_closed_rx [OF step_rx(2)])
  next
    case (step_tx env now u t s wt e)
    show ?thesis by (rule keep) (rule maybe_closed_tx [OF step_tx(2)])
  next
    case (step_remove now u)
    obtain c where c: "maybe_closed c ch'" "c = ch\<lparr>closedU := insert (uid u) (closedU ch), notified := insert (uid u) (notified ch),
            underlays := (underlays ch)\<lparr>entries := filter (\<lambda>e. uid e \<noteq> uid u) (entries (underlays ch))\<rparr>\<rparr>"
      by (rule closeUnderlay_remove_elim [OF step_remove(2) assms(3)])
    have "\<not> isMultiUnderlayCapable c" "set (entries (underlays c)) \<subseteq> set (entries (underlays ch))"
      using assms(2) by (auto simp: c(2) isMultiUnderlayCapable_def)
    then show ?thesis using c(1) maybe_closed_capable [OF c(1)] by (simp add: maybe_closed_def same_members_def)
  next
    case (step_fallback pre u post)
    then show ?thesis using assms(2) by (simp add: closeUnderlay_fallback_def isMultiUnderlayCapable_def Let_def)
  qed
qed

lemma singleConfig_simps:
  fixes name u handler defines "cfg \<equiv> singleConfig name u handler"
  shows "cfgBinder cfg = Some (MakeBinder handler)" "cfgSenders cfg" "cfgMessageSourceProvider cfg" "cfgUnderlay cfg = Some u"
    "\<not> cfgDialPolicy cfg" "cfgConstraints cfg = Map.empty" "cfgMinTotalUnderlays cfg = 0"
  by (simp_all add: cfg_def singleConfig_def)

lemma single_channel_new:
  assumes "NewSingleChannelWithUnderlay uclose q0 name u handler opts = Inr (None, Some ch, s)"
    and "registers_only (Some (MakeBinder handler))"
  shows "new_state uclose (ch, [])" "\<not> isMultiUnderlayCapable ch" "entries (underlays ch) = [u]" "\<not> IsClosed ch"
proof -
  let ?cfg = "singleConfig name u handler"
  have new: "NewChannel uclose ?cfg = Inr (None, Some ch)"
    using assms(1) by (auto simp: NewSingleChannelWithUnderlay_def Let_def rbind_eq_Inr)
  then show "new_state uclose (ch, [])"
    using assms(2) by (auto simp: new_state_def singleConfig_def)
  obtain ph th rh eh clh ud where b: "bind_channel (Some (MakeBinder handler)) (initialImpl ?cfg u) =
     (None, (initialImpl ?cfg u)\<lparr>peekHandlers := ph, transformHandlers := th, receiveHandlers := rh, errorHandlers := eh,
               closeHandlers := clh, userData := ud\<rparr>)"
    using assms(2) unfolding registers_only_def by meson
  have "ch = emit [EvGoApplyConstraints] (startMultiplex u (addUnderlay u ((initialImpl ?cfg u)
      \<lparr>peekHandlers := ph, transformHandlers := th, receiveHandlers := rh, errorHandlers := eh, closeHandlers := clh, userData := ud\<rparr>)))"
    using new by (simp add: NewChannel_def singleConfig_simps b Let_def)
  then show "\<not> isMultiUnderlayCapable ch" "entries (underlays ch) = [u]" "\<not> IsClosed ch"
    by (simp_all add: isMultiUnderlayCapable_def startMultiplex_def singleConfig_simps IsClosed_def)
qed


text \<open>A single channel without a bind handler.\<close>

definition sample_single :: channelImpl where
  "sample_single = emit [EvGoApplyConstraints] (startMultiplex (sample_underlay 1 ''a'') (addUnderlay (sample_underlay 1 ''a'')
     (initialImpl (singleConfig ''s'' (sample_underlay 1 ''a'') None) (sample_underlay 1 ''a''))))"

lemma sample_single_new:
  "\<exists>s. NewSingleChannelWithUnderlay no_close_error (0 :: nat) ''s'' (sample_underlay 1 ''a'') None None = Inr (None, Some sample_single, s)"
  "registers_only (Some (MakeBinder None))"
proof -
  have b: "bind_channel (Some (MakeBinder None)) = bind_channel None" by (rule ext) (simp add: bind_channel_def MakeBinder_def)
  then show "registers_only (Some (MakeBinder None))" using registers_only_None by (simp add: registers_only_def)
  let ?cfg = "singleConfig ''s'' (sample_underlay 1 ''a'') None"
  have "NewChannel no_close_error ?cfg = Inr (None, Some sample_single)"
    by (simp add: NewChannel_def sample_single_def Let_def del: initialImpl_simps) (simp add: singleConfig_def b bind_channel_def)
  then show "\<exists>s. NewSingleChannelWithUnderlay no_close_error (0 :: nat) ''s'' (sample_underlay 1 ''a'') None None = Inr (None, Some sample_single, s)"
    by (simp add: NewSingleChannelWithUnderlay_def NewMessageQueue_def DefaultOutQueueSize_def)
qed


text \<open>When the bind handler fails, the caller gets its error and the underlay is closed.\<close>

theorem single_channel_bind_failure:
  assumes "NewSingleChannelWithUnderlay uclose q0 name u handler opts = Inr (Some e, Some ch, s)"
  shows "uid u \<in> closedU ch"
proof -
  let ?cfg = "singleConfig name u handler"
  have "NewChannel uclose ?cfg = Inr (Some e, Some ch)"
    using assms by (auto simp: NewSingleChannelWithUnderlay_def Let_def rbind_eq_Inr)
  then show ?thesis
    by (auto simp: NewChannel_def singleConfig_simps Let_def rbind_eq_Inr snd_closeU split: option.splits prod.splits)
qed

end
