(* ===== verification/Hello.thy ===== *)
theory Hello
  imports Conn_Underlays Go_Chan Underlays
begin

text \<open>
  The hello handshake: \<^verbatim>\<open>classic_dialer.go\<close>, \<^verbatim>\<open>classic_listener.go\<close>,
  \<^verbatim>\<open>hello_reject.go\<close>, \<^verbatim>\<open>hello_acceptor.go\<close> and
  \<^verbatim>\<open>accept_dispatcher.go\<close>. Both ends run on connections of \<open>Conn_Underlays\<close>; the
  answers of the transport, the clock and the generators of ids and secrets are arguments. An
  acceptor is a function of the underlay and of the acknowledgement it is handed.
\<close>

section \<open>The underlay interface\<close>

text \<open>\<^verbatim>\<open>classicUnderlay\<close>, with its two implementations.\<close>

datatype classicUnderlay = Classic classicImpl | Datagram DatagramUnderlay

text \<open>
  What the transport answers to the calls of one handshake: the errors of setting and clearing the
  deadline, of the write and of the close, the packet reader's answer to an oversized packet, and
  the order in which the headers of the written message are visited.
\<close>

record hello_env =
  setDeadline :: "err option"
  clearDeadline :: "err option"
  writeAnswer :: "(nat \<times> err) option"
  closeAnswer :: "err option"
  oversize :: "bytes \<Rightarrow> bytes res"
  headerOrder :: "int32 list"

fun cu_Tx :: "hello_env \<Rightarrow> Message \<Rightarrow> classicUnderlay \<Rightarrow> err option \<times> classicUnderlay" where
  "cu_Tx env m (Classic c) = map_prod id Classic (classic_Tx (writeAnswer env) (headerOrder env) m c)"
| "cu_Tx env m (Datagram d) = map_prod id Datagram (datagram_Tx (writeAnswer env) (headerOrder env) m d)"

fun cu_Rx :: "hello_env \<Rightarrow> classicUnderlay \<Rightarrow> Message res \<times> classicUnderlay" where
  "cu_Rx env (Classic c) = map_prod id Classic (classic_Rx c)"
| "cu_Rx env (Datagram d) = map_prod id Datagram (datagram_Rx (oversize env) d)"

fun cu_rxHello :: "hello_env \<Rightarrow> classicUnderlay \<Rightarrow> Message res \<times> classicUnderlay" where
  "cu_rxHello env (Classic c) = map_prod id Classic (classic_rxHello c)"
| "cu_rxHello env (Datagram d) = map_prod id Datagram (datagram_rxHello (oversize env) d)"

fun cu_Close :: "hello_env \<Rightarrow> classicUnderlay \<Rightarrow> err option \<times> classicUnderlay" where
  "cu_Close env (Classic c) = map_prod id Classic (classic_Close (closeAnswer env) c)"
| "cu_Close env (Datagram d) = map_prod id Datagram (datagram_Close (closeAnswer env) d)"

fun cu_IsClosed :: "classicUnderlay \<Rightarrow> bool" where
  "cu_IsClosed (Classic c) = cu_closed c"
| "cu_IsClosed (Datagram d) = cu_closed d"

fun cu_init :: "string \<Rightarrow> string \<Rightarrow> headers \<Rightarrow> classicUnderlay \<Rightarrow> classicUnderlay" where
  "cu_init i connectionId h (Classic c) = Classic (classic_init i connectionId h c)"
| "cu_init i connectionId h (Datagram d) = Datagram (datagram_init i connectionId h d)"

fun cu_Headers :: "classicUnderlay \<Rightarrow> headers" where
  "cu_Headers (Classic c) = cu_headers c"
| "cu_Headers (Datagram d) = cu_headers d"

fun cu_ConnectionId :: "classicUnderlay \<Rightarrow> string" where
  "cu_ConnectionId (Classic c) = cu_connectionId c"
| "cu_ConnectionId (Datagram d) = cu_connectionId d"

fun cu_Id :: "classicUnderlay \<Rightarrow> string" where
  "cu_Id (Classic c) = cu_id c"
| "cu_Id (Datagram d) = cu_id d"

fun getPeer :: "classicUnderlay \<Rightarrow> conn" where
  "getPeer (Classic c) = peer c"
| "getPeer (Datagram d) = peer d"

fun setPeer :: "conn \<Rightarrow> classicUnderlay \<Rightarrow> classicUnderlay" where
  "setPeer p (Classic c) = Classic (c\<lparr>peer := p\<rparr>)"
| "setPeer p (Datagram d) = Datagram (d\<lparr>peer := p\<rparr>)"

text \<open>Closing the connection under an underlay, which does not mark the underlay itself.\<close>

definition peer_Close :: "hello_env \<Rightarrow> classicUnderlay \<Rightarrow> classicUnderlay" where
  "peer_Close env u = setPeer (snd (conn_Close (closeAnswer env) (getPeer u))) u"

text \<open>The factory that a dialer and a listener choose by the endpoint's type.\<close>

definition underlayFactory :: "bool \<Rightarrow> MessageStrategy option \<Rightarrow> conn \<Rightarrow> uint32 \<Rightarrow> int64 \<Rightarrow> classicUnderlay" where
  "underlayFactory dtls strategy p version now =
     (if dtls then Datagram (newDatagramUnderlay strategy p version now)
      else Classic (newClassicImpl strategy p version now))"

section \<open>Errors\<close>

definition RejectClassUnspecified :: int32 where "RejectClassUnspecified = 0"
definition RejectClassBusy :: int32 where "RejectClassBusy = 1"
definition RejectClassNotPermitted :: int32 where "RejectClassNotPermitted = 2"

definition RejectClass_String :: "int32 \<Rightarrow> string" where
  "RejectClass_String c =
     (if c = RejectClassBusy then ''busy''
      else if c = RejectClassNotPermitted then ''not-permitted''
      else ''unspecified'')"

definition RejectedError_Error :: "int32 \<Rightarrow> string \<Rightarrow> string" where
  "RejectedError_Error c message =
     (if message \<noteq> [] then message
      else if c = RejectClassUnspecified then ''hello rejected''
      else ''hello rejected: '' @ RejectClass_String c)"

text \<open>
  The text of an error, \<^verbatim>\<open>err.Error()\<close>; \<open>io n\<close> is the text of the transport's error
  \<open>n\<close>.
\<close>

fun join_lines :: "string list \<Rightarrow> string" where
  "join_lines [] = []"
| "join_lines [s] = s"
| "join_lines (s # ss) = s @ [char_of (10::nat)] @ join_lines ss"

fun err_text :: "(nat \<Rightarrow> string) \<Rightarrow> err \<Rightarrow> string" where
  "err_text io ErrEOF = ''EOF''"
| "err_text io ErrUnexpectedEOF = ''unexpected EOF''"
| "err_text io ErrShortBuffer = ''short buffer''"
| "err_text io ErrNetClosed = ''use of closed network connection''"
| "err_text io (ErrIO n) = io n"
| "err_text io (ErrApp t) = t"
| "err_text io (ErrText t) = t"
| "err_text io BadMagicNumberError = ''protocol error: invalid header''"
| "err_text io (UnsupportedVersionError vs) = ''server did not support requested channel version''"
| "err_text io DeadlineExceeded = ''context deadline exceeded''"
| "err_text io Canceled = ''context canceled''"
| "err_text io (TimeoutError e) = err_text io e"
| "err_text io ClosedError = ''channel closed''"
| "err_text io ListenerClosedError = ''closed''"
| "err_text io (RejectedError c m) = RejectedError_Error c m"
| "err_text io (NonRetryableError e) = err_text io e"
| "err_text io (ErrWrap t e) = t @ '': '' @ err_text io e"
| "err_text io (ErrJoin es) = join_lines (map (err_text io) es)"
| "err_text io GoPanic = []"

definition IsNonRetryable :: "err \<Rightarrow> bool" where
  "IsNonRetryable e = list_ex (\<lambda>x. case x of NonRetryableError _ \<Rightarrow> True | _ \<Rightarrow> False) (err_chain e)"

definition GetRejectClass :: "err option \<Rightarrow> int32" where
  "GetRejectClass e =
     (case e of
        None \<Rightarrow> RejectClassUnspecified
      | Some e \<Rightarrow>
          (case List.find (\<lambda>x. case x of RejectedError _ _ \<Rightarrow> True | _ \<Rightarrow> False) (err_chain e) of
             Some (RejectedError c _) \<Rightarrow> c
           | _ \<Rightarrow> RejectClassUnspecified))"

definition getRejectClass :: "Message \<Rightarrow> int32" where
  "getRejectClass response =
     (case GetUint32Header HelloRejectClassHeader (Headers response) of
        (class, True) \<Rightarrow> class
      | (_, False) \<Rightarrow> RejectClassUnspecified)"

section \<open>The dialer\<close>

text \<open>
  \<^verbatim>\<open>helloHeaderProvider\<close> is application code that edits the headers; its certificates
  are fixed for a connection. \<open>peerName\<close> is the common name of the peer's first certificate,
  if it presented one.
\<close>

record classicDialer =
  dialerToken :: string
  dialerHeaders :: headers
  dialerDtls :: bool
  dialerStrategy :: "MessageStrategy option"
  helloHeaderProvider :: "(headers \<Rightarrow> headers res) option"

definition helloRequest :: "classicDialer \<Rightarrow> headers \<Rightarrow> Message" where
  "helloRequest d h =
     (let request = NewHello (dialerToken d) (dialerHeaders d)
      in request\<lparr>Headers := copyHeaders h (Headers request)\<rparr>)"

text \<open>The connection of a successful exchange, lines 224--243.\<close>

definition helloDone :: "string option \<Rightarrow> Message \<Rightarrow> Message \<Rightarrow> classicUnderlay \<Rightarrow> classicUnderlay" where
  "helloDone peerName request response u =
     (let connectionId = bytes_string (hget (Headers request) ConnectionIdHeader);
          connectionId = (if connectionId = [] then bytes_string (hget (Headers response) ConnectionIdHeader) else connectionId);
          i = (case GetStringHeader IdHeader (Headers response) of
                 (val, True) \<Rightarrow> val
               | _ \<Rightarrow> (case peerName of Some n \<Rightarrow> n | None \<Rightarrow> []))
      in cu_init i connectionId ((Headers response)(TypeHeader \<mapsto> hget (Headers request) TypeHeader)) u)"

text \<open>\<open>sendHello\<close>: on every error path the deferred function closes the underlay.\<close>

definition sendHello ::
    "hello_env \<Rightarrow> string option \<Rightarrow> classicDialer \<Rightarrow> headers \<Rightarrow> classicUnderlay \<Rightarrow> err option \<times> classicUnderlay" where
  "sendHello env peerName d h underlay =
     (let failed = (\<lambda>e u. (Some e, snd (cu_Close env u)))
      in case setDeadline env of
        Some e \<Rightarrow> failed e underlay
      | None \<Rightarrow>
          (let request = helloRequest d h
           in case (case helloHeaderProvider d of None \<Rightarrow> Inr (Headers request) | Some f \<Rightarrow> f (Headers request)) of
                Inl e \<Rightarrow> failed (NonRetryableError e) underlay
              | Inr adjusted \<Rightarrow>
                  (let request = SetSequence HelloSequence (request\<lparr>Headers := adjusted\<rparr>)
                   in case cu_Tx env request underlay of
                        (Some e, u) \<Rightarrow> failed e u
                      | (None, u) \<Rightarrow>
                          (case cu_Rx env u of
                             (Inl e, u) \<Rightarrow>
                               failed (if errors_Is e BadMagicNumberError
                                       then ErrText ''could not negotiate connection, invalid header'' else e) u
                           | (Inr response, u) \<Rightarrow>
                               if \<not> IsReplyingTo HelloSequence response \<or> ContentType response \<noteq> ContentTypeResultType
                               then failed (ErrText ''channel synchronization error'') u
                               else if \<not> Success (UnmarshalResult response)
                               then failed (NonRetryableError (RejectedError (getRejectClass response)
                                              (ResultMessage (UnmarshalResult response)))) u
                               else (None, helloDone peerName request response u)))))"

text \<open>
  \<^verbatim>\<open>CreateWithHeaders\<close>: \<open>att n\<close> is what the environment does in try \<open>n\<close>:
  whether the deadline has not passed, the connection or error of the transport's dial, and the
  answers during the handshake. The result comes with the underlays that were made, in order.
\<close>

record dial_attempt =
  beforeDeadline :: bool
  dialResult :: "conn res"
  attemptNow :: int64
  attemptPeer :: "string option"
  attemptEnv :: hello_env

function createLoop ::
    "(nat \<Rightarrow> dial_attempt) \<Rightarrow> classicDialer \<Rightarrow> headers \<Rightarrow> nat \<Rightarrow> uint32 \<Rightarrow> classicUnderlay res \<times> classicUnderlay list" where
  "createLoop att d h tryCount version =
     (let a = att tryCount
      in if \<not> beforeDeadline a then (Inl (ErrText ''timeout waiting for dial''), [])
         else case dialResult a of
           Inl e \<Rightarrow> (Inl e, [])
         | Inr p \<Rightarrow>
             (case sendHello (attemptEnv a) (attemptPeer a) d h
                     (underlayFactory (dialerDtls d) (dialerStrategy d) p version (attemptNow a)) of
                (None, u) \<Rightarrow> (Inr u, [u])
              | (Some e, u) \<Rightarrow>
                  if tryCount > 0 \<or> IsNonRetryable e then (Inl e, [u])
                  else (case GetRetryVersion e of
                          (_, False) \<Rightarrow> (Inl e, [u])
                        | (retryVersion, True) \<Rightarrow>
                            (case createLoop att d h (tryCount + 1) retryVersion of (r, us) \<Rightarrow> (r, u # us)))))"
  by pat_completeness auto
termination
  by (relation "measure (\<lambda>(att, d, h, tryCount, version). 1 - tryCount)") auto

declare createLoop.simps [simp del]

definition CreateWithHeaders :: "(nat \<Rightarrow> dial_attempt) \<Rightarrow> classicDialer \<Rightarrow> headers \<Rightarrow> classicUnderlay res \<times> classicUnderlay list" where
  "CreateWithHeaders att d h = createLoop att d h 0 2"

definition Create :: "(nat \<Rightarrow> dial_attempt) \<Rightarrow> classicDialer \<Rightarrow> classicUnderlay res \<times> classicUnderlay list" where
  "Create att d = CreateWithHeaders att d Map.empty"

section \<open>The listener\<close>

record classicListener =
  listenerToken :: "string option"
  listenerHeaders :: headers
  listenerHeadersF :: "headers option"
  listenerHandlers :: "(Hello \<Rightarrow> err option) list"

definition receiveHello :: "hello_env \<Rightarrow> classicUnderlay \<Rightarrow> (Message \<times> Hello) res \<times> classicUnderlay" where
  "receiveHello env impl =
     (case cu_rxHello env impl of
        (Inl e, u) \<Rightarrow>
          (let u = (if errors_Is e BadMagicNumberError
                    then setPeer (snd (conn_Write (writeAnswer env) WriteUnknownVersionResponse (getPeer u))) u else u)
           in (Inl (ErrText ''receive error''), snd (cu_Close env u)))
      | (Inr request, u) \<Rightarrow>
          if ContentType request \<noteq> ContentTypeHelloType
          then (Inl (ErrText ''unexpected content type''), snd (cu_Close env u))
          else (Inr (request, UnmarshalHello request), u))"

definition ackResponse :: "classicListener \<Rightarrow> string \<Rightarrow> Message \<Rightarrow> bool \<Rightarrow> string \<Rightarrow> Message" where
  "ackResponse l connectionId request success message =
     (let response = NewResult success message;
          h = copyHeaders (listenerHeaders l) (Headers response);
          h = (case listenerHeadersF l of None \<Rightarrow> h | Some f \<Rightarrow> copyHeaders f h);
          h = PutStringHeader ConnectionIdHeader connectionId h;
          h = (case listenerToken l of None \<Rightarrow> h | Some token \<Rightarrow> PutStringHeader IdHeader token h);
          h = (if fst (GetBoolHeader IsGroupedHeader (Headers request)) then PutBoolHeader IsGroupedHeader True h else h);
          underlayType = fst (GetStringHeader TypeHeader (Headers request));
          h = (if underlayType \<noteq> [] then PutStringHeader TypeHeader underlayType h else h);
          secret = hget (Headers request) GroupSecretHeader;
          h = (if length secret > 0 then h(GroupSecretHeader \<mapsto> secret) else h);
          response = response\<lparr>Headers := h, sequence := HelloSequence\<rparr>
      in ReplyTo request response)"

definition ackHello :: "hello_env \<Rightarrow> classicListener \<Rightarrow> Message \<Rightarrow> bool \<Rightarrow> string \<Rightarrow> classicUnderlay \<Rightarrow> err option \<times> classicUnderlay" where
  "ackHello env l request success message impl =
     cu_Tx env (ackResponse l (cu_ConnectionId impl) request success message) impl"

text \<open>The connection handlers in order, up to the first error.\<close>

definition runHandlers :: "(Hello \<Rightarrow> err option) list \<Rightarrow> Hello \<Rightarrow> err option" where
  "runHandlers hs hello = (case List.find (\<lambda>h. h hello \<noteq> None) hs of None \<Rightarrow> None | Some h \<Rightarrow> h hello)"

text \<open>
  \<open>nextId\<close> is the result of \<^verbatim>\<open>NextConnectionId\<close>, \<open>uuidId\<close> and
  \<open>uuidSecret\<close> what \<^verbatim>\<open>uuid.New\<close> yields. \<^verbatim>\<open>hello.Headers\<close> and
  \<^verbatim>\<open>request.Headers\<close> are one map, so a generated secret is in both.
\<close>

definition listenerConnectionId :: "string res \<Rightarrow> string \<Rightarrow> headers \<Rightarrow> string" where
  "listenerConnectionId nextId uuidId h =
     (let connectionId = fst (GetStringHeader ConnectionIdHeader h);
          isGrouped = fst (GetBoolHeader IsGroupedHeader h)
      in if \<not> isGrouped \<or> connectionId = [] then (case nextId of Inl _ \<Rightarrow> uuidId | Inr i \<Rightarrow> i) else connectionId)"

definition listenerSecret :: "bytes \<Rightarrow> headers \<Rightarrow> headers" where
  "listenerSecret uuidSecret h =
     (if fst (GetBoolHeader IsGroupedHeader h) \<and> length (hget h GroupSecretHeader) = 0
      then h(GroupSecretHeader \<mapsto> uuidSecret) else h)"

type_synonym ack_fun = "classicUnderlay \<Rightarrow> err option \<times> classicUnderlay"
type_synonym hello_acceptor = "classicUnderlay \<Rightarrow> ack_fun \<Rightarrow> classicUnderlay"

text \<open>The function that \<^verbatim>\<open>acceptConnection\<close> queues, lines 194--253.\<close>

definition acceptQueued ::
    "hello_env \<Rightarrow> string res \<Rightarrow> string \<Rightarrow> bytes \<Rightarrow> hello_acceptor \<Rightarrow> classicListener \<Rightarrow> classicUnderlay \<Rightarrow> classicUnderlay" where
  "acceptQueued env nextId uuidId uuidSecret acceptor l impl =
     (case setDeadline env of
        Some e \<Rightarrow> peer_Close env impl
      | None \<Rightarrow>
          (let done = (\<lambda>u. case clearDeadline env of None \<Rightarrow> u | Some _ \<Rightarrow> peer_Close env u)
           in case receiveHello env impl of
                (Inl e, u) \<Rightarrow> done (peer_Close env u)
              | (Inr (request, hello), u) \<Rightarrow>
                  (case runHandlers (listenerHandlers l) hello of
                     Some e \<Rightarrow> done (peer_Close env u)
                   | None \<Rightarrow>
                       (let connectionId = listenerConnectionId nextId uuidId (Headers request);
                            h = listenerSecret uuidSecret (HelloHeaders hello);
                            request = request\<lparr>Headers := h\<rparr>;
                            u = cu_init (IdToken hello) connectionId h u
                        in done (acceptor u (ackHello env l request True []))))))"

text \<open>When the pool does not take the function, the connection is left as it is.\<close>

definition acceptConnection ::
    "bool \<Rightarrow> hello_env \<Rightarrow> string res \<Rightarrow> string \<Rightarrow> bytes \<Rightarrow> hello_acceptor \<Rightarrow> classicListener \<Rightarrow> classicUnderlay \<Rightarrow> classicUnderlay" where
  "acceptConnection queued env nextId uuidId uuidSecret acceptor l impl =
     (if queued then acceptQueued env nextId uuidId uuidSecret acceptor l impl else impl)"

text \<open>
  The life of a listener object: \<^verbatim>\<open>Close\<close> closes the notification channel once and the
  socket with it; \<^verbatim>\<open>Create\<close> hands out the next underlay or reports the closed listener.
  \<open>created\<close> is \<open>None\<close> for a listener not set up for it, else what its unbuffered
  channel offers.
\<close>

record listener_state =
  lclosed :: bool
  lcloseC :: bool
  lsocket :: bool
  created :: "classicUnderlay option option"

definition Listen ::
    "err option \<Rightarrow> (Hello \<Rightarrow> err option) list \<Rightarrow> classicListener \<times> listener_state \<Rightarrow> err option \<times> classicListener \<times> listener_state" where
  "Listen e handlers = (\<lambda>(l, st).
     let l = l\<lparr>listenerHandlers := listenerHandlers l @ handlers\<rparr>
     in case e of Some x \<Rightarrow> (Some x, l, st) | None \<Rightarrow> (None, l, st\<lparr>lsocket := True\<rparr>))"

definition listener_Close :: "err option \<Rightarrow> listener_state \<Rightarrow> (err option \<times> listener_state) res" where
  "listener_Close socketClose l =
     (if lclosed l then Inr (None, l)
      else if lcloseC l then Inl GoPanic
      else
        (let l = l\<lparr>lclosed := True, lcloseC := True\<rparr>
         in if lsocket l
            then (case socketClose of
                    Some e \<Rightarrow> Inr (Some e, l)
                  | None \<Rightarrow> Inr (None, l\<lparr>lsocket := False\<rparr>))
            else Inr (None, l\<lparr>lsocket := False\<rparr>)))"

definition listener_Create :: "nat \<Rightarrow> listener_state \<Rightarrow> classicUnderlay res option" where
  "listener_Create pick l =
     (case created l of
        None \<Rightarrow> Some (Inl (ErrText ''this listener was not set up for Create to be called, programming error''))
      | Some offered \<Rightarrow>
          sel pick ((case offered of None \<Rightarrow> [] | Some u \<Rightarrow> [Inr u]) @ (if lcloseC l then [Inl ListenerClosedError] else [])))"

section \<open>Acceptors\<close>

definition HelloAcceptorF :: "hello_env \<Rightarrow> (classicUnderlay \<Rightarrow> classicUnderlay) \<Rightarrow> hello_acceptor" where
  "HelloAcceptorF env f underlay ack =
     (case ack underlay of
        (Some e, u) \<Rightarrow> snd (cu_Close env u)
      | (None, u) \<Rightarrow> f u)"

text \<open>An \<^verbatim>\<open>UnderlayAcceptor\<close> takes the underlay over and may report an error.\<close>

type_synonym underlay_acceptor = "classicUnderlay \<Rightarrow> err option \<times> classicUnderlay"

definition AsHelloAcceptor :: "hello_env \<Rightarrow> underlay_acceptor \<Rightarrow> hello_acceptor" where
  "AsHelloAcceptor env acceptor =
     HelloAcceptorF env (\<lambda>underlay.
       case acceptor underlay of
         (Some e, u) \<Rightarrow> snd (cu_Close env u)
       | (None, u) \<Rightarrow> u)"

record TypeRoutingAcceptor =
  Acceptors :: "string \<rightharpoonup> hello_acceptor"
  DefaultAcceptor :: "hello_acceptor option"

definition routeHello :: "TypeRoutingAcceptor \<Rightarrow> headers \<Rightarrow> hello_acceptor option" where
  "routeHello r h =
     (case h TypeHeader of
        None \<Rightarrow> DefaultAcceptor r
      | Some chanType \<Rightarrow>
          (case Acceptors r (bytes_string chanType) of
             Some typed \<Rightarrow> Some typed
           | None \<Rightarrow> DefaultAcceptor r))"

definition TypeRouting_AcceptUnderlay :: "hello_env \<Rightarrow> TypeRoutingAcceptor \<Rightarrow> hello_acceptor" where
  "TypeRouting_AcceptUnderlay env r underlay ack =
     (case routeHello r (cu_Headers underlay) of
        None \<Rightarrow> snd (cu_Close env underlay)
      | Some acceptor \<Rightarrow> acceptor underlay ack)"

definition NewRejectedError :: "int32 \<Rightarrow> string \<Rightarrow> err" where
  "NewRejectedError c message = RejectedError c message"

definition rejectResponse :: "(nat \<Rightarrow> string) \<Rightarrow> err option \<Rightarrow> Message" where
  "rejectResponse io reason =
     (let message = (case reason of None \<Rightarrow> [] | Some e \<Rightarrow> err_text io e);
          response = NewResult False message;
          class = GetRejectClass reason;
          response = (if class \<noteq> RejectClassUnspecified
                      then response\<lparr>Headers := PutUint32Header HelloRejectClassHeader class (Headers response)\<rparr>
                      else response)
      in response\<lparr>sequence := HelloSequence, replyFor := Some HelloSequence\<rparr>)"

definition RejectHello :: "(nat \<Rightarrow> string) \<Rightarrow> hello_env \<Rightarrow> err option \<Rightarrow> classicUnderlay \<Rightarrow> err option \<times> classicUnderlay" where
  "RejectHello io env reason underlay =
     (case cu_Tx env (rejectResponse io reason) underlay of
        (txErr, u) \<Rightarrow>
          (case cu_Close env u of
             (closeErr, u) \<Rightarrow>
               (case List.map_filter id [txErr, closeErr] of [] \<Rightarrow> None | es \<Rightarrow> Some (ErrJoin es), u)))"

section \<open>The dispatcher\<close>

text \<open>
  \<^verbatim>\<open>UnderlayDispatcher\<close>: \<open>rs\<close> are the results of the listener's successive
  \<^verbatim>\<open>Create\<close> calls. The loop ends at an error whose text is the closed listener's; other
  errors are skipped. The result lists what became of each underlay, in order, and whether the
  loop ended.
\<close>

record UnderlayDispatcher =
  acceptors :: "string \<rightharpoonup> underlay_acceptor"
  defaultAcceptor :: "underlay_acceptor option"

definition dispatchTo :: "UnderlayDispatcher \<Rightarrow> headers \<Rightarrow> underlay_acceptor option" where
  "dispatchTo d h =
     (case h TypeHeader of
        None \<Rightarrow> defaultAcceptor d
      | Some chanType \<Rightarrow>
          (case acceptors d (bytes_string chanType) of
             Some a \<Rightarrow> Some a
           | None \<Rightarrow> defaultAcceptor d))"

definition dispatchOne :: "hello_env \<Rightarrow> UnderlayDispatcher \<Rightarrow> classicUnderlay \<Rightarrow> classicUnderlay" where
  "dispatchOne env d underlay =
     (case dispatchTo d (cu_Headers underlay) of
        None \<Rightarrow> snd (cu_Close env underlay)
      | Some acceptor \<Rightarrow>
          (case acceptor underlay of
             (Some e, u) \<Rightarrow> snd (cu_Close env u)
           | (None, u) \<Rightarrow> u))"

fun Run :: "(nat \<Rightarrow> string) \<Rightarrow> hello_env \<Rightarrow> UnderlayDispatcher \<Rightarrow> classicUnderlay res list \<Rightarrow> classicUnderlay list \<times> bool" where
  "Run io env d [] = ([], False)"
| "Run io env d (Inl e # rs) = (if err_text io e = ''closed'' then ([], True) else Run io env d rs)"
| "Run io env d (Inr u # rs) = (case Run io env d rs of (us, ended) \<Rightarrow> (dispatchOne env d u # us, ended))"

end
