(* ===== verification/Handshake.thy ===== *)
theory Handshake
  imports Hello
begin

text \<open>
  The properties of the hello handshake, proved over the wire format: what dialer and listener
  agree on, how a refusal reaches the dialer, that no connection is leaked, and how acceptors and
  the dispatcher route.
\<close>

section \<open>Reading a hello\<close>

definition hello_fits :: "int32 list \<Rightarrow> Message \<Rightarrow> bool" where
  "hello_fits ks m \<longleftrightarrow> length (marshalHeaders ks (Headers (putReplyFor m))) \<le> 16384 \<and> length (Body m) \<le> 4192"

lemma hello_fits_frame_fits: "hello_fits ks m \<Longrightarrow> frame_fits ks m"
  by (simp add: hello_fits_def frame_fits_def)

lemma readHello_section:
  assumes "20 \<le> length (content r)" "take 4 (content r) = magicV2"
    and "frame_header 12 (content r) \<le> 16384" "frame_header 16 (content r) \<le> 4192"
  obtains r' where "readHello r = unmarshalV2 r' (take 20 (content r)) (frame_header 12 (content r)) (frame_header 16 (content r))"
    "content r' = drop 20 (content r)"
proof -
  obtain p where p: "ReadFull 4 r = (Inr (take 4 (content r)), p)" "content p = drop 4 (content r)"
    using ReadFull_enough [of 4 r] assms(1) by auto
  have "16 \<le> length (content p)" using assms(1) p(2) by simp
  then obtain q where q: "ReadFull 16 p = (Inr (take 16 (content p)), q)" "content q = drop 16 (content p)"
    by (rule ReadFull_enough)
  have sec: "magicV2 @ take 16 (content p) = take 20 (content r)"
    using assms(2) p take_add [of 4 16 "content r"] by simp
  have len: "length (take 20 (content r)) = 20" using assms(1) by simp
  have fh: "frame_header 12 (take 20 (content r)) = frame_header 12 (content r)"
    "frame_header 16 (take 20 (content r)) = frame_header 16 (content r)"
    by (simp_all add: frame_header_take)
  have "readHello r = unmarshalV2 q (take 20 (content r)) (frame_header 12 (content r)) (frame_header 16 (content r))"
    using p q assms(1,2) sec section_sizes [OF len] fh leD [OF assms(3)] leD [OF assms(4)]
    by (simp add: readHello_def readHelloV2_def versionLen_def dataSectionV2_def Let_def)
  then show thesis using that [of q] q(2) p(2) by simp
qed

lemma readHello_MarshalV2:
  assumes "enumerates ks (Headers (putReplyFor m))" "hello_fits ks m" "content r = fst (MarshalV2 ks m) @ rest"
  shows "fst (readHello r) = Inr (received m)" "content (snd (readHello r)) = rest"
proof -
  let ?f = "fst (MarshalV2 ks m)" and ?s = "content r"
  let ?hl = "frame_header 12 ?s" and ?bl = "frame_header 16 ?s"
  note fits = hello_fits_frame_fits [OF assms(2)]
  have len: "20 \<le> length ?f" by (simp add: length_MarshalV2)
  have fh: "frame_header i ?s = frame_header i ?f" if "i \<le> 16" for i
    using that len by (simp add: frame_header_def assms(3))
  note sizes = MarshalV2_sizes [OF fits]
  have c: "20 \<le> length ?s" "take 4 ?s = magicV2"
    using len by (simp_all add: assms(3) MarshalV2_def marshalWithVersion_def Let_def)
  have small: "?hl \<le> 16384" "?bl \<le> 4192"
    using assms(2) sizes by (simp_all add: fh hello_fits_def word_le_nat_alt)
  obtain r' where r': "readHello r = unmarshalV2 r' (take 20 ?s) ?hl ?bl" "content r' = drop 20 ?s"
    using readHello_section [OF c small] by blast
  have sec: "length (take 20 ?s) = 20" "take 4 (take 20 ?s) = magicV2"
    using c by (simp_all add: min_def)
  have dec: "decode_frame ?s = Some (received m, rest)"
    using decode_frame_MarshalV2 [OF assms(1) fits, of rest] assms(3) by simp
  have fht: "frame_header 4 (take 20 ?s) = frame_header 4 ?s" "frame_header 8 (take 20 ?s) = frame_header 8 ?s"
    by (simp_all add: frame_header_take)
  note flat = unmarshalV2_flat [OF sec, where r = r' and hl = ?hl and bl = ?bl]
  show "fst (readHello r) = Inr (received m)" "content (snd (readHello r)) = rest"
    using dec flat(1,2) r' fht
    by (auto simp: decode_frame_def Let_def split: if_splits sum.splits)
qed

section \<open>Operations on open underlays\<close>

text \<open>A fresh stream underlay without a message strategy, on a connection with this input.\<close>

definition fresh_classic :: "classicUnderlay \<Rightarrow> bool" where
  "fresh_classic u \<longleftrightarrow>
     (\<exists>c. u = Classic c \<and> \<not> cu_closed c \<and> \<not> cshut (peer c) \<and> readF c = ReadV2 \<and> marshalF c = marshal_of 2)"

lemma fresh_factory: "\<not> cshut p \<Longrightarrow> fresh_classic (underlayFactory False None p 2 now)"
  by (simp add: fresh_classic_def underlayFactory_def newClassicImpl_def strategy_marshal_def)

lemma cu_Tx_fresh:
  assumes "fresh_classic u" "writeAnswer env = None"
  shows "fst (cu_Tx env m u) = None" "fresh_classic (snd (cu_Tx env m u))"
    "cout (getPeer (snd (cu_Tx env m u))) = cout (getPeer u) @ fst (MarshalV2 (headerOrder env) m)"
    "cin (getPeer (snd (cu_Tx env m u))) = cin (getPeer u)"
    "cu_Headers (snd (cu_Tx env m u)) = cu_Headers u" "cu_ConnectionId (snd (cu_Tx env m u)) = cu_ConnectionId u"
  using assms
  by (auto simp: fresh_classic_def classic_Tx_def marshal_of_def conn_Write_def split: prod.splits)

lemma cu_Rx_fresh:
  assumes "fresh_classic u" "enumerates ks (Headers (putReplyFor m))" "frame_fits ks m"
    and "content (cin (getPeer u)) = fst (MarshalV2 ks m) @ rest"
  shows "fst (cu_Rx env u) = Inr (received m)" "fresh_classic (snd (cu_Rx env u))"
proof -
  obtain c where c: "u = Classic c" "\<not> cu_closed c" "\<not> cshut (peer c)" "readF c = ReadV2" "marshalF c = marshal_of 2"
    using assms(1) by (auto simp: fresh_classic_def)
  have "decode_frame (content (cin (peer c))) = Some (received m, rest)"
    using decode_frame_MarshalV2 [OF assms(2,3), of rest] assms(4) c by simp
  from ReadV2_decode_frame(1) [OF this] show "fst (cu_Rx env u) = Inr (received m)" "fresh_classic (snd (cu_Rx env u))"
    using c by (auto simp: fresh_classic_def classic_Rx_def conn_read_def split: prod.splits)
qed

lemma cu_rxHello_fresh:
  assumes "fresh_classic u" "enumerates ks (Headers (putReplyFor m))" "hello_fits ks m"
    and "content (cin (getPeer u)) = fst (MarshalV2 ks m) @ rest"
  shows "fst (cu_rxHello env u) = Inr (received m)" "fresh_classic (snd (cu_rxHello env u))"
    "cout (getPeer (snd (cu_rxHello env u))) = cout (getPeer u)"
proof -
  obtain c where c: "u = Classic c" "\<not> cu_closed c" "\<not> cshut (peer c)"
    using assms(1) by (auto simp: fresh_classic_def)
  have "fst (readHello (cin (peer c))) = Inr (received m)"
    using readHello_MarshalV2(1) [OF assms(2,3)] assms(4) c by simp
  then show "fst (cu_rxHello env u) = Inr (received m)" "fresh_classic (snd (cu_rxHello env u))"
    "cout (getPeer (snd (cu_rxHello env u))) = cout (getPeer u)"
    using c by (auto simp: fresh_classic_def classic_rxHello_def conn_read_def split: prod.splits)
qed

lemma fresh_init [simp]: "fresh_classic (cu_init i c h u) = fresh_classic u"
  by (cases u) (auto simp: fresh_classic_def classic_init_def)

lemma cu_init_simps [simp]:
  "cu_Headers (cu_init i c h u) = h" "cu_ConnectionId (cu_init i c h u) = c" "cu_Id (cu_init i c h u) = i"
  "getPeer (cu_init i c h u) = getPeer u" "cu_IsClosed (cu_init i c h u) = cu_IsClosed u"
  by (cases u; simp add: classic_init_def datagram_init_def)+

section \<open>Agreement\<close>

definition quiet :: "hello_env \<Rightarrow> bool" where
  "quiet env \<longleftrightarrow> setDeadline env = None \<and> clearDeadline env = None \<and> writeAnswer env = None"

text \<open>The hello a dialer without a header provider writes.\<close>

definition hello_message :: "classicDialer \<Rightarrow> headers \<Rightarrow> Message" where
  "hello_message d h = SetSequence HelloSequence (helloRequest d h)"

lemma hello_message_simps [simp]:
  "ContentType (hello_message d h) = ContentTypeHelloType" "sequence (hello_message d h) = HelloSequence"
  "replyFor (hello_message d h) = None" "Body (hello_message d h) = string_bytes (dialerToken d)"
  "Headers (hello_message d h) = dialerHeaders d ++ h"
  by (simp_all add: hello_message_def SetSequence_def helloRequest_def NewHello_def NewMessage_def copyHeaders_def Let_def)

lemma received_no_reply: "replyFor m = None \<Longrightarrow> received m = m" "replyFor m = None \<Longrightarrow> putReplyFor m = m"
  by (simp_all add: received_def putReplyFor_def)

lemma ackResponse_simps [simp]:
  "ContentType (ackResponse l c req ok msg) = ContentTypeResultType" "sequence (ackResponse l c req ok msg) = HelloSequence"
  "replyFor (ackResponse l c req ok msg) = Some (sequence req)" "Body (ackResponse l c req ok msg) = string_bytes msg"
  by (simp_all add: ackResponse_def Let_def NewResult_def NewMessage_def)

text \<open>The entries of an acknowledgement that the dialer looks at.\<close>

definition plain_listener :: "classicListener \<Rightarrow> bool" where
  "plain_listener l \<longleftrightarrow> ResultSuccessHeader \<notin> dom (listenerHeaders l) \<and>
     (case listenerHeadersF l of None \<Rightarrow> True | Some f \<Rightarrow> ResultSuccessHeader \<notin> dom f)"

lemma copyHeaders_apply: "copyHeaders src dst k = (case src k of None \<Rightarrow> dst k | Some v \<Rightarrow> Some v)"
  by (simp add: copyHeaders_def map_add_def)

lemma ackResponse_headers:
  "Headers (ackResponse l c req ok msg) ConnectionIdHeader = Some (string_bytes c)"
  "hget (Headers req) GroupSecretHeader \<noteq> [] \<Longrightarrow>
     Headers (ackResponse l c req ok msg) GroupSecretHeader = Some (hget (Headers req) GroupSecretHeader)"
  "plain_listener l \<Longrightarrow> Headers (ackResponse l c req ok msg) ResultSuccessHeader = Some [if ok then 1 else 0]"
  "fst (GetBoolHeader IsGroupedHeader (Headers req)) \<Longrightarrow> Headers (ackResponse l c req ok msg) IsGroupedHeader = Some [1]"
  "listenerToken l = Some tok \<Longrightarrow> Headers (ackResponse l c req ok msg) IdHeader = Some (string_bytes tok)"
  by (auto simp: ackResponse_def Let_def Headers_ReplyTo NewResult_def NewMessage_def PutStringHeader_def PutBoolHeader_def
      copyHeaders_apply plain_listener_def domIff header_keys split: option.splits)

lemma not_ReplyForHeader [simp]:
  "ResultSuccessHeader \<noteq> ReplyForHeader" "ConnectionIdHeader \<noteq> ReplyForHeader" "GroupSecretHeader \<noteq> ReplyForHeader"
  "IdHeader \<noteq> ReplyForHeader" "HelloRejectClassHeader \<noteq> ReplyForHeader"
  by (simp_all add: header_keys)

lemma received_ack:
  assumes "r = ackResponse l c req ok msg"
  shows "IsReplyingTo (sequence req) (received r)" "ContentType (received r) = ContentTypeResultType"
    "k \<noteq> ReplyForHeader \<Longrightarrow> Headers (received r) k = Headers r k" "Body (received r) = string_bytes msg"
  by (simp_all add: assms IsReplyingTo_def ReplyFor_uncached received_def putReplyFor_def PutUint32Header_def PutUint32_def)

text \<open>The listener's side: it reads the hello and answers on the same connection.\<close>

lemma listener_answers:
  fixes nextId :: "string res" and uuidId :: string and uuidSecret :: bytes
  assumes "fresh_classic lu" "quiet lenv" "enumerates ks (Headers m)" "hello_fits ks m" "replyFor m = None"
    and "content (cin (getPeer lu)) = fst (MarshalV2 ks m) @ rest" "ContentType m = ContentTypeHelloType"
    and "runHandlers (listenerHandlers l) (UnmarshalHello m) = None"
  defines "c \<equiv> listenerConnectionId nextId uuidId (Headers m)" and "sh \<equiv> listenerSecret uuidSecret (Headers m)"
  defines "lu' \<equiv> acceptQueued lenv nextId uuidId uuidSecret (HelloAcceptorF lenv (\<lambda>u. u)) l lu"
  shows "fresh_classic lu'" "cu_ConnectionId lu' = c" "cu_Headers lu' = sh"
    "cout (getPeer lu') = cout (getPeer lu) @ fst (MarshalV2 (headerOrder lenv) (ackResponse l c (m\<lparr>Headers := sh\<rparr>) True []))"
proof -
  note rx = cu_rxHello_fresh [OF assms(1) _ assms(4,6), unfolded received_no_reply [OF assms(5)], OF assms(3)]
  obtain u where u: "cu_rxHello lenv lu = (Inr m, u)" "fresh_classic u" "cout (getPeer u) = cout (getPeer lu)"
    using rx [of lenv] by (cases "cu_rxHello lenv lu") auto
  let ?u = "cu_init (IdToken (UnmarshalHello m)) c sh u"
  have tx: "writeAnswer lenv = None" "fresh_classic ?u" using assms(2) u by (simp_all add: quiet_def)
  have "lu' = snd (ackHello lenv l (m\<lparr>Headers := sh\<rparr>) True [] ?u)"
    using u assms(2,7,8) cu_Tx_fresh(1) [OF tx(2,1)]
    by (simp add: lu'_def acceptQueued_def receiveHello_def quiet_def Let_def c_def sh_def UnmarshalHello_def
        HelloAcceptorF_def ackHello_def case_prod_beta)
  then show "fresh_classic lu'" "cu_ConnectionId lu' = c" "cu_Headers lu' = sh"
    "cout (getPeer lu') = cout (getPeer lu) @ fst (MarshalV2 (headerOrder lenv) (ackResponse l c (m\<lparr>Headers := sh\<rparr>) True []))"
    using cu_Tx_fresh [OF tx(2,1)] u(3) by (simp_all add: ackHello_def)
qed

text \<open>The dialer's side: it writes the hello and takes a positive answer.\<close>

lemma dialer_accepts:
  assumes "fresh_classic du" "quiet denv" "helloHeaderProvider d = None"
    and "enumerates ks (Headers (putReplyFor r))" "frame_fits ks r"
    and "content (cin (getPeer du)) = fst (MarshalV2 ks r) @ rest"
    and "IsReplyingTo HelloSequence (received r)" "ContentType (received r) = ContentTypeResultType"
    and "Headers (received r) ResultSuccessHeader = Some [1]"
  shows "\<exists>u. sendHello denv pn d h du = (None, helloDone pn (hello_message d h) (received r) u) \<and> fresh_classic u"
proof -
  have w: "writeAnswer denv = None" "setDeadline denv = None" using assms(2) by (simp_all add: quiet_def)
  obtain u where u: "cu_Tx denv (hello_message d h) du = (None, u)" "fresh_classic u" "cin (getPeer u) = cin (getPeer du)"
    using cu_Tx_fresh [OF assms(1) w(1), of "hello_message d h"] by (cases "cu_Tx denv (hello_message d h) du") auto
  obtain u' where u': "cu_Rx denv u = (Inr (received r), u')" "fresh_classic u'"
    using cu_Rx_fresh [OF u(2) assms(4,5), of rest denv] assms(6) u(3) by (cases "cu_Rx denv u") auto
  have req: "SetSequence HelloSequence (helloRequest d h\<lparr>Headers := Headers (helloRequest d h)\<rparr>) = hello_message d h"
    by (simp add: hello_message_def)
  show ?thesis
    using u u' w(2) assms(3,7-9) req
    by (intro exI [of _ u']) (simp add: sendHello_def Let_def UnmarshalResult_def GetBoolHeader_def)
qed

text \<open>A handshake that crosses the wire, from both sides.\<close>

lemma handshake_completes:
  assumes "fresh_classic du" "fresh_classic lu" "quiet denv" "quiet lenv" "helloHeaderProvider d = None"
    and "enumerates (headerOrder denv) (dialerHeaders d ++ h)" "hello_fits (headerOrder denv) (hello_message d h)"
    and "fst (GetBoolHeader IsGroupedHeader (dialerHeaders d ++ h))" "uuidSecret \<noteq> []" "nextId = Inr freshId"
    and "runHandlers (listenerHandlers l) (UnmarshalHello (hello_message d h)) = None"
    and "plain_listener l" "listenerToken l = Some token"
    and "content (cin (getPeer lu)) = fst (MarshalV2 (headerOrder denv) (hello_message d h)) @ rest" "cout (getPeer lu) = []"
    and "lu' = acceptQueued lenv nextId uuidId uuidSecret (HelloAcceptorF lenv (\<lambda>u. u)) l lu"
    and "r = ackResponse l (cu_ConnectionId lu') ((hello_message d h)\<lparr>Headers := cu_Headers lu'\<rparr>) True []"
    and "enumerates (headerOrder lenv) (Headers (putReplyFor r))" "frame_fits (headerOrder lenv) r"
    and "content (cin (getPeer du)) = cout (getPeer lu') @ rest'"
  shows "\<exists>du'. sendHello denv pn d h du = (None, du') \<and> \<not> cu_IsClosed du' \<and> \<not> cu_IsClosed lu' \<and>
    cu_ConnectionId du' = cu_ConnectionId lu' \<and> cu_Id du' = token \<and>
    hget (cu_Headers du') TypeHeader = hget (cu_Headers lu') TypeHeader \<and>
    hget (cu_Headers du') GroupSecretHeader = hget (cu_Headers lu') GroupSecretHeader \<and>
    hget (cu_Headers du') GroupSecretHeader \<noteq> []"
proof -
  let ?m = "hello_message d h" and ?H = "dialerHeaders d ++ h"
  have en: "enumerates (headerOrder denv) (Headers ?m)" using assms(6) by simp
  note la = listener_answers [OF assms(2,4) en assms(7) _ assms(14) _ assms(11), of nextId uuidId uuidSecret, simplified,
      folded assms(16)]
  have sec: "hget (cu_Headers lu') GroupSecretHeader \<noteq> []"
    using assms(8,9) by (simp add: la(3) listenerSecret_def)
  have ty: "cu_Headers lu' TypeHeader = ?H TypeHeader" "cu_Headers lu' IsGroupedHeader = ?H IsGroupedHeader"
    by (simp_all add: la(3) listenerSecret_def header_keys)
  have cout: "cout (getPeer lu') = fst (MarshalV2 (headerOrder lenv) r)"
    using la(2-4) assms(15,17) by simp
  note rr = received_ack [OF assms(17)]
  have ok: "Headers (received r) ResultSuccessHeader = Some [1]"
    using assms(12) by (simp add: rr(3)) (simp add: assms(17) ackResponse_headers)
  have rep: "IsReplyingTo HelloSequence (received r)" using rr(1) by simp
  obtain u where u: "sendHello denv pn d h du = (None, helloDone pn ?m (received r) u)" "fresh_classic u"
    using dialer_accepts [OF assms(1,3,5,18,19) _ rep rr(2) ok, of rest' pn h] assms(20) cout by auto
  have ids: "Headers (received r) ConnectionIdHeader = Some (string_bytes (cu_ConnectionId lu'))"
    "Headers (received r) GroupSecretHeader = Some (hget (cu_Headers lu') GroupSecretHeader)"
    "Headers (received r) IdHeader = Some (string_bytes token)"
    using sec assms(13) by (simp_all add: rr(3)) (simp_all add: assms(17) ackResponse_headers)
  have cid: "cu_ConnectionId lu' = listenerConnectionId nextId uuidId ?H" using la(2) .
  have open': "\<not> cu_IsClosed u" "\<not> cu_IsClosed lu'" using u(2) la(1) by (auto simp: fresh_classic_def)
  show ?thesis
    using u(1) ids cid open' sec ty assms(8)
    by (simp add: helloDone_def Let_def GetStringHeader_def listenerConnectionId_def hget_def header_keys
        split: option.splits)
qed

text \<open>
  C5. Dialer and listener agree: when a grouped hello crosses the wire and is acknowledged, in
  whatever pieces the two streams arrive and in whatever order the headers are written, both ends
  hold an open underlay with the same connection id, the same underlay type and the same
  non-empty group secret, which the listener generated if the dialer sent none; and the dialer
  knows the listener by its token.
\<close>

theorem handshake_agreement:
  assumes "fresh_classic du" "fresh_classic lu" "quiet denv" "quiet lenv" "helloHeaderProvider d = None"
    and "enumerates (headerOrder denv) (dialerHeaders d ++ h)" "hello_fits (headerOrder denv) (hello_message d h)"
    and "fst (GetBoolHeader IsGroupedHeader (dialerHeaders d ++ h))" "uuidSecret \<noteq> []" "nextId = Inr freshId"
    and "runHandlers (listenerHandlers l) (UnmarshalHello (hello_message d h)) = None"
    and "plain_listener l" "listenerToken l = Some token"
    and "content (cin (getPeer lu)) = fst (MarshalV2 (headerOrder denv) (hello_message d h)) @ rest" "cout (getPeer lu) = []"
    and "lu' = acceptQueued lenv nextId uuidId uuidSecret (HelloAcceptorF lenv (\<lambda>u. u)) l lu"
    and "r = ackResponse l (cu_ConnectionId lu') ((hello_message d h)\<lparr>Headers := cu_Headers lu'\<rparr>) True []"
    and "enumerates (headerOrder lenv) (Headers (putReplyFor r))" "frame_fits (headerOrder lenv) r"
    and "content (cin (getPeer du)) = cout (getPeer lu') @ rest'"
  shows "\<exists>du'. sendHello denv pn d h du = (None, du') \<and> \<not> cu_IsClosed du' \<and> \<not> cu_IsClosed lu' \<and>
    cu_ConnectionId du' = cu_ConnectionId lu' \<and> cu_Id du' = token \<and>
    hget (cu_Headers du') TypeHeader = hget (cu_Headers lu') TypeHeader \<and>
    hget (cu_Headers du') GroupSecretHeader = hget (cu_Headers lu') GroupSecretHeader \<and>
    hget (cu_Headers du') GroupSecretHeader \<noteq> []"
  by (rule handshake_completes [OF assms])

text \<open>A grouped handshake on two streams that arrive in pieces.\<close>

definition sample_dialer :: classicDialer where
  "sample_dialer = \<lparr>dialerToken = ''d'', dialerHeaders = Map.empty, dialerDtls = False, dialerStrategy = None,
     helloHeaderProvider = None\<rparr>"

definition sample_hello_headers :: headers where
  "sample_hello_headers = [TypeHeader \<mapsto> [99], IsGroupedHeader \<mapsto> [1]]"

definition sample_listener :: classicListener where
  "sample_listener = \<lparr>listenerToken = Some ''l'', listenerHeaders = Map.empty, listenerHeadersF = None, listenerHandlers = []\<rparr>"

definition hello_env_with :: "int32 list \<Rightarrow> hello_env" where
  "hello_env_with ks = \<lparr>setDeadline = None, clearDeadline = None, writeAnswer = None, closeAnswer = None,
     oversize = Inr, headerOrder = ks\<rparr>"

definition stream_of :: "bytes \<Rightarrow> conn" where
  "stream_of b = \<lparr>cin = \<lparr>chunks = [take 5 b, [], drop 5 b], rfinal = ErrEOF\<rparr>, cout = [], cshut = False\<rparr>"

definition sample_lu :: classicUnderlay where
  "sample_lu = underlayFactory False None
     (stream_of (fst (MarshalV2 [9, 7] (hello_message sample_dialer sample_hello_headers)))) 2 0"

definition sample_lu' :: classicUnderlay where
  "sample_lu' = acceptQueued (hello_env_with [10, 9, 8, 7, 2, 1, 0]) (Inr ''id'') [] [1, 2]
     (HelloAcceptorF (hello_env_with [10, 9, 8, 7, 2, 1, 0]) (\<lambda>u. u)) sample_listener sample_lu"

definition sample_du :: classicUnderlay where
  "sample_du = underlayFactory False None (stream_of (cout (getPeer sample_lu'))) 2 0"

lemma stream_of_simps [simp]: "content (cin (stream_of b)) = b" "cout (stream_of b) = []" "\<not> cshut (stream_of b)"
  by (simp_all add: stream_of_def)

lemma getPeer_factory [simp]: "getPeer (underlayFactory dtls s p v now) = p"
  by (simp add: underlayFactory_def newClassicImpl_def newDatagramUnderlay_def)

lemma quiet_env_with [simp]: "quiet (hello_env_with ks)" "headerOrder (hello_env_with ks) = ks"
  by (simp_all add: quiet_def hello_env_with_def)

lemma sample_hello_ok:
  "enumerates [9, 7] (dialerHeaders sample_dialer ++ sample_hello_headers)"
  "hello_fits [9, 7] (hello_message sample_dialer sample_hello_headers)"
  by (auto simp: enumerates_def hello_fits_def received_no_reply sample_dialer_def sample_hello_headers_def
      header_keys Let_def)

lemma sample_listener_answers:
  "cu_ConnectionId sample_lu' = ''id''" "cu_Headers sample_lu' = sample_hello_headers(GroupSecretHeader \<mapsto> [1, 2])"
proof -
  have en: "enumerates [9, 7] (Headers (hello_message sample_dialer sample_hello_headers))" using sample_hello_ok(1) by simp
  have fr: "fresh_classic sample_lu" unfolding sample_lu_def by (rule fresh_factory) simp
  note la = listener_answers [OF fr quiet_env_with(1) en sample_hello_ok(2), of "[]" sample_listener "[10, 9, 8, 7, 2, 1, 0]"
      "Inr ''id''" "[]" "[1, 2]", folded sample_lu'_def]
  show "cu_ConnectionId sample_lu' = ''id''" "cu_Headers sample_lu' = sample_hello_headers(GroupSecretHeader \<mapsto> [1, 2])"
    using la(2,3)
    by (simp_all add: sample_lu_def runHandlers_def sample_listener_def listenerConnectionId_def listenerSecret_def
        GetStringHeader_def GetBoolHeader_def sample_dialer_def sample_hello_headers_def header_keys)
qed

lemma sample_ack_ok:
  fixes r defines "r \<equiv> ackResponse sample_listener ''id''
    ((hello_message sample_dialer sample_hello_headers)\<lparr>Headers := sample_hello_headers(GroupSecretHeader \<mapsto> [1, 2])\<rparr>) True []"
  shows "enumerates [10, 9, 8, 7, 2, 1, 0] (Headers (putReplyFor r))" "frame_fits [10, 9, 8, 7, 2, 1, 0] r"
proof -
  have "Headers (putReplyFor r) = [ReplyForHeader \<mapsto> PutUint32 HelloSequence, ResultSuccessHeader \<mapsto> [1],
      ConnectionIdHeader \<mapsto> string_bytes ''id'', IdHeader \<mapsto> string_bytes ''l'', IsGroupedHeader \<mapsto> [1], TypeHeader \<mapsto> [99],
      GroupSecretHeader \<mapsto> [1, 2]]"
    by (rule ext) (simp add: r_def ackResponse_def Let_def Headers_ReplyTo NewResult_def NewMessage_def PutStringHeader_def
        PutBoolHeader_def PutUint32Header_def putReplyFor_def copyHeaders_apply GetBoolHeader_def GetStringHeader_def
        sample_listener_def sample_hello_headers_def header_keys)
  then show "enumerates [10, 9, 8, 7, 2, 1, 0] (Headers (putReplyFor r))" "frame_fits [10, 9, 8, 7, 2, 1, 0] r"
    by (auto simp: enumerates_def frame_fits_def header_keys Let_def r_def)
qed

theorem handshake_agreement_witness:
  "\<exists>du'. sendHello (hello_env_with [9, 7]) None sample_dialer sample_hello_headers sample_du = (None, du') \<and>
    \<not> cu_IsClosed du' \<and> cu_ConnectionId du' = ''id'' \<and> cu_Id du' = ''l'' \<and> hget (cu_Headers du') GroupSecretHeader = [1, 2]"
proof -
  let ?a = "hello_env_with [9, 7]" and ?b = "hello_env_with [10, 9, 8, 7, 2, 1, 0]"
  have fl: "fresh_classic sample_lu" unfolding sample_lu_def by (rule fresh_factory) simp
  have fd: "fresh_classic sample_du" unfolding sample_du_def by (rule fresh_factory) simp
  have cfg: "helloHeaderProvider sample_dialer = None" "plain_listener sample_listener" "listenerToken sample_listener = Some ''l''"
    "runHandlers (listenerHandlers sample_listener) (UnmarshalHello (hello_message sample_dialer sample_hello_headers)) = None"
    "fst (GetBoolHeader IsGroupedHeader (dialerHeaders sample_dialer ++ sample_hello_headers))" "[1, 2 :: byte] \<noteq> []"
    by (simp_all add: sample_dialer_def sample_listener_def plain_listener_def runHandlers_def GetBoolHeader_def
        sample_hello_headers_def)
  have io: "content (cin (getPeer sample_lu)) = fst (MarshalV2 [9, 7] (hello_message sample_dialer sample_hello_headers)) @ []"
    "cout (getPeer sample_lu) = []" "content (cin (getPeer sample_du)) = cout (getPeer sample_lu') @ []"
    by (simp_all add: sample_lu_def sample_du_def)
  show ?thesis
    using handshake_agreement [OF fd fl, of ?a ?b, unfolded quiet_env_with(2), OF quiet_env_with(1) quiet_env_with(1) cfg(1)
        sample_hello_ok cfg(5,6) refl cfg(4,2,3) io(1,2) sample_lu'_def refl _ _ io(3), of None,
        unfolded sample_listener_answers, OF sample_ack_ok]
    by (auto simp: header_keys)
qed

section \<open>Failed dials\<close>

lemma cu_Close_closes [simp]: "cu_IsClosed (snd (cu_Close env u))"
  by (cases u) (simp_all add: classic_underlay.close_closes datagram_underlay.close_closes)

lemma cu_io_keeps [simp]:
  "cu_IsClosed (snd (cu_Tx env m u)) = cu_IsClosed u" "cu_IsClosed (snd (cu_Rx env u)) = cu_IsClosed u"
  by (cases u; simp add: classic_underlay.tx_keeps datagram_underlay.tx_keeps classic_underlay.rx_keeps datagram_underlay.rx_keeps)+

lemma cu_Tx_keeps: "cu_Tx env m u = (e, u') \<Longrightarrow> cu_IsClosed u' = cu_IsClosed u"
  and cu_Rx_keeps: "cu_Rx env u = (r, u') \<Longrightarrow> cu_IsClosed u' = cu_IsClosed u"
  by (metis cu_io_keeps snd_conv)+

lemma sendHello_closes: "sendHello env pn d h u = (Some e, u') \<Longrightarrow> cu_IsClosed u'"
  by (auto simp: sendHello_def Let_def split: option.splits sum.splits prod.splits if_splits)

lemma sendHello_keeps: "sendHello env pn d h u = (None, u') \<Longrightarrow> cu_IsClosed u' = cu_IsClosed u"
  by (auto simp: sendHello_def Let_def helloDone_def dest!: cu_Tx_keeps cu_Rx_keeps
      split: option.splits sum.splits prod.splits if_splits)

lemma underlayFactory_open [simp]: "\<not> cu_IsClosed (underlayFactory dtls s p v now)"
  by (simp add: underlayFactory_def newClassicImpl_def newDatagramUnderlay_def)

lemma createLoop_last:
  assumes "createLoop att d h (Suc n) v = (res, us)"
  shows "length us \<le> 1 \<and> (case res of Inl e \<Rightarrow> list_all cu_IsClosed us | Inr u \<Rightarrow> us = [u] \<and> \<not> cu_IsClosed u)"
  using assms
  by (subst (asm) createLoop.simps)
    (auto simp: Let_def dest: sendHello_closes sendHello_keeps split: if_splits sum.splits prod.splits option.splits)

text \<open>
  C25. A dial leaks no connection: it makes at most two connections, the second only to renegotiate
  the protocol version; every underlay but the one it returns is closed, the returned one is the
  last made and open, and with an error all are closed.
\<close>

theorem dial_leaks_no_connection:
  assumes "CreateWithHeaders att d h = (res, us)"
  shows "length us \<le> 2 \<and> list_all cu_IsClosed (butlast us) \<and>
    (case res of Inl e \<Rightarrow> list_all cu_IsClosed us | Inr u \<Rightarrow> us \<noteq> [] \<and> last us = u \<and> \<not> cu_IsClosed u)"
proof -
  consider (direct) "length us \<le> 1" "case res of Inl e \<Rightarrow> list_all cu_IsClosed us | Inr u \<Rightarrow> us = [u] \<and> \<not> cu_IsClosed u"
    | (retry) u v us' where "cu_IsClosed u" "us = u # us'" "createLoop att d h (Suc 0) v = (res, us')"
    using assms unfolding CreateWithHeaders_def
    by (subst (asm) createLoop.simps)
      (auto simp: Let_def dest: sendHello_closes sendHello_keeps
        split: if_splits sum.splits prod.splits option.splits bool.splits)
  then show ?thesis
  proof cases
    case direct
    then show ?thesis by (cases us) (auto split: sum.splits)
  next
    case retry
    then show ?thesis using createLoop_last [OF retry(3)] by (cases us') (auto split: sum.splits)
  qed
qed

definition sample_att :: "nat \<Rightarrow> dial_attempt" where
  "sample_att n = \<lparr>beforeDeadline = True, dialResult = Inr (stream_of []), attemptNow = 0, attemptPeer = None,
     attemptEnv = (hello_env_with [])\<lparr>writeAnswer := Some (0, ErrIO 1)\<rparr>\<rparr>"

theorem dial_leaks_no_connection_witness:
  "fst (CreateWithHeaders sample_att sample_dialer Map.empty) = Inl (ErrIO 1) \<and>
   list_all cu_IsClosed (snd (CreateWithHeaders sample_att sample_dialer Map.empty))"
proof -
  let ?c = "CreateWithHeaders sample_att sample_dialer Map.empty"
  have c: "?c = (fst ?c, snd ?c)" by simp
  have "fst ?c = Inl (ErrIO 1)"
    by (simp add: CreateWithHeaders_def createLoop.simps sample_att_def sendHello_def Let_def sample_dialer_def
        underlayFactory_def newClassicImpl_def strategy_marshal_def marshal_of_def classic_Tx_def conn_Write_def
        hello_env_with_def IsNonRetryable_def GetRetryVersion_def getRetryVersionFor_def case_prod_beta)
  then show ?thesis using dial_leaks_no_connection [OF c] by simp
qed

section \<open>Refusals\<close>

lemma rejectResponse_simps [simp]:
  "ContentType (rejectResponse io reason) = ContentTypeResultType" "replyFor (rejectResponse io reason) = Some HelloSequence"
  "Body (rejectResponse io reason) = string_bytes (case reason of None \<Rightarrow> [] | Some e \<Rightarrow> err_text io e)"
  by (simp_all add: rejectResponse_def Let_def NewResult_def NewMessage_def)

lemma received_reject:
  fixes io reason defines "r \<equiv> received (rejectResponse io reason)"
  shows "IsReplyingTo HelloSequence r" "ContentType r = ContentTypeResultType" "\<not> Success (UnmarshalResult r)"
    "ResultMessage (UnmarshalResult r) = (case reason of None \<Rightarrow> [] | Some e \<Rightarrow> err_text io e)"
    "getRejectClass r = GetRejectClass reason"
  unfolding r_def
  by (simp_all add: IsReplyingTo_def ReplyFor_uncached received_def putReplyFor_def PutUint32Header_def PutUint32_def
      UnmarshalResult_def getRejectClass_def)
    (simp_all add: rejectResponse_def Let_def NewResult_def NewMessage_def GetBoolHeader_def PutBoolHeader_def
      GetUint32Header_def PutUint32Header_def PutUint32_def header_keys)

text \<open>The dialer's side of a refusal.\<close>

lemma dialer_refused:
  assumes "fresh_classic du" "quiet denv" "helloHeaderProvider d = None"
    and "enumerates ks (Headers (putReplyFor (rejectResponse io reason)))" "frame_fits ks (rejectResponse io reason)"
    and "content (cin (getPeer du)) = fst (MarshalV2 ks (rejectResponse io reason)) @ rest"
  shows "fst (sendHello denv pn d h du) = Some (NonRetryableError (RejectedError (GetRejectClass reason)
    (case reason of None \<Rightarrow> [] | Some e \<Rightarrow> err_text io e)))"
proof -
  have w: "writeAnswer denv = None" "setDeadline denv = None" using assms(2) by (simp_all add: quiet_def)
  obtain u where u: "cu_Tx denv (hello_message d h) du = (None, u)" "fresh_classic u" "cin (getPeer u) = cin (getPeer du)"
    using cu_Tx_fresh [OF assms(1) w(1), of "hello_message d h"] by (cases "cu_Tx denv (hello_message d h) du") auto
  obtain u' where u': "cu_Rx denv u = (Inr (received (rejectResponse io reason)), u')"
    using cu_Rx_fresh [OF u(2) assms(4,5), of rest denv] assms(6) u(3) by (cases "cu_Rx denv u") auto
  have req: "SetSequence HelloSequence (helloRequest d h\<lparr>Headers := Headers (helloRequest d h)\<rparr>) = hello_message d h"
    by (simp add: hello_message_def)
  show ?thesis
    using u u' w(2) assms(3) req by (simp add: sendHello_def Let_def received_reject)
qed

lemma IsNonRetryable_wrapped [simp]: "IsNonRetryable (NonRetryableError e)"
  by (simp add: IsNonRetryable_def)

lemma RejectHello_result:
  assumes "fresh_classic lu" "quiet lenv"
  shows "cu_IsClosed (snd (RejectHello io lenv reason lu))"
    "cout (getPeer (snd (RejectHello io lenv reason lu))) =
       cout (getPeer lu) @ fst (MarshalV2 (headerOrder lenv) (rejectResponse io reason))"
proof -
  have w: "writeAnswer lenv = None" using assms(2) by (simp add: quiet_def)
  let ?u = "snd (cu_Tx lenv (rejectResponse io reason) lu)"
  have r: "snd (RejectHello io lenv reason lu) = snd (cu_Close lenv ?u)"
    by (simp add: RejectHello_def case_prod_beta)
  have "cout (getPeer (snd (cu_Close lenv u))) = cout (getPeer u)" for u
    by (cases u) (simp_all add: close_defs case_prod_beta)
  then show "cu_IsClosed (snd (RejectHello io lenv reason lu))"
    "cout (getPeer (snd (RejectHello io lenv reason lu))) =
       cout (getPeer lu) @ fst (MarshalV2 (headerOrder lenv) (rejectResponse io reason))"
    using cu_Tx_fresh(3) [OF assms(1) w] by (simp_all add: r)
qed

text \<open>
  C24. A refusal reaches the dialer as what it is: the text and the class of the listener's reason
  arrive over the wire in a \<^verbatim>\<open>RejectedError\<close> marked non-retryable, both ends are closed, and
  the dialer makes that one connection only.
\<close>

theorem refusal_reaches_dialer:
  assumes "fresh_classic lu" "quiet lenv" "RejectHello io lenv reason lu = (e, lu')" "cout (getPeer lu) = []"
    and "enumerates (headerOrder lenv) (Headers (putReplyFor (rejectResponse io reason)))"
    and "frame_fits (headerOrder lenv) (rejectResponse io reason)"
    and "beforeDeadline (att 0)" "dialResult (att 0) = Inr p" "quiet (attemptEnv (att 0))" "\<not> cshut p"
    and "content (cin p) = cout (getPeer lu') @ rest"
    and "helloHeaderProvider d = None" "dialerStrategy d = None" "\<not> dialerDtls d"
  shows "cu_IsClosed lu' \<and> (\<exists>u. CreateWithHeaders att d h = (Inl (NonRetryableError (RejectedError (GetRejectClass reason)
      (case reason of None \<Rightarrow> [] | Some e \<Rightarrow> err_text io e))), [u]) \<and> cu_IsClosed u)"
proof -
  let ?du = "underlayFactory (dialerDtls d) (dialerStrategy d) p 2 (attemptNow (att 0))"
  let ?e = "NonRetryableError (RejectedError (GetRejectClass reason) (case reason of None \<Rightarrow> [] | Some e \<Rightarrow> err_text io e))"
  have lu': "cu_IsClosed lu'" "cout (getPeer lu') = fst (MarshalV2 (headerOrder lenv) (rejectResponse io reason))"
    using RejectHello_result [OF assms(1,2), of io reason] assms(3,4) by simp_all
  have fr: "fresh_classic ?du" using fresh_factory [OF assms(10)] assms(13,14) by simp
  have err: "fst (sendHello (attemptEnv (att 0)) (attemptPeer (att 0)) d h ?du) = Some ?e"
    using dialer_refused [OF fr assms(9,12,5,6)] assms(11) lu'(2) by simp
  obtain u where u: "sendHello (attemptEnv (att 0)) (attemptPeer (att 0)) d h ?du = (Some ?e, u)"
    using err by (cases "sendHello (attemptEnv (att 0)) (attemptPeer (att 0)) d h ?du") auto
  have "CreateWithHeaders att d h = (Inl ?e, [u])"
    unfolding CreateWithHeaders_def by (subst createLoop.simps) (use u assms(7,8) in \<open>simp add: Let_def\<close>)
  then show ?thesis using lu'(1) sendHello_closes [OF u] by blast
qed

text \<open>A listener that refuses with a class and a text.\<close>

definition sample_reason :: "err option" where
  "sample_reason = Some (RejectedError RejectClassBusy ''no'')"

definition sample_rejected :: classicUnderlay where
  "sample_rejected = snd (RejectHello (\<lambda>_. []) (hello_env_with [ReplyForHeader, ResultSuccessHeader, HelloRejectClassHeader])
     sample_reason sample_lu)"

definition sample_refused_att :: "nat \<Rightarrow> dial_attempt" where
  "sample_refused_att n = \<lparr>beforeDeadline = True, dialResult = Inr (stream_of (cout (getPeer sample_rejected))),
     attemptNow = 0, attemptPeer = None, attemptEnv = hello_env_with []\<rparr>"

lemma sample_reject_ok:
  fixes r defines "r \<equiv> rejectResponse (\<lambda>_. []) sample_reason"
  shows "enumerates [ReplyForHeader, ResultSuccessHeader, HelloRejectClassHeader] (Headers (putReplyFor r))"
    "frame_fits [ReplyForHeader, ResultSuccessHeader, HelloRejectClassHeader] r"
proof -
  have h: "Headers (putReplyFor r) = [ReplyForHeader \<mapsto> PutUint32 HelloSequence, ResultSuccessHeader \<mapsto> [0],
      HelloRejectClassHeader \<mapsto> PutUint32 (GetRejectClass sample_reason)]"
    by (rule ext) (simp add: r_def rejectResponse_def Let_def NewResult_def NewMessage_def sample_reason_def GetRejectClass_def
        RejectClassUnspecified_def RejectClassBusy_def PutBoolHeader_def PutUint32Header_def putReplyFor_def header_keys)
  show "enumerates [ReplyForHeader, ResultSuccessHeader, HelloRejectClassHeader] (Headers (putReplyFor r))"
    by (auto simp: enumerates_def h header_keys)
  show "frame_fits [ReplyForHeader, ResultSuccessHeader, HelloRejectClassHeader] r"
    by (simp add: frame_fits_def h header_keys Let_def PutUint32_def) (simp add: r_def sample_reason_def RejectedError_Error_def)
qed

theorem refusal_reaches_dialer_witness:
  "\<exists>u. CreateWithHeaders sample_refused_att sample_dialer Map.empty =
     (Inl (NonRetryableError (RejectedError RejectClassBusy
        (err_text (\<lambda>_. []) (RejectedError RejectClassBusy ''no'')))), [u]) \<and> cu_IsClosed u"
proof -
  let ?env = "hello_env_with [ReplyForHeader, ResultSuccessHeader, HelloRejectClassHeader]"
  have fl: "fresh_classic sample_lu" unfolding sample_lu_def by (rule fresh_factory) simp
  obtain e where e: "RejectHello (\<lambda>_. []) ?env sample_reason sample_lu = (e, sample_rejected)"
    unfolding sample_rejected_def by (metis surjective_pairing)
  have "cout (getPeer sample_lu) = []" by (simp add: sample_lu_def)
  from refusal_reaches_dialer [OF fl quiet_env_with(1) e this, unfolded quiet_env_with(2), OF sample_reject_ok,
      of sample_refused_att "stream_of (cout (getPeer sample_rejected))" "[]" sample_dialer Map.empty]
  show ?thesis by (auto simp: sample_refused_att_def sample_dialer_def sample_reason_def GetRejectClass_def)
qed

section \<open>Routing\<close>

text \<open>
  The contract of a hello acceptor, for any implementation: when the acknowledgement fails the
  underlay is closed. The adapters keep it, so that the acceptor of a listener may be any
  composition of them.
\<close>

locale hello_acceptor_contract =
  fixes accept :: "classicUnderlay \<Rightarrow> (classicUnderlay \<Rightarrow> err option \<times> classicUnderlay) \<Rightarrow> classicUnderlay"
  assumes refused_closes: "ack u = (Some e, u') \<Longrightarrow> cu_IsClosed (accept u ack)"
begin

lemma failed_write_closes:
  assumes "\<And>v. fst (ack v) \<noteq> None"
  shows "cu_IsClosed (accept u ack)"
  using assms [of u] refused_closes [of ack u] by (cases "ack u") auto

end

interpretation plain_acceptor: hello_acceptor_contract "HelloAcceptorF env f" for env f
  by unfold_locales (simp add: HelloAcceptorF_def)

interpretation adapted_acceptor: hello_acceptor_contract "AsHelloAcceptor env a" for env a
  by unfold_locales (simp add: AsHelloAcceptor_def HelloAcceptorF_def)

lemma TypeRouting_keeps_contract:
  assumes "\<And>t a. Acceptors r t = Some a \<Longrightarrow> hello_acceptor_contract a"
    and "\<And>a. DefaultAcceptor r = Some a \<Longrightarrow> hello_acceptor_contract a"
  shows "hello_acceptor_contract (TypeRouting_AcceptUnderlay env r)"
proof
  fix ack :: "classicUnderlay \<Rightarrow> err option \<times> classicUnderlay" and u e u'
  assume "ack u = (Some e, u')"
  then show "cu_IsClosed (TypeRouting_AcceptUnderlay env r u ack)"
    using assms hello_acceptor_contract.refused_closes
    by (fastforce simp: TypeRouting_AcceptUnderlay_def routeHello_def split: option.splits)
qed

definition as_hello_routes :: "hello_env \<Rightarrow> UnderlayDispatcher \<Rightarrow> TypeRoutingAcceptor" where
  "as_hello_routes env d =
     \<lparr>Acceptors = map_option (AsHelloAcceptor env) \<circ> acceptors d,
      DefaultAcceptor = map_option (AsHelloAcceptor env) (defaultAcceptor d)\<rparr>"

interpretation routed_acceptor: hello_acceptor_contract "TypeRouting_AcceptUnderlay env (as_hello_routes env d)" for env d
  by (rule TypeRouting_keeps_contract) (auto simp: as_hello_routes_def intro: adapted_acceptor.hello_acceptor_contract_axioms)

lemma routeHello_as_hello_routes [simp]:
  "routeHello (as_hello_routes env d) h = map_option (AsHelloAcceptor env) (dispatchTo d h)"
  by (simp add: routeHello_def dispatchTo_def as_hello_routes_def split: option.splits)

text \<open>
  \<^verbatim>\<open>TypeRoutingAcceptor\<close> is the acknowledging counterpart of \<^verbatim>\<open>UnderlayDispatcher\<close>: over
  the same per-type acceptors, routing an underlay whose acknowledgement succeeds does exactly what
  dispatching the acknowledged underlay does, an underlay whose acknowledgement fails is closed and
  no acceptor sees it, and an underlay no acceptor applies to is closed by both, without an
  acknowledgement.
\<close>

theorem routing_is_acknowledged_dispatch:
  fixes env :: hello_env and d :: UnderlayDispatcher
  defines "route \<equiv> TypeRouting_AcceptUnderlay env (as_hello_routes env d)"
  assumes "\<And>u. cu_Headers (snd (ack u)) = cu_Headers u"
  shows "case dispatchTo d (cu_Headers u) of
      None \<Rightarrow> route u ack = dispatchOne env d u \<and> cu_IsClosed (route u ack)
    | Some _ \<Rightarrow> (case ack u of
        (None, u') \<Rightarrow> route u ack = dispatchOne env d u'
      | (Some e, u') \<Rightarrow> route u ack = snd (cu_Close env u'))"
proof -
  have "cu_Headers u' = cu_Headers u" if "ack u = (e, u')" for e u'
    using assms(2) [of u] that by simp
  then show ?thesis
    by (auto simp: route_def TypeRouting_AcceptUnderlay_def dispatchOne_def AsHelloAcceptor_def HelloAcceptorF_def
        split: option.splits prod.splits)
qed

theorem routing_is_acknowledged_dispatch_witness:
  "TypeRouting_AcceptUnderlay (hello_env_with []) (as_hello_routes (hello_env_with [])
      \<lparr>acceptors = [''c'' \<mapsto> Pair None], defaultAcceptor = None\<rparr>) sample_lu (Pair None) =
   dispatchOne (hello_env_with []) \<lparr>acceptors = [''c'' \<mapsto> Pair None], defaultAcceptor = None\<rparr> sample_lu"
  using routing_is_acknowledged_dispatch [of "Pair None" "hello_env_with []"
      \<open>\<lparr>acceptors = [''c'' \<mapsto> Pair None], defaultAcceptor = None\<rparr>\<close> sample_lu]
  by (simp split: option.splits)

text \<open>
  The dispatcher's loop: every underlay it is handed is taken over by an acceptor without error, or
  closed; and it ends when the listener has been closed and offers nothing more.
\<close>

lemma dispatchOne_settles:
  "cu_IsClosed (dispatchOne env d u) \<or>
    (\<exists>a. dispatchTo d (cu_Headers u) = Some a \<and> a u = (None, dispatchOne env d u))"
  by (auto simp: dispatchOne_def split: option.splits prod.splits)

lemma Run_append_open:
  assumes "snd (Run io env d rs) = False"
  shows "fst (Run io env d (rs @ rs')) = fst (Run io env d rs) @ fst (Run io env d rs')"
    "snd (Run io env d (rs @ rs')) = snd (Run io env d rs')"
  using assms by (induction io env d rs rule: Run.induct) (auto simp: case_prod_beta split: if_splits)

end
