(* ===== verification/Dial_Policy.thy ===== *)
theory Dial_Policy
  imports Complex_Main Underlays
begin

text \<open>
  The backoff dial policy, \<^verbatim>\<open>dial_policy.go\<close>. Durations are int64 nanoseconds, with their
  wrap-around; a point in time is an integer number of nanoseconds, \<open>None\<close> the zero
  \<^verbatim>\<open>time.Time\<close>. Jitter is a float64: its arithmetic is real arithmetic followed by a
  rounding \<open>rnd\<close>, a parameter of which the results use only what IEEE 754 promises
  (rounding is monotone and keeps integers up to \<open>2 ^ 53\<close>).
\<close>

section \<open>State\<close>

record BackoffConfig =
  BaseDelay :: int64
  MaxDelay :: int64
  MinStableDuration :: int64
  MinDialInterval :: int64
  Jitter :: real

definition DefaultBackoffConfig :: BackoffConfig where
  "DefaultBackoffConfig = \<lparr>BaseDelay = 2 * 1000000000, MaxDelay = 60 * 1000000000,
     MinStableDuration = 30 * 1000000000, MinDialInterval = 0, Jitter = 0\<rparr>"

record BackoffDialPolicy =
  Backoff :: BackoffConfig
  consecutiveFailures :: uint32
  lastDialSuccess :: "int option"
  lastNegativeEvent :: "int option"
  lastDialTime :: "int option"
  iteration :: uint32

definition NewBackoffDialPolicyWithConfig :: "BackoffConfig \<Rightarrow> BackoffDialPolicy" where
  "NewBackoffDialPolicyWithConfig cfg = \<lparr>Backoff = cfg, consecutiveFailures = 0, lastDialSuccess = None,
     lastNegativeEvent = None, lastDialTime = None, iteration = 0\<rparr>"

definition NewBackoffDialPolicy :: BackoffDialPolicy where
  "NewBackoffDialPolicy = NewBackoffDialPolicyWithConfig DefaultBackoffConfig"

text \<open>\<^verbatim>\<open>t.After(u)\<close>, and \<^verbatim>\<open>time.Since(t)\<close>, which saturates.\<close>

definition After :: "int option \<Rightarrow> int option \<Rightarrow> bool" where
  "After t u = (case (t, u) of (Some a, Some b) \<Rightarrow> a > b | (Some a, None) \<Rightarrow> True | _ \<Rightarrow> False)"

definition Since :: "int \<Rightarrow> int option \<Rightarrow> int64" where
  "Since now t = (case t of None \<Rightarrow> word_of_int (2 ^ 63 - 1)
     | Some a \<Rightarrow> word_of_int (max (- (2 ^ 63)) (min (2 ^ 63 - 1) (now - a))))"

section \<open>Accounting\<close>

definition UnderlayClosed :: "int \<Rightarrow> int64 \<Rightarrow> BackoffDialPolicy \<Rightarrow> BackoffDialPolicy" where
  "UnderlayClosed now lifetime p =
     (if sint lifetime < sint (MinStableDuration (Backoff p))
      then p\<lparr>consecutiveFailures := consecutiveFailures p + 1, lastNegativeEvent := Some now\<rparr>
      else p\<lparr>consecutiveFailures := 0\<rparr>)"

definition resetStaleFailures :: "int \<Rightarrow> BackoffDialPolicy \<Rightarrow> BackoffDialPolicy" where
  "resetStaleFailures now p =
     (if consecutiveFailures p = 0 \<or> lastDialSuccess p = None then p
      else if After (lastDialSuccess p) (lastNegativeEvent p) \<and>
              sint (Since now (lastDialSuccess p)) \<ge> sint (MinStableDuration (Backoff p))
      then p\<lparr>consecutiveFailures := 0\<rparr> else p)"

definition recordSuccess :: "int \<Rightarrow> BackoffDialPolicy \<Rightarrow> BackoffDialPolicy" where
  "recordSuccess now p = p\<lparr>lastDialSuccess := Some now\<rparr>"

definition recordFailure :: "int \<Rightarrow> BackoffDialPolicy \<Rightarrow> BackoffDialPolicy" where
  "recordFailure now p = p\<lparr>consecutiveFailures := consecutiveFailures p + 1, lastNegativeEvent := Some now\<rparr>"

section \<open>The delay\<close>

text \<open>
  \<open>r\<close> is the value of \<^verbatim>\<open>rand.Float64()\<close>. The exponential part, lines 157--159, the
  jitter to subtract, line 167, and the whole function.
\<close>

definition expDelay :: "BackoffDialPolicy \<Rightarrow> int64" where
  "expDelay p =
     (let delay = BaseDelay (Backoff p) * push_bit (min (unat (consecutiveFailures p - 1)) 30) 1
      in if sint (MaxDelay (Backoff p)) < sint delay then MaxDelay (Backoff p) else delay)"

definition jitterOf :: "(real \<Rightarrow> real) \<Rightarrow> real \<Rightarrow> real \<Rightarrow> int64 \<Rightarrow> int64" where
  "jitterOf rnd r jitter delay =
     word_of_int \<lfloor>rnd (rnd (r * jitter) * rnd (real_of_int (sint delay)))\<rfloor>"

definition getBackoffDelay :: "(real \<Rightarrow> real) \<Rightarrow> real \<Rightarrow> BackoffDialPolicy \<Rightarrow> int64" where
  "getBackoffDelay rnd r p =
     (if consecutiveFailures p = 0 then 0
      else
        (let delay = expDelay p; jitter = Jitter (Backoff p)
         in if jitter > 0 \<and> sint delay > 0
            then delay - jitterOf rnd r (if jitter > 1 then 1 else jitter) delay
            else delay))"

section \<open>The connection id of a group\<close>


definition groupConnectionId :: "string \<Rightarrow> bool \<Rightarrow> BackoffDialPolicy \<Rightarrow> string \<times> BackoffDialPolicy" where
  "groupConnectionId connectionId isFirst p =
     (let p = (if isFirst then p\<lparr>iteration := iteration p + 1\<rparr> else p)
      in (if iteration p = 0 then connectionId else connectionId @ ''-'' @ decimal (unat (iteration p)), p))"

section \<open>Dialing\<close>

text \<open>
  What the environment answers during a dial: the clock at the four points it is read, the
  outcome of the two selects (\<open>True\<close> when the cancel case was taken), whether the channel
  was cancelled at the last check, the random number, and the dialer's result for the connect
  timeout and the headers.
\<close>

record dial_env =
  nowReset :: int
  nowInterval :: int
  nowDial :: int
  nowEvent :: int
  cancelledInterval :: bool
  cancelledBackoff :: bool
  cancelledLast :: bool
  randFloat :: real
  createWithHeaders :: "int64 \<Rightarrow> headers \<Rightarrow> Underlay res"

definition dialHeaders :: "string \<Rightarrow> string \<Rightarrow> bytes \<Rightarrow> bool \<Rightarrow> headers" where
  "dialHeaders underlayType groupId groupSecret isFirst =
     (let h = [TypeHeader \<mapsto> string_bytes underlayType, ConnectionIdHeader \<mapsto> string_bytes groupId,
               GroupSecretHeader \<mapsto> groupSecret, IsGroupedHeader \<mapsto> [1]]
      in if isFirst then PutBoolHeader IsFirstGroupConnection True h else h)"

text \<open>
  The result also records how long the goroutine slept for the dial interval and for the
  backoff, if it did, and the headers it dialed with, if it came to dial.
\<close>

record dial_result =
  dialed :: "Underlay res"
  sleptInterval :: "int64 option"
  sleptBackoff :: "int64 option"
  sentHeaders :: "headers option"

definition cancelled :: "int64 option \<Rightarrow> int64 option \<Rightarrow> dial_result" where
  "cancelled wi wb = \<lparr>dialed = Inl ClosedError, sleptInterval = wi, sleptBackoff = wb, sentHeaders = None\<rparr>"

definition Dial ::
    "(real \<Rightarrow> real) \<Rightarrow> dial_env \<Rightarrow> string \<Rightarrow> string \<Rightarrow> bytes \<Rightarrow> bool \<Rightarrow> int64 \<Rightarrow> BackoffDialPolicy \<Rightarrow> dial_result \<times> BackoffDialPolicy" where
  "Dial rnd env underlayType connectionId groupSecret isFirst connectTimeout p =
     (let (groupId, p) = groupConnectionId connectionId isFirst p;
          p = resetStaleFailures (nowReset env) p;
          elapsed = Since (nowInterval env) (lastDialTime p);
          early = (sint (MinDialInterval (Backoff p)) > 0 \<and> sint elapsed < sint (MinDialInterval (Backoff p)));
          wi = (if early then Some (MinDialInterval (Backoff p) - elapsed) else None)
      in if early \<and> cancelledInterval env then (cancelled wi None, p)
         else
           (let p = p\<lparr>lastDialTime := Some (nowDial env)\<rparr>;
                delay = getBackoffDelay rnd (randFloat env) p;
                wb = (if sint delay > 0 then Some delay else None)
            in if sint delay > 0 \<and> cancelledBackoff env then (cancelled wi wb, p)
               else if cancelledLast env then (cancelled wi wb, p)
               else
                 (let h = dialHeaders underlayType groupId groupSecret isFirst;
                      u = createWithHeaders env connectTimeout h
                  in (\<lparr>dialed = u, sleptInterval = wi, sleptBackoff = wb, sentHeaders = Some h\<rparr>,
                      case u of Inl e \<Rightarrow> recordFailure (nowEvent env) p | Inr _ \<Rightarrow> recordSuccess (nowEvent env) p))))"

section \<open>The delay is bounded\<close>

text \<open>What the float64 rounding promises, and the uncapped exponential as a number.\<close>

definition ieee_rounding :: "(real \<Rightarrow> real) \<Rightarrow> bool" where
  "ieee_rounding rnd \<longleftrightarrow> mono rnd \<and> (\<forall>n::int. \<bar>n\<bar> \<le> 2 ^ 53 \<longrightarrow> rnd (real_of_int n) = real_of_int n)"

definition ideal_delay :: "BackoffDialPolicy \<Rightarrow> int" where
  "ideal_delay p = min (sint (BaseDelay (Backoff p)) * 2 ^ min (unat (consecutiveFailures p) - 1) 30)
     (sint (MaxDelay (Backoff p)))"

lemma sint_mult_pow_30:
  fixes b :: int64
  assumes "0 \<le> sint b" "sint b < 2 ^ 33" "k \<le> 30"
  shows "sint (b * 2 ^ k) = sint b * 2 ^ k"
proof -
  have eq: "b * 2 ^ k = word_of_int (sint b * 2 ^ k)"
    by simp
  have "(2::int) ^ k \<le> 2 ^ 30"
    using assms(3) by (intro power_increasing) auto
  then have "sint b * 2 ^ k \<le> (2 ^ 33 - 1) * 2 ^ 30"
    using assms(1,2) by (intro mult_mono) auto
  moreover have "0 \<le> sint b * 2 ^ k" using assms(1) by simp
  ultimately show ?thesis
    unfolding eq by (intro sint_64_eqI) simp_all
qed

lemma unat_pred_32: "(n :: 32 word) \<noteq> 0 \<Longrightarrow> unat (n - 1) = unat n - 1"
  by (cases n rule: word_nat_cases) (auto simp: unat_minus_one)

lemma sint_expDelay:
  assumes "consecutiveFailures p \<noteq> 0" "0 \<le> sint (BaseDelay (Backoff p))" "sint (BaseDelay (Backoff p)) < 2 ^ 33"
  shows "sint (expDelay p) = ideal_delay p"
proof -
  have "sint (BaseDelay (Backoff p) * 2 ^ min (unat (consecutiveFailures p) - 1) 30) =
      sint (BaseDelay (Backoff p)) * 2 ^ min (unat (consecutiveFailures p) - 1) 30"
    using assms(2,3) by (rule sint_mult_pow_30) simp
  then show ?thesis
    using assms(1) by (simp add: expDelay_def ideal_delay_def Let_def unat_pred_32 push_bit_of_1 min_def)
qed

lemma ceiling_fraction:
  fixes n :: int
  assumes "0 < j" "j \<le> (1::real)" "0 < n"
  shows "0 \<le> \<lceil>j * real_of_int n\<rceil>" "\<lceil>j * real_of_int n\<rceil> \<le> n"
  using assms by (simp_all add: ceiling_le_iff mult_left_le_one_le less_le_trans [of "-1" 0])

lemma floor_rest:
  fixes n :: int
  shows "\<lfloor>(1 - j) * real_of_int n\<rfloor> = n - \<lceil>j * real_of_int n\<rceil>"
  by (simp add: left_diff_distrib ceiling_def floor_diff_of_int [symmetric]) linarith

lemma jitter_bounds:
  assumes "ieee_rounding rnd" "0 \<le> r" "r < 1" "0 < j" "j \<le> 1" "rnd j = j" "0 < d" "d \<le> 2 ^ 53"
  defines "x \<equiv> rnd (rnd (r * j) * rnd (real_of_int d))"
  shows "0 \<le> x" "x \<le> real_of_int \<lceil>j * real_of_int d\<rceil>"
proof -
  have mono: "mono rnd" and exact: "\<And>n::int. \<bar>n\<bar> \<le> 2 ^ 53 \<Longrightarrow> rnd (real_of_int n) = real_of_int n"
    using assms(1) by (auto simp: ieee_rounding_def)
  have zero: "rnd 0 = 0" using exact [of 0] by simp
  have d: "rnd (real_of_int d) = real_of_int d" using assms(7,8) by (intro exact) simp
  have lo: "0 \<le> rnd (r * j)"
    using monoD [OF mono, of 0 "r * j"] zero assms(2,4) by simp
  have hi: "rnd (r * j) \<le> j"
    using monoD [OF mono, of "r * j" j] assms(3,4,6) by simp
  show "0 \<le> x"
    using monoD [OF mono, of 0 "rnd (r * j) * real_of_int d"] lo zero assms(7) d by (simp add: x_def)
  have "rnd (r * j) * real_of_int d \<le> real_of_int \<lceil>j * real_of_int d\<rceil>"
    using mult_right_mono [OF hi, of "real_of_int d"] assms(7) le_of_int_ceiling [of "j * real_of_int d"] by linarith
  then have "x \<le> rnd (real_of_int \<lceil>j * real_of_int d\<rceil>)"
    unfolding x_def d by (rule monoD [OF mono])
  also have "\<dots> = real_of_int \<lceil>j * real_of_int d\<rceil>"
  proof (rule exact)
    show "\<bar>\<lceil>j * real_of_int d\<rceil>\<bar> \<le> 2 ^ 53"
      using ceiling_fraction [OF assms(4,5,7)] assms(8) by linarith
  qed
  finally show "x \<le> real_of_int \<lceil>j * real_of_int d\<rceil>" .
qed

lemma sint_sub_jitter:
  assumes "ieee_rounding rnd" "0 \<le> r" "r < 1" "0 < j" "j \<le> 1" "rnd j = j" "0 < sint d" "sint d \<le> 2 ^ 53"
  shows "sint (d - jitterOf rnd r j d) \<le> sint d" "\<lfloor>(1 - j) * real_of_int (sint d)\<rfloor> \<le> sint (d - jitterOf rnd r j d)"
    "0 \<le> sint (d - jitterOf rnd r j d)"
proof -
  let ?x = "rnd (rnd (r * j) * rnd (real_of_int (sint d)))"
  have x: "0 \<le> \<lfloor>?x\<rfloor>" "\<lfloor>?x\<rfloor> \<le> \<lceil>j * real_of_int (sint d)\<rceil>"
    using jitter_bounds [OF assms(1-8)] by (simp_all add: floor_le_iff)
  note jd = ceiling_fraction [OF assms(4,5,7)]
  have "d - jitterOf rnd r j d = word_of_int (sint d - \<lfloor>?x\<rfloor>)"
    by (simp add: jitterOf_def)
  then have eq: "sint (d - jitterOf rnd r j d) = sint d - \<lfloor>?x\<rfloor>"
    using x jd sint_64_bounds [of d] by (simp only:) (rule sint_64_eqI; linarith)
  show "sint (d - jitterOf rnd r j d) \<le> sint d" "0 \<le> sint (d - jitterOf rnd r j d)"
    "\<lfloor>(1 - j) * real_of_int (sint d)\<rfloor> \<le> sint (d - jitterOf rnd r j d)"
    unfolding eq floor_rest using x jd by linarith+
qed


definition sample_policy :: BackoffDialPolicy where
  "sample_policy = NewBackoffDialPolicy\<lparr>Backoff := DefaultBackoffConfig\<lparr>Jitter := 1 / 2\<rparr>, consecutiveFailures := 3\<rparr>"

lemma ieee_rounding_id: "ieee_rounding (\<lambda>x. x)"
  by (simp add: ieee_rounding_def mono_def)

lemma sample_policy_simps [simp]:
  "sint (BaseDelay (Backoff sample_policy)) = 2000000000" "sint (MaxDelay (Backoff sample_policy)) = 60000000000"
  "Jitter (Backoff sample_policy) = 1 / 2" "consecutiveFailures sample_policy = 3" "ideal_delay sample_policy = 8000000000"
  by (simp_all add: sample_policy_def NewBackoffDialPolicy_def NewBackoffDialPolicyWithConfig_def DefaultBackoffConfig_def
      ideal_delay_def)


text \<open>
  The bound on the base delay is needed: from \<open>2 ^ 33\<close> nanoseconds on, the thirtieth doubling
  wraps to a negative duration, which the cap lets through, so that the policy stops backing off
  after 31 failures.
\<close>

theorem backoff_wraps_to_no_delay:
  assumes "2 ^ 33 \<le> sint (BaseDelay (Backoff p))" "sint (BaseDelay (Backoff p)) < 2 ^ 34"
    and "0 \<le> sint (MaxDelay (Backoff p))" "31 \<le> unat (consecutiveFailures p)"
  shows "sint (getBackoffDelay rnd r p) < 0"
proof -
  let ?b = "BaseDelay (Backoff p)"
  have f: "consecutiveFailures p \<noteq> 0" using assms(4) by auto
  have k: "min (unat (consecutiveFailures p - 1)) 30 = 30" using assms(4) f by (simp add: unat_pred_32)
  have "?b * 2 ^ 30 = word_of_int (sint ?b * 2 ^ 30 - 2 ^ 64)"
    by (simp add: word_of_int_2p_len flip: wi_hom_sub wi_hom_mult)
  then have "sint (?b * 2 ^ 30) = sint ?b * 2 ^ 30 - 2 ^ 64"
    using assms(1,2) by (simp only:) (rule sint_64_eqI; simp)
  then have "sint (?b * 2 ^ 30) < 0" using assms(2) by simp
  then have "sint (expDelay p) < 0"
    using assms(3) by (simp add: expDelay_def Let_def k push_bit_of_1)
  then show ?thesis using f by (simp add: getBackoffDelay_def Let_def)
qed

section \<open>Group connection ids\<close>

lemma groupConnectionId_eq:
  "fst (groupConnectionId c f p) = fst (groupConnectionId c f' q) \<longleftrightarrow>
   iteration (snd (groupConnectionId c f p)) = iteration (snd (groupConnectionId c f' q))"
  by (auto simp: groupConnectionId_def Let_def word_unat_eq_iff)

lemma iteration_groupConnectionId:
  "iteration (snd (groupConnectionId c f p)) = iteration p + (if f then 1 else 0)"
  by (simp add: groupConnectionId_def Let_def)

text \<open>The ids of a sequence of dials, given which of them (re)establish the group.\<close>

fun groupIds :: "string \<Rightarrow> bool list \<Rightarrow> BackoffDialPolicy \<Rightarrow> string list" where
  "groupIds c [] p = []"
| "groupIds c (f # fs) p = fst (groupConnectionId c f p) # groupIds c fs (snd (groupConnectionId c f p))"

lemma groupIds_nth:
  "i < length fs \<Longrightarrow> \<exists>f q. groupIds c fs p ! i = fst (groupConnectionId c f q) \<and>
     iteration (snd (groupConnectionId c f q)) = iteration p + word_of_nat (count_list (take (Suc i) fs) True)"
proof (induction fs arbitrary: i p)
  case (Cons f fs)
  show ?case
  proof (cases i)
    case 0
    then show ?thesis
      by (intro exI [of _ f] exI [of _ p]) (simp add: iteration_groupConnectionId)
  next
    case (Suc j)
    let ?p = "snd (groupConnectionId c f p)"
    from Cons.prems Suc Cons.IH [of j ?p] obtain f' q where
      "groupIds c fs ?p ! j = fst (groupConnectionId c f' q)"
      "iteration (snd (groupConnectionId c f' q)) = iteration ?p + word_of_nat (count_list (take (Suc j) fs) True)"
      by auto
    then show ?thesis
      using Suc by (intro exI [of _ f'] exI [of _ q]) (simp add: iteration_groupConnectionId)
  qed
qed simp

lemma count_take_split:
  "i \<le> j \<Longrightarrow> count_list (take (Suc j) fs) x = count_list (take (Suc i) fs) x + count_list (take (j - i) (drop (Suc i) fs)) x"
  by (metis Suc_le_mono add_Suc count_list_append le_add_diff_inverse take_add)

text \<open>
  C30. A lost group is never confused with its predecessor: in any sequence of dials of one policy
  (fewer than \<open>2 ^ 32\<close>), two dials use the same connection id exactly when no dial between
  them re-established the group; so every reconnect gets an id of its own and all underlays of
  the new group share it.
\<close>

theorem reconnects_use_fresh_ids:
  assumes "i \<le> j" "j < length fs" "length fs < 2 ^ 32"
  shows "groupIds c fs p ! i = groupIds c fs p ! j \<longleftrightarrow> True \<notin> set (take (j - i) (drop (Suc i) fs))"
proof -
  let ?n = "\<lambda>k. count_list (take (Suc k) fs) True"
  obtain f q where i: "groupIds c fs p ! i = fst (groupConnectionId c f q)"
      "iteration (snd (groupConnectionId c f q)) = iteration p + word_of_nat (?n i)"
    using groupIds_nth [of i fs c p] assms(1,2) by auto
  obtain f' q' where j: "groupIds c fs p ! j = fst (groupConnectionId c f' q')"
      "iteration (snd (groupConnectionId c f' q')) = iteration p + word_of_nat (?n j)"
    using groupIds_nth [of j fs c p] assms(2) by auto
  have small: "?n k < 2 ^ 32" for k
    using count_le_length [of "take (Suc k) fs" True] assms(3) by simp
  have "groupIds c fs p ! i = groupIds c fs p ! j \<longleftrightarrow> (word_of_nat (?n i) :: 32 word) = word_of_nat (?n j)"
    unfolding i(1) j(1) groupConnectionId_eq i(2) j(2) by simp
  also have "\<dots> \<longleftrightarrow> ?n i = ?n j"
    using small by (simp add: word_of_nat_eq_iff take_bit_nat_eq_self)
  also have "\<dots> \<longleftrightarrow> count_list (take (j - i) (drop (Suc i) fs)) True = 0"
    using count_take_split [OF assms(1), of fs True] by linarith
  finally show ?thesis by (simp add: count_list_0_iff)
qed

theorem reconnects_use_fresh_ids_witness:
  "groupIds ''g'' [False, True, False] NewBackoffDialPolicy ! 1 = groupIds ''g'' [False, True, False] NewBackoffDialPolicy ! 2 \<and>
   groupIds ''g'' [False, True, False] NewBackoffDialPolicy ! 0 \<noteq> groupIds ''g'' [False, True, False] NewBackoffDialPolicy ! 1"
  using reconnects_use_fresh_ids [of 1 2 "[False, True, False]" "''g''" NewBackoffDialPolicy]
    reconnects_use_fresh_ids [of 0 1 "[False, True, False]" "''g''" NewBackoffDialPolicy]
  by simp

section \<open>A dial\<close>

text \<open>The policy at the point where a dial computes its backoff delay.\<close>

definition before_backoff :: "dial_env \<Rightarrow> string \<Rightarrow> bool \<Rightarrow> BackoffDialPolicy \<Rightarrow> BackoffDialPolicy" where
  "before_backoff env c f p =
     (resetStaleFailures (nowReset env) (snd (groupConnectionId c f p)))\<lparr>lastDialTime := Some (nowDial env)\<rparr>"

lemma policy_frames [simp]:
  "Backoff (snd (groupConnectionId c f p)) = Backoff p" "lastDialTime (snd (groupConnectionId c f p)) = lastDialTime p"
  "Backoff (resetStaleFailures now p) = Backoff p" "lastDialTime (resetStaleFailures now p) = lastDialTime p"
  by (simp_all add: groupConnectionId_def resetStaleFailures_def Let_def)

lemma dialHeaders_simps:
  "fst (GetStringHeader TypeHeader (dialHeaders t g s f)) = t"
  "fst (GetStringHeader ConnectionIdHeader (dialHeaders t g s f)) = g"
  "hget (dialHeaders t g s f) GroupSecretHeader = s" "fst (GetBoolHeader IsGroupedHeader (dialHeaders t g s f))"
  "fst (GetBoolHeader IsFirstGroupConnection (dialHeaders t g s f)) \<longleftrightarrow> f"
  by (simp_all add: dialHeaders_def Let_def GetStringHeader_def GetBoolHeader_def PutBoolHeader_def hget_def
      TypeHeader_def ConnectionIdHeader_def GroupSecretHeader_def IsGroupedHeader_def IsFirstGroupConnection_def)

lemma Dial_sent:
  assumes "Dial rnd env t c s f timeout p = (res, p')" "sentHeaders res = Some h"
  defines "q \<equiv> before_backoff env c f p"
  defines "elapsed \<equiv> Since (nowInterval env) (lastDialTime p)"
  shows "h = dialHeaders t (fst (groupConnectionId c f p)) s f" "dialed res = createWithHeaders env timeout h"
    "p' = (case dialed res of Inl e \<Rightarrow> recordFailure (nowEvent env) q | Inr _ \<Rightarrow> recordSuccess (nowEvent env) q)"
    "sleptInterval res = (if sint (MinDialInterval (Backoff p)) > 0 \<and> sint elapsed < sint (MinDialInterval (Backoff p))
       then Some (MinDialInterval (Backoff p) - elapsed) else None)"
    "sleptBackoff res = (let delay = getBackoffDelay rnd (randFloat env) q in if sint delay > 0 then Some delay else None)"
  using assms(1,2) unfolding q_def elapsed_def before_backoff_def
  by (auto simp: Dial_def Let_def case_prod_beta cancelled_def split: if_splits)

lemma failures_after_group_id [simp]:
  "consecutiveFailures (resetStaleFailures now (snd (groupConnectionId c f p))) = consecutiveFailures (resetStaleFailures now p)"
  by (simp add: groupConnectionId_def resetStaleFailures_def Let_def)

lemma Dial_unsent:
  assumes "Dial rnd env t c s f timeout p = (res, p')" "sentHeaders res = None"
  shows "dialed res = Inl ClosedError"
    "consecutiveFailures p' = consecutiveFailures (resetStaleFailures (nowReset env) p)"
  using assms by (auto simp: Dial_def Let_def case_prod_beta cancelled_def split: if_splits)

text \<open>
  What \<^verbatim>\<open>time.After\<close> promises: the goroutine goes on no sooner than the duration it
  slept, so the later reading of the clock is at least that much ahead of the earlier one.
\<close>

definition sleeps_pass :: "dial_env \<Rightarrow> dial_result \<Rightarrow> bool" where
  "sleeps_pass env res \<longleftrightarrow>
     (\<forall>w. sleptInterval res = Some w \<longrightarrow> nowInterval env + sint w \<le> nowDial env) \<and>
     (\<forall>w. sleptBackoff res = Some w \<longrightarrow> nowDial env + sint w \<le> nowEvent env) \<and>
     nowInterval env \<le> nowDial env \<and> nowDial env \<le> nowEvent env"

text \<open>
  C28. The policy paces its dials: a dial that reaches the dialer starts at least the minimum
  interval after the one before it, and its outcome comes no sooner than the backoff delay of the
  failures counted so far.
\<close>

theorem dials_are_paced:
  assumes "Dial rnd env t c s f timeout p = (res, p')" "sentHeaders res = Some h" "sleeps_pass env res"
    and "lastDialTime p = Some t0" "t0 \<le> nowInterval env" "nowInterval env - t0 < 2 ^ 63"
  shows "lastDialTime p' = Some (nowDial env) \<and> sint (MinDialInterval (Backoff p)) \<le> nowDial env - t0 \<and>
    sint (getBackoffDelay rnd (randFloat env) (before_backoff env c f p)) \<le> nowEvent env - nowDial env"
proof -
  note sent = Dial_sent [OF assms(1,2)]
  let ?e = "nowInterval env - t0" and ?m = "MinDialInterval (Backoff p)"
  have since: "Since (nowInterval env) (lastDialTime p) = word_of_int ?e" "sint (word_of_int ?e :: int64) = ?e"
    using assms(4-6) by (simp add: Since_def) (rule sint_64_eqI; use assms(5,6) in simp)
  have time: "lastDialTime p' = Some (nowDial env)"
    by (simp add: sent(3) recordFailure_def recordSuccess_def before_backoff_def split: sum.split)
  have interval: "sint ?m \<le> nowDial env - t0"
  proof (cases "sint ?m > 0 \<and> ?e < sint ?m")
    case True
    then have slept: "sleptInterval res = Some (?m - word_of_int ?e)"
      unfolding sent(4) since by (rule if_P)
    have "?m - word_of_int ?e = word_of_int (sint ?m - ?e)" by simp
    then have "sint (?m - word_of_int ?e) = sint ?m - ?e"
      using True assms(5) sint_64_bounds(2) [of ?m] by (simp only:) (rule sint_64_eqI; linarith)
    then show ?thesis using assms(3) slept by (auto simp: sleeps_pass_def)
  next
    case False
    then show ?thesis using assms(3,5) by (auto simp: sleeps_pass_def)
  qed
  have "sint (getBackoffDelay rnd (randFloat env) (before_backoff env c f p)) \<le> nowEvent env - nowDial env"
    using assms(3) sent(5) by (force simp: sleeps_pass_def Let_def split: if_splits)
  with time interval show ?thesis by simp
qed

definition sample_env :: dial_env where
  "sample_env = \<lparr>nowReset = 0, nowInterval = 10, nowDial = 1000, nowEvent = 8000001000, cancelledInterval = False,
     cancelledBackoff = False, cancelledLast = False, randFloat = 0,
     createWithHeaders = (\<lambda>_ _. Inl (ErrIO 1))\<rparr>"

theorem dials_are_paced_witness:
  "lastDialTime (snd (Dial (\<lambda>x. x) sample_env ''ctrl'' ''g'' [1] False 0
     (sample_policy\<lparr>Backoff := (Backoff sample_policy)\<lparr>MinDialInterval := 500, Jitter := 0\<rparr>, lastDialTime := Some 5\<rparr>)))
   = Some 1000"
proof -
  let ?p = "sample_policy\<lparr>Backoff := (Backoff sample_policy)\<lparr>MinDialInterval := 500, Jitter := 0\<rparr>, lastDialTime := Some 5\<rparr>"
  let ?d = "Dial (\<lambda>x. x) sample_env ''ctrl'' ''g'' [1] False 0 ?p"
  have d: "?d = (fst ?d, snd ?d)" by simp
  have e: "sentHeaders (fst ?d) = Some (dialHeaders ''ctrl'' ''g'' [1] False)" "sleeps_pass sample_env (fst ?d)"
    by (simp_all add: Dial_def Let_def sample_env_def sample_policy_def NewBackoffDialPolicy_def
        NewBackoffDialPolicyWithConfig_def DefaultBackoffConfig_def groupConnectionId_def resetStaleFailures_def
        Since_def getBackoffDelay_def expDelay_def sleeps_pass_def push_bit_of_1)
  show ?thesis
    using dials_are_paced [OF d e, of 5] by (simp add: sample_env_def)
qed

text \<open>
  A dial tells the remote side what it is and accounts for the result: it reaches the dialer
  with the type, the id of the current group, the secret and, exactly when it re-establishes the
  group, the first-connection mark; then a failure is counted (and only a failure), and a success
  leaves the count for the connection to prove itself. A cancelled dial reports the closed channel
  and counts nothing.
\<close>

theorem dial_announces_and_accounts:
  assumes "Dial rnd env t c s f timeout p = (res, p')"
  shows "case sentHeaders res of
      None \<Rightarrow> dialed res = Inl ClosedError \<and>
        consecutiveFailures p' = consecutiveFailures (resetStaleFailures (nowReset env) p)
    | Some h \<Rightarrow> dialed res = createWithHeaders env timeout h \<and>
        fst (GetStringHeader TypeHeader h) = t \<and> fst (GetStringHeader ConnectionIdHeader h) = fst (groupConnectionId c f p) \<and>
        hget h GroupSecretHeader = s \<and> fst (GetBoolHeader IsGroupedHeader h) \<and>
        (fst (GetBoolHeader IsFirstGroupConnection h) \<longleftrightarrow> f) \<and>
        consecutiveFailures p' = consecutiveFailures (resetStaleFailures (nowReset env) p) + (if isl (dialed res) then 1 else 0)"
proof (cases "sentHeaders res")
  case None
  then show ?thesis
    using Dial_unsent [OF assms None] by simp
next
  case (Some h)
  note sent = Dial_sent [OF assms Some]
  have "consecutiveFailures (before_backoff env c f p) = consecutiveFailures (resetStaleFailures (nowReset env) p)"
    by (simp add: before_backoff_def)
  then show ?thesis
    using Some sent(2,3) by (simp add: sent(1) dialHeaders_simps recordFailure_def recordSuccess_def split: sum.split)
qed

theorem dial_announces_and_accounts_witness:
  "consecutiveFailures (snd (Dial (\<lambda>x. x) sample_env ''ctrl'' ''g'' [1] True 0 sample_policy)) = 4"
proof -
  let ?d = "Dial (\<lambda>x. x) sample_env ''ctrl'' ''g'' [1] True 0 sample_policy"
  have d: "?d = (fst ?d, snd ?d)" by simp
  have "sentHeaders (fst ?d) \<noteq> None" "isl (dialed (fst ?d))"
    by (simp_all add: Dial_def Let_def sample_env_def split: prod.splits)
  then show ?thesis
    using dial_announces_and_accounts [OF d]
    by (auto simp: sample_env_def resetStaleFailures_def sample_policy_def NewBackoffDialPolicy_def
        NewBackoffDialPolicyWithConfig_def)
qed

end
