(* ===== verification/Group_Channels.thy ===== *)
theory Group_Channels
  imports Handshake Channel_Lifecycle Dial_Policy
begin

text \<open>
  The channels of a group and the connections they are made of: what the handshake, the channels
  at both ends and the dial policy do together when a channel grows by another underlay. An
  \<open>exchange\<close> is one handshake over a pair of connections.
\<close>

section \<open>Exchanges\<close>

text \<open>The underlay as the channel sees it, through the methods of its interface.\<close>

fun cu_CreatedAt :: "classicUnderlay \<Rightarrow> int64" where
  "cu_CreatedAt (Classic c) = cu_createdAt c"
| "cu_CreatedAt (Datagram d) = cu_createdAt d"

definition underlay_of :: "nat \<Rightarrow> classicUnderlay \<Rightarrow> Underlay" where
  "underlay_of i u = \<lparr>uid = i, uId = cu_Id u, uConnectionId = cu_ConnectionId u, uHeaders = cu_Headers u,
     uCreatedAt = cu_CreatedAt u\<rparr>"

record exchange =
  xDialer :: classicDialer
  xListener :: classicListener
  xHeaders :: headers
  xDialEnv :: hello_env
  xListenEnv :: hello_env
  xDialSide :: classicUnderlay
  xListenSide :: classicUnderlay
  xFreshId :: string
  xFreshSecret :: bytes

text \<open>What the two ends hold afterwards, and the answer the listener wrote.\<close>

definition accepted_end :: "exchange \<Rightarrow> classicUnderlay" where
  "accepted_end x = acceptQueued (xListenEnv x) (Inr (xFreshId x)) [] (xFreshSecret x)
     (HelloAcceptorF (xListenEnv x) (\<lambda>u. u)) (xListener x) (xListenSide x)"

definition dialed_end :: "exchange \<Rightarrow> classicUnderlay" where
  "dialed_end x = snd (sendHello (xDialEnv x) None (xDialer x) (xHeaders x) (xDialSide x))"

definition hello_of :: "exchange \<Rightarrow> Message" where
  "hello_of x = hello_message (xDialer x) (xHeaders x)"

definition answer_of :: "exchange \<Rightarrow> Message" where
  "answer_of x = ackResponse (xListener x) (cu_ConnectionId (accepted_end x))
     ((hello_of x)\<lparr>Headers := cu_Headers (accepted_end x)\<rparr>) True []"

text \<open>
  A grouped exchange in which the transport does its part: the hello arrives at the listener, whose
  handlers let it pass, and the answer arrives at the dialer, each in any pieces and behind any
  order of the headers; the generated id and secret are not empty.
\<close>

definition exchanged :: "exchange \<Rightarrow> bool" where
  "exchanged x \<longleftrightarrow> fresh_classic (xDialSide x) \<and> fresh_classic (xListenSide x) \<and> quiet (xDialEnv x) \<and> quiet (xListenEnv x) \<and>
     helloHeaderProvider (xDialer x) = None \<and> plain_listener (xListener x) \<and> listenerToken (xListener x) \<noteq> None \<and>
     enumerates (headerOrder (xDialEnv x)) (dialerHeaders (xDialer x) ++ xHeaders x) \<and>
     hello_fits (headerOrder (xDialEnv x)) (hello_of x) \<and>
     fst (GetBoolHeader IsGroupedHeader (dialerHeaders (xDialer x) ++ xHeaders x)) \<and> xFreshSecret x \<noteq> [] \<and> xFreshId x \<noteq> [] \<and>
     runHandlers (listenerHandlers (xListener x)) (UnmarshalHello (hello_of x)) = None \<and>
     (\<exists>rest. content (cin (getPeer (xListenSide x))) = fst (MarshalV2 (headerOrder (xDialEnv x)) (hello_of x)) @ rest) \<and>
     cout (getPeer (xListenSide x)) = [] \<and>
     enumerates (headerOrder (xListenEnv x)) (Headers (putReplyFor (answer_of x))) \<and>
     frame_fits (headerOrder (xListenEnv x)) (answer_of x) \<and>
     (\<exists>rest. content (cin (getPeer (xDialSide x))) = cout (getPeer (accepted_end x)) @ rest)"

lemma exchanged_agree:
  assumes "exchanged x"
  shows "fst (sendHello (xDialEnv x) None (xDialer x) (xHeaders x) (xDialSide x)) = None"
    "\<not> cu_IsClosed (dialed_end x)" "\<not> cu_IsClosed (accepted_end x)"
    "cu_ConnectionId (dialed_end x) = cu_ConnectionId (accepted_end x)"
    "hget (cu_Headers (dialed_end x)) GroupSecretHeader = hget (cu_Headers (accepted_end x)) GroupSecretHeader"
    "hget (cu_Headers (accepted_end x)) GroupSecretHeader \<noteq> []"
proof -
  note X = assms [unfolded exchanged_def hello_of_def]
  obtain token where token: "listenerToken (xListener x) = Some token" using X by blast
  obtain rest where rest: "content (cin (getPeer (xListenSide x))) =
      fst (MarshalV2 (headerOrder (xDialEnv x)) (hello_message (xDialer x) (xHeaders x))) @ rest" using X by blast
  obtain rest' where rest': "content (cin (getPeer (xDialSide x))) = cout (getPeer (accepted_end x)) @ rest'" using X by blast
  obtain du where du: "sendHello (xDialEnv x) None (xDialer x) (xHeaders x) (xDialSide x) = (None, du)"
    "\<not> cu_IsClosed du" "\<not> cu_IsClosed (accepted_end x)" "cu_ConnectionId du = cu_ConnectionId (accepted_end x)"
    "hget (cu_Headers du) GroupSecretHeader = hget (cu_Headers (accepted_end x)) GroupSecretHeader"
    "hget (cu_Headers du) GroupSecretHeader \<noteq> []"
    using handshake_completes [OF _ _ _ _ _ _ _ _ _ refl _ _ token rest _ accepted_end_def answer_of_def [unfolded hello_of_def] _ _ rest'] X
    by blast
  then show "fst (sendHello (xDialEnv x) None (xDialer x) (xHeaders x) (xDialSide x)) = None"
    "\<not> cu_IsClosed (dialed_end x)" "\<not> cu_IsClosed (accepted_end x)"
    "cu_ConnectionId (dialed_end x) = cu_ConnectionId (accepted_end x)"
    "hget (cu_Headers (dialed_end x)) GroupSecretHeader = hget (cu_Headers (accepted_end x)) GroupSecretHeader"
    "hget (cu_Headers (accepted_end x)) GroupSecretHeader \<noteq> []"
    by (simp_all add: dialed_end_def)
qed

lemma exchanged_values:
  assumes "exchanged x"
  shows "cu_ConnectionId (accepted_end x) = listenerConnectionId (Inr (xFreshId x)) [] (dialerHeaders (xDialer x) ++ xHeaders x)"
    "cu_Headers (accepted_end x) = listenerSecret (xFreshSecret x) (dialerHeaders (xDialer x) ++ xHeaders x)"
    "cu_ConnectionId (accepted_end x) \<noteq> []"
proof -
  let ?m = "hello_message (xDialer x) (xHeaders x)"
  note X = assms [unfolded exchanged_def hello_of_def]
  obtain rest where rest: "content (cin (getPeer (xListenSide x))) = fst (MarshalV2 (headerOrder (xDialEnv x)) ?m) @ rest"
    using X by blast
  have en: "enumerates (headerOrder (xDialEnv x)) (Headers ?m)" using X by simp
  note la = listener_answers [OF _ _ en _ _ rest, of "xListenEnv x" "xListener x" "Inr (xFreshId x)" "[]" "xFreshSecret x",
      folded accepted_end_def]
  show id: "cu_ConnectionId (accepted_end x) = listenerConnectionId (Inr (xFreshId x)) [] (dialerHeaders (xDialer x) ++ xHeaders x)"
    and "cu_Headers (accepted_end x) = listenerSecret (xFreshSecret x) (dialerHeaders (xDialer x) ++ xHeaders x)"
    using la(2,3) X by simp_all
  show "cu_ConnectionId (accepted_end x) \<noteq> []" using X unfolding id by (simp add: listenerConnectionId_def Let_def)
qed


section \<open>A group over several connections\<close>

lemma secret_of_underlay_of [simp]: "secret_of (underlay_of i u) = hget (cu_Headers u) GroupSecretHeader"
  "uConnectionId (underlay_of i u) = cu_ConnectionId u"
  by (simp_all add: secret_of_def underlay_of_def)

text \<open>A dial for an established group keeps the group's secret and its id through the handshake.\<close>

lemma exchanged_dial:
  assumes "exchanged y" "xHeaders y = dialHeaders t g s False" "s \<noteq> []" "g \<noteq> []"
  shows "hget (cu_Headers (accepted_end y)) GroupSecretHeader = s" "cu_ConnectionId (accepted_end y) = g"
  using exchanged_values(1,2) [OF assms(1)] assms(2-4)
  by (simp_all add: listenerSecret_def listenerConnectionId_def dialHeaders_def GetBoolHeader_def GetStringHeader_def Let_def
      hget_def header_keys)

text \<open>
  C4. A group grows over the wire: when the channels at the two ends were created on the ends of
  one handshake, and the policy of the dialing channel dials for it, then the handshake over the
  new connection gives two underlays with one connection id, the one the policy derives from the
  first handshake's, and each channel accepts its end as a new member, whatever both channels
  have done in between. The listening channel refuses every underlay of a handshake in which
  neither side came up with its secret.
\<close>

theorem group_grows_over_the_wire:
  assumes "exchanged x" "channel_on dclose (underlay_of i (dialed_end x)) dch" "channel_on lclose (underlay_of j (accepted_end x)) lch"
    and "Dial rnd env t (channelId dch) (groupSecret dch) False timeout p = (res, p')" "sentHeaders res = Some h"
    and "exchanged y" "xHeaders y = h"
  shows "fst (AcceptUnderlay dclose (underlay_of k (dialed_end y)) dch) = None \<and>
    entries (underlays (snd (AcceptUnderlay dclose (underlay_of k (dialed_end y)) dch))) = entries (underlays dch) @ [underlay_of k (dialed_end y)] \<and>
    fst (AcceptUnderlay lclose (underlay_of m (accepted_end y)) lch) = None \<and>
    entries (underlays (snd (AcceptUnderlay lclose (underlay_of m (accepted_end y)) lch))) = entries (underlays lch) @ [underlay_of m (accepted_end y)] \<and>
    cu_ConnectionId (dialed_end y) = cu_ConnectionId (accepted_end y) \<and>
    cu_ConnectionId (accepted_end y) = fst (groupConnectionId (cu_ConnectionId (accepted_end x)) False p) \<and>
    (\<forall>z. exchanged z \<and> xFreshSecret z \<noteq> groupSecret lch \<and>
       hget (dialerHeaders (xDialer z) ++ xHeaders z) GroupSecretHeader \<noteq> groupSecret lch \<longrightarrow>
       fst (AcceptUnderlay lclose (underlay_of n (accepted_end z)) lch) \<noteq> None)"
proof -
  note xs = exchanged_agree [OF assms(1)] and ys = exchanged_agree [OF assms(6)]
  let ?g = "fst (groupConnectionId (channelId dch) False p)"
  have ids: "channelId dch = cu_ConnectionId (accepted_end x)" "groupSecret dch = groupSecret lch" "groupSecret lch \<noteq> []"
    using channel_on_group [OF assms(2)] channel_on_group [OF assms(3)] xs(4-6) by simp_all
  have "channelId dch \<noteq> []" using exchanged_values(3) [OF assms(1)] ids(1) by simp
  then have g: "?g \<noteq> []" by (simp add: groupConnectionId_def Let_def)
  have h: "xHeaders y = dialHeaders t ?g (groupSecret dch) False" using Dial_sent(1) [OF assms(4,5)] assms(7) by simp
  have y: "hget (cu_Headers (accepted_end y)) GroupSecretHeader = groupSecret lch" "cu_ConnectionId (accepted_end y) = ?g"
    using exchanged_dial [OF assms(6) h _ g] ids(2,3) by simp_all
  note d = accepted_by_channel_on [OF assms(2)] and l = accepted_by_channel_on [OF assms(3)]
  have sec: "hget (cu_Headers (dialed_end x)) GroupSecretHeader = groupSecret lch"
    "hget (cu_Headers (accepted_end x)) GroupSecretHeader = groupSecret lch"
    using channel_on_group(1) [OF assms(3)] xs(5) by simp_all
  have strange: "fst (AcceptUnderlay lclose (underlay_of n (accepted_end z)) lch) \<noteq> None"
    if "exchanged z" "xFreshSecret z \<noteq> groupSecret lch" "hget (dialerHeaders (xDialer z) ++ xHeaders z) GroupSecretHeader \<noteq> groupSecret lch"
    for z
  proof -
    have "hget (cu_Headers (accepted_end z)) GroupSecretHeader \<noteq> groupSecret lch"
      unfolding exchanged_values(2) [OF that(1)] using that(2,3) by (auto simp: listenerSecret_def hget_def)
    then show ?thesis unfolding l(1) by (simp add: sec)
  qed
  show ?thesis using d l y ys(4,5) ids(1) sec strange by simp
qed


text \<open>Handshakes between the sample dialer and listener, and channels on their ends.\<close>

definition sample_exchange :: "headers \<Rightarrow> int32 list \<Rightarrow> exchange" where
  "sample_exchange h ks =
     (let lenv = hello_env_with [10, 9, 8, 7, 2, 1, 0];
          lu = underlayFactory False None (stream_of (fst (MarshalV2 ks (hello_message sample_dialer h)))) 2 0;
          lu' = acceptQueued lenv (Inr ''id'') [] [1, 2] (HelloAcceptorF lenv (\<lambda>u. u)) sample_listener lu
      in \<lparr>xDialer = sample_dialer, xListener = sample_listener, xHeaders = h, xDialEnv = hello_env_with ks, xListenEnv = lenv,
          xDialSide = underlayFactory False None (stream_of (cout (getPeer lu'))) 2 0, xListenSide = lu,
          xFreshId = ''id'', xFreshSecret = [1, 2]\<rparr>)"

lemma sample_exchanged:
  assumes "h TypeHeader = Some [99]" "h IsGroupedHeader = Some [1]" "h GroupSecretHeader \<in> {None, Some [1, 2]}"
    and "h ConnectionIdHeader \<in> {None, Some (string_bytes ''id'')}" "h ReflectedHeader = None"
    and "enumerates ks h" "hello_fits ks (hello_message sample_dialer h)"
  shows "exchanged (sample_exchange h ks)" "cu_ConnectionId (accepted_end (sample_exchange h ks)) = ''id''"
    "hget (cu_Headers (accepted_end (sample_exchange h ks))) GroupSecretHeader = [1, 2]"
proof -
  let ?x = "sample_exchange h ks" and ?m = "hello_message sample_dialer h"
  have sd [simp]: "dialerHeaders sample_dialer = Map.empty" "helloHeaderProvider sample_dialer = None"
    and sl: "listenerHandlers sample_listener = []" "listenerToken sample_listener = Some ''l''" "plain_listener sample_listener"
    by (simp_all add: sample_dialer_def sample_listener_def plain_listener_def)
  have f: "fresh_classic (xListenSide ?x)" "fresh_classic (xDialSide ?x)"
    unfolding sample_exchange_def Let_def exchange.simps by (rule fresh_factory, simp)+
  have en: "enumerates ks (Headers ?m)" using assms(6) by simp
  have io: "content (cin (getPeer (xListenSide ?x))) = fst (MarshalV2 ks ?m) @ []" "cout (getPeer (xListenSide ?x)) = []"
    "content (cin (getPeer (xDialSide ?x))) = cout (getPeer (accepted_end ?x)) @ []"
    by (simp_all add: sample_exchange_def accepted_end_def Let_def)
  have run: "runHandlers (listenerHandlers sample_listener) hello = None" for hello by (simp add: sl runHandlers_def)
  note la = listener_answers [OF f(1) quiet_env_with(1) en assms(7) _ io(1) _ run, of "[10, 9, 8, 7, 2, 1, 0]" "Inr ''id''" "[]" "[1, 2]"]
  have acc: "accepted_end ?x = acceptQueued (hello_env_with [10, 9, 8, 7, 2, 1, 0]) (Inr ''id'') [] [1, 2]
      (HelloAcceptorF (hello_env_with [10, 9, 8, 7, 2, 1, 0]) (\<lambda>u. u)) sample_listener (xListenSide ?x)"
    by (simp add: accepted_end_def sample_exchange_def Let_def)
  show id: "cu_ConnectionId (accepted_end ?x) = ''id''"
    unfolding acc using la(2) assms(2,4) by (auto simp: listenerConnectionId_def Let_def GetBoolHeader_def GetStringHeader_def)
  have hs: "cu_Headers (accepted_end ?x) = h(GroupSecretHeader \<mapsto> [1, 2])"
    unfolding acc using la(3) assms(2,3) by (auto simp: listenerSecret_def GetBoolHeader_def hget_def)
  then show "hget (cu_Headers (accepted_end ?x)) GroupSecretHeader = [1, 2]" by (simp add: hget_def)
  let ?r = "ackResponse sample_listener ''id'' (?m\<lparr>Headers := h(GroupSecretHeader \<mapsto> [1, 2])\<rparr>) True []"
  have r: "answer_of ?x = ?r" unfolding answer_of_def id hs by (simp add: hello_of_def sample_exchange_def Let_def)
  have "Headers (putReplyFor ?r) = [ReplyForHeader \<mapsto> PutUint32 HelloSequence, ResultSuccessHeader \<mapsto> [1],
      ConnectionIdHeader \<mapsto> string_bytes ''id'', IdHeader \<mapsto> string_bytes ''l'', IsGroupedHeader \<mapsto> [1], TypeHeader \<mapsto> [99],
      GroupSecretHeader \<mapsto> [1, 2]]"
    using assms(1,2,5)
    by (intro ext) (simp add: ackResponse_def Let_def Headers_ReplyTo NewResult_def NewMessage_def PutStringHeader_def
        PutBoolHeader_def PutUint32Header_def putReplyFor_def copyHeaders_apply GetBoolHeader_def GetStringHeader_def
        sample_listener_def header_keys hget_def)
  then have ack: "enumerates [10, 9, 8, 7, 2, 1, 0] (Headers (putReplyFor ?r))" "frame_fits [10, 9, 8, 7, 2, 1, 0] ?r"
    by (auto simp: enumerates_def frame_fits_def header_keys Let_def)
  have fields: "xDialEnv ?x = hello_env_with ks" "xListenEnv ?x = hello_env_with [10, 9, 8, 7, 2, 1, 0]" "xDialer ?x = sample_dialer"
    "xListener ?x = sample_listener" "xHeaders ?x = h" "xFreshId ?x = ''id''" "xFreshSecret ?x = [1, 2]" "hello_of ?x = ?m"
    by (simp_all add: sample_exchange_def Let_def hello_of_def)
  have "fst (GetBoolHeader IsGroupedHeader h)" using assms(2) by (simp add: GetBoolHeader_def)
  then show "exchanged ?x"
    unfolding exchanged_def fields r quiet_env_with using f io ack en assms(6,7) run sl by auto
qed

lemma channel_on_some:
  assumes "secret_of u \<noteq> []"
  shows "\<exists>ch. channel_on no_close_error u ch"
proof -
  let ?cfg = "sample_config\<lparr>cfgUnderlay := Some u\<rparr>"
  let ?ch = "emit [EvGoApplyConstraints] (startMultiplex u (addUnderlay u (initialImpl ?cfg u)))"
  have "NewChannel no_close_error ?cfg = Inr (None, Some ?ch)"
    using assms by (simp add: NewChannel_def Let_def del: initialImpl_simps) (simp add: sample_config_def bind_channel_def initialImpl_def secret_of_def)
  moreover have "isMultiUnderlayCapable ?ch" "\<not> flagClosed ?ch"
    by (simp_all add: startMultiplex_def isMultiUnderlayCapable_def) (simp add: sample_config_def)
  ultimately have "channel_on no_close_error u ?ch"
    unfolding channel_on_def using registers_only_None
    by (intro conjI exI [of _ ?cfg] exI [of _ ?ch] exI [of _ "[]"]) (simp_all add: sample_config_def)
  then show ?thesis by blast
qed

theorem group_grows_over_the_wire_witness:
  "\<exists>dch lch x y. exchanged x \<and> exchanged y \<and> channel_on no_close_error (underlay_of 1 (dialed_end x)) dch \<and>
     channel_on no_close_error (underlay_of 2 (accepted_end x)) lch \<and>
     fst (AcceptUnderlay no_close_error (underlay_of 3 (dialed_end y)) dch) = None \<and>
     fst (AcceptUnderlay no_close_error (underlay_of 4 (accepted_end y)) lch) = None \<and>
     cu_ConnectionId (accepted_end y) = ''id''"
proof -
  let ?x = "sample_exchange sample_hello_headers [9, 7]" and ?h = "dialHeaders ''c'' ''id'' [1, 2] False"
  let ?y = "sample_exchange ?h [0, 7, 9, 10]"
  have b: "string_bytes ''c'' = [99]" by (simp add: string_bytes_def)
  have xh: "sample_hello_headers TypeHeader = Some [99]" "sample_hello_headers IsGroupedHeader = Some [1]"
    "sample_hello_headers GroupSecretHeader \<in> {None, Some [1, 2]}" "sample_hello_headers ConnectionIdHeader \<in> {None, Some (string_bytes ''id'')}"
    "sample_hello_headers ReflectedHeader = None"
    by (simp_all add: sample_hello_headers_def header_keys)
  have "enumerates [9, 7] sample_hello_headers" using sample_hello_ok(1) by (simp add: sample_dialer_def)
  note x = sample_exchanged [OF xh this sample_hello_ok(2)]
  have y: "exchanged ?y" "cu_ConnectionId (accepted_end ?y) = ''id''"
    by (rule sample_exchanged; auto simp: dialHeaders_def b enumerates_def hello_fits_def received_no_reply sample_dialer_def header_keys Let_def)+
  have xs: "cu_ConnectionId (dialed_end ?x) = ''id''" "hget (cu_Headers (dialed_end ?x)) GroupSecretHeader = [1, 2]"
    using exchanged_agree(4,5) [OF x(1)] x(2,3) by simp_all
  obtain dch where dch: "channel_on no_close_error (underlay_of 1 (dialed_end ?x)) dch"
    using channel_on_some [of "underlay_of 1 (dialed_end ?x)"] xs(2) by auto
  obtain lch where lch: "channel_on no_close_error (underlay_of 2 (accepted_end ?x)) lch"
    using channel_on_some [of "underlay_of 2 (accepted_end ?x)"] x(3) by auto
  have g: "channelId dch = ''id''" "groupSecret dch = [1, 2]" using channel_on_group [OF dch] xs by simp_all
  let ?d = "Dial (\<lambda>x. x) sample_env ''c'' (channelId dch) (groupSecret dch) False 0 sample_policy"
  have d: "?d = (fst ?d, snd ?d)" by simp
  have sent: "sentHeaders (fst ?d) = Some ?h"
    unfolding g by (simp add: Dial_def Let_def sample_env_def sample_policy_def NewBackoffDialPolicy_def
        NewBackoffDialPolicyWithConfig_def DefaultBackoffConfig_def groupConnectionId_def resetStaleFailures_def
        Since_def getBackoffDelay_def expDelay_def push_bit_of_1)
  have yh: "xHeaders ?y = ?h" by (simp add: sample_exchange_def Let_def)
  from group_grows_over_the_wire [OF x(1) dch lch d sent y(1) yh, of 3 4] dch lch x(1) y show ?thesis by blast
qed

end
