(* ===== verification/Existing_Conn.thy ===== *)
theory Existing_Conn
  imports Handshake Underlay_Streams
begin

text \<open>
  The handshake over a connection that already exists: \<^verbatim>\<open>existing_conn_dialer.go\<close> and
  \<^verbatim>\<open>existing_conn_listener.go\<close>. The connection belongs to the caller, so every operation
  returns it next to its result; the transport's answers are those of \<open>hello_env\<close>, one per try.
\<close>

section \<open>The dialer\<close>

record existingConnDialer =
  exd_token :: string
  exd_headers :: headers

text \<open>A failed write closes the connection; the other errors leave it as it is.\<close>

definition existing_sendHello :: "hello_env \<Rightarrow> existingConnDialer \<Rightarrow> existingConnImpl \<Rightarrow> err option \<times> existingConnImpl" where
  "existing_sendHello env d impl =
     (let request = SetSequence HelloSequence (NewHello (exd_token d) (exd_headers d))
      in case existing_Tx (writeAnswer env) (headerOrder env) request impl of
           (Some e, impl) \<Rightarrow> (Some e, impl\<lparr>peer := snd (conn_Close (closeAnswer env) (peer impl))\<rparr>)
         | (None, impl) \<Rightarrow>
             (case existing_Rx impl of
                (Inl e, impl) \<Rightarrow> (Some e, impl)
              | (Inr response, impl) \<Rightarrow>
                  if \<not> IsReplyingTo (sequence request) response \<or> ContentType response \<noteq> ContentTypeResultType
                  then (Some (ErrText ''channel synchronization error''), impl)
                  else if \<not> Success (UnmarshalResult response)
                  then (Some (ErrText (ResultMessage (UnmarshalResult response))), impl)
                  else (None, impl\<lparr>cu_connectionId := bytes_string (hget (Headers response) ConnectionIdHeader),
                                   cu_headers := Headers response\<rparr>)))"

text \<open>
  \<^verbatim>\<open>Create\<close>: the loop makes a new underlay on the same connection with every try;
  \<open>env n\<close> and \<open>now n\<close> belong to try \<open>n\<close>. Clearing the deadline at the end only logs
  its error.
\<close>

function existing_createLoop ::
    "(nat \<Rightarrow> hello_env) \<Rightarrow> (nat \<Rightarrow> int64) \<Rightarrow> int64 \<Rightarrow> existingConnDialer \<Rightarrow> nat \<Rightarrow> uint32 \<Rightarrow> conn \<Rightarrow> existingConnImpl res \<times> conn" where
  "existing_createLoop env now timeout d tryCount version p =
     (case (if 0 < sint timeout then setDeadline (env tryCount) else None) of
        Some e \<Rightarrow> (Inl e, p)
      | None \<Rightarrow>
          (case existing_sendHello (env tryCount) d (newExistingImpl p version (now tryCount)) of
             (None, impl) \<Rightarrow> (Inr (impl\<lparr>cu_id := Some (exd_token d)\<rparr>), peer impl)
           | (Some e, impl) \<Rightarrow>
               if tryCount > 0 then (Inl e, peer impl)
               else if fst (GetRetryVersion e) \<noteq> version
               then existing_createLoop env now timeout d (tryCount + 1) (fst (GetRetryVersion e)) (peer impl)
               else (Inl e, peer impl)))"
  by pat_completeness auto
termination
  by (relation "measure (\<lambda>(env, now, timeout, d, tryCount, version, p). 1 - tryCount)") auto

declare existing_createLoop.simps [simp del]

definition existing_dialer_Create ::
    "(nat \<Rightarrow> hello_env) \<Rightarrow> (nat \<Rightarrow> int64) \<Rightarrow> int64 \<Rightarrow> existingConnDialer \<Rightarrow> conn \<Rightarrow> existingConnImpl res \<times> conn" where
  "existing_dialer_Create env now timeout d p = existing_createLoop env now timeout d 0 2 p"

section \<open>The listener\<close>

record existingConnListener =
  exl_headers :: headers

definition existing_receiveHello :: "hello_env \<Rightarrow> existingConnImpl \<Rightarrow> (Message \<times> Hello) res \<times> existingConnImpl" where
  "existing_receiveHello env impl =
     (case existing_rxHello impl of
        (Inl e, impl) \<Rightarrow>
          (let impl = (if e = BadMagicNumberError
                       then impl\<lparr>peer := snd (conn_Write (writeAnswer env) WriteUnknownVersionResponse (peer impl))\<rparr> else impl)
           in (Inl (ErrText ''receive error''), snd (existing_Close (closeAnswer env) impl)))
      | (Inr request, impl) \<Rightarrow>
          if ContentType request \<noteq> ContentTypeHelloType
          then (Inl (ErrText ''unexpected content type''), snd (existing_Close (closeAnswer env) impl))
          else (Inr (request, UnmarshalHello request), impl))"

definition existing_ackResponse :: "existingConnListener \<Rightarrow> string \<Rightarrow> Message \<Rightarrow> bool \<Rightarrow> string \<Rightarrow> Message" where
  "existing_ackResponse l connectionId request success message =
     (let response = NewResult success message;
          h = copyHeaders (exl_headers l) (Headers response);
          h = h(ConnectionIdHeader \<mapsto> string_bytes connectionId)
      in ReplyTo request (response\<lparr>Headers := h, sequence := HelloSequence\<rparr>))"

definition existing_ackHello ::
    "hello_env \<Rightarrow> existingConnListener \<Rightarrow> Message \<Rightarrow> bool \<Rightarrow> string \<Rightarrow> existingConnImpl \<Rightarrow> err option \<times> existingConnImpl" where
  "existing_ackHello env l request success message impl =
     existing_Tx (writeAnswer env) (headerOrder env)
       (existing_ackResponse l (cu_connectionId impl) request success message) impl"

text \<open>\<open>nextId\<close> is the result of \<^verbatim>\<open>NextConnectionId\<close>.\<close>

definition existing_listener_Create ::
    "hello_env \<Rightarrow> string res \<Rightarrow> int64 \<Rightarrow> int64 \<Rightarrow> existingConnListener \<Rightarrow> conn \<Rightarrow> existingConnImpl res \<times> conn" where
  "existing_listener_Create env nextId timeout now l p =
     (case nextId of
        Inl e \<Rightarrow> (Inl (ErrWrap ''error getting connection id'' e), p)
      | Inr connectionId \<Rightarrow>
          (let impl = (newExistingImpl p 2 now)\<lparr>cu_connectionId := connectionId\<rparr>
           in case (if 0 < sint timeout then setDeadline env else None) of
                Some e \<Rightarrow> (Inl (ErrWrap ''could not set deadline on conn'' e), p)
              | None \<Rightarrow>
                  (case existing_receiveHello env impl of
                     (Inl e, impl) \<Rightarrow> (Inl (ErrWrap ''error receiving hello'' e), peer impl)
                   | (Inr (request, hello), impl) \<Rightarrow>
                       (let impl = impl\<lparr>cu_id := Some (IdToken hello), cu_headers := HelloHeaders hello\<rparr>
                        in case existing_ackHello env l request True [] impl of
                             (Some e, impl) \<Rightarrow> (Inl (ErrWrap ''unable to acknowledge hello'' e), peer impl)
                           | (None, impl) \<Rightarrow> (Inr impl, peer impl)))))"

section \<open>One try\<close>

text \<open>The only version a peer can be asked for is the one the first try used.\<close>

lemma retry_version_2: "fst (GetRetryVersion e) = 2"
  by (auto simp: GetRetryVersion_def getRetryVersionFor_def split: err.splits)

text \<open>
  The retry of the dialer is never taken: whatever the peer and the transport answer,
  \<^verbatim>\<open>Create\<close> is one handshake on the connection.
\<close>

theorem existing_dial_never_retries:
  "existing_dialer_Create env now timeout d p =
     (case (if 0 < sint timeout then setDeadline (env 0) else None) of
        Some e \<Rightarrow> (Inl e, p)
      | None \<Rightarrow>
          (case existing_sendHello (env 0) d (newExistingImpl p 2 (now 0)) of
             (None, impl) \<Rightarrow> (Inr (impl\<lparr>cu_id := Some (exd_token d)\<rparr>), peer impl)
           | (Some e, impl) \<Rightarrow> (Inl e, peer impl)))"
  unfolding existing_dialer_Create_def
  by (subst existing_createLoop.simps) (simp add: retry_version_2 cong: option.case_cong prod.case_cong)

section \<open>Agreement\<close>

definition existing_hello :: "existingConnDialer \<Rightarrow> Message" where
  "existing_hello d = SetSequence HelloSequence (NewHello (exd_token d) (exd_headers d))"

lemma existing_hello_simps [simp]:
  "ContentType (existing_hello d) = ContentTypeHelloType" "sequence (existing_hello d) = HelloSequence"
  "replyFor (existing_hello d) = None" "Body (existing_hello d) = string_bytes (exd_token d)"
  "Headers (existing_hello d) = exd_headers d"
  by (simp_all add: existing_hello_def SetSequence_def NewHello_def NewMessage_def copyHeaders_def Let_def)

lemma existing_ackResponse_simps [simp]:
  "ContentType (existing_ackResponse l c req ok msg) = ContentTypeResultType"
  "replyFor (existing_ackResponse l c req ok msg) = Some (sequence req)"
  by (simp_all add: existing_ackResponse_def Let_def NewResult_def NewMessage_def)

lemma existing_ackResponse_headers:
  "Headers (existing_ackResponse l c req ok msg) ConnectionIdHeader = Some (string_bytes c)"
  "ResultSuccessHeader \<notin> dom (exl_headers l) \<Longrightarrow>
     Headers (existing_ackResponse l c req ok msg) ResultSuccessHeader = Some [if ok then 1 else 0]"
  "exl_headers l k = Some v \<Longrightarrow> k \<notin> {ConnectionIdHeader, ReflectedHeader} \<Longrightarrow>
     Headers (existing_ackResponse l c req ok msg) k = Some v"
  by (auto simp: existing_ackResponse_def Let_def Headers_ReplyTo NewResult_def NewMessage_def PutBoolHeader_def
      copyHeaders_apply domIff header_keys split: option.splits)

lemma existing_rxHello_reads:
  assumes "open_v2 u" "enumerates ks (Headers m)" "hello_fits ks m" "replyFor m = None"
    and "content (cin (peer u)) = fst (MarshalV2 ks m) @ rest"
  shows "\<exists>p'. existing_rxHello u = (Inr m, u\<lparr>peer := p'\<rparr>) \<and> open_v2 (u\<lparr>peer := p'\<rparr>) \<and> content (cin p') = rest \<and> cout p' = cout (peer u)"
proof -
  have m: "putReplyFor m = m" "received m = m" using assms(4) by (simp_all add: received_no_reply)
  obtain r where r: "readHello (cin (peer u)) = (Inr m, r)" "content r = rest"
    using readHello_MarshalV2 [of ks m "cin (peer u)" rest] assms(2,3,5) m by (cases "readHello (cin (peer u))") auto
  then show ?thesis
    using assms(1) by (intro exI [of _ "(peer u)\<lparr>cin := r\<rparr>"]) (simp add: existing_rxHello_def conn_read_def open_v2_def)
qed

text \<open>The acknowledgement as it arrives.\<close>

lemma received_existing_ack:
  assumes "r = existing_ackResponse l c req ok msg"
  shows "IsReplyingTo (sequence req) (received r)" "ContentType (received r) = ContentTypeResultType"
    "k \<noteq> ReplyForHeader \<Longrightarrow> Headers (received r) k = Headers r k"
  by (simp_all add: assms IsReplyingTo_def ReplyFor_uncached received_def putReplyFor_def PutUint32Header_def PutUint32_def)

lemma existing_listener_accepts:
  assumes "\<not> cshut q" "quiet env" "enumerates ks (exd_headers d)" "hello_fits ks (existing_hello d)"
    and "content (cin q) = fst (MarshalV2 ks (existing_hello d)) @ rest"
  obtains y where "existing_listener_Create env (Inr cid) timeout now l q = (Inr y, peer y)" "open_v2 y"
    "cu_connectionId y = cid" "cu_id y = Some (exd_token d)" "cu_headers y = exd_headers d"
    "cout (peer y) = cout q @ fst (MarshalV2 (headerOrder env) (existing_ackResponse l cid (existing_hello d) True []))"
proof -
  let ?u = "(newExistingImpl q 2 now)\<lparr>cu_connectionId := cid\<rparr>" and ?m = "existing_hello d"
  let ?r = "existing_ackResponse l cid ?m True []"
  have u: "open_v2 ?u" "peer ?u = q" using fresh_open_v2(2) [OF assms(1)] by (simp_all add: open_v2_def newExistingImpl_def)
  obtain p where p: "existing_rxHello ?u = (Inr ?m, ?u\<lparr>peer := p\<rparr>)" "open_v2 (?u\<lparr>peer := p\<rparr>)" "cout p = cout q"
    using existing_rxHello_reads [OF u(1) _ assms(4), of rest] assms(3,5) u(2) by auto
  let ?v = "?u\<lparr>peer := p, cu_id := Some (exd_token d), cu_headers := exd_headers d\<rparr>"
  have v: "open_v2 ?v" using p(2) by (simp add: open_v2_def)
  define y where "y = snd (existing_Tx None (headerOrder env) ?r ?v)"
  have tx: "existing_Tx None (headerOrder env) ?r ?v = (None, y)" "open_v2 y" "cout (peer y) = cout q @ fst (MarshalV2 (headerOrder env) ?r)"
    using existing_stream.tx_ready [OF v, of "headerOrder env" ?r] p(3) by (simp_all add: y_def prod_eq_iff)
  have "existing_listener_Create env (Inr cid) timeout now l q = (Inr y, peer y)"
    using p(1) tx(1) assms(2)
    by (simp add: existing_listener_Create_def Let_def existing_receiveHello_def existing_ackHello_def UnmarshalHello_def quiet_def)
  moreover have "cu_connectionId y = cid" "cu_id y = Some (exd_token d)" "cu_headers y = exd_headers d"
    using v unfolding y_def by (simp_all add: existing_Tx_def open_v2_simps case_prod_beta newExistingImpl_def)
  ultimately show thesis using that tx by blast
qed

lemma existing_dialer_accepts:
  assumes "\<not> cshut p" "quiet (env 0)" "enumerates ks (Headers (putReplyFor r))" "frame_fits ks r"
    and "content (cin p) = fst (MarshalV2 ks r) @ rest"
    and "IsReplyingTo HelloSequence (received r)" "ContentType (received r) = ContentTypeResultType"
    and "Headers (received r) ResultSuccessHeader = Some [1]"
  obtains x where "existing_dialer_Create env now timeout d p = (Inr x, peer x)" "open_v2 x"
    "cu_connectionId x = bytes_string (hget (Headers (received r)) ConnectionIdHeader)" "cu_headers x = Headers (received r)"
    "cout (peer x) = cout p @ fst (MarshalV2 (headerOrder (env 0)) (existing_hello d))" "content (cin (peer x)) = rest"
proof -
  let ?u = "newExistingImpl p 2 (now 0)" and ?m = "existing_hello d"
  have u: "open_v2 ?u" "peer ?u = p" using fresh_open_v2(2) [OF assms(1)] by (simp_all add: newExistingImpl_def)
  define v where "v = snd (existing_Tx None (headerOrder (env 0)) ?m ?u)"
  have tx: "existing_Tx None (headerOrder (env 0)) ?m ?u = (None, v)" "open_v2 v"
      "cout (peer v) = cout p @ fst (MarshalV2 (headerOrder (env 0)) ?m)"
    using existing_stream.tx_ready [OF u(1), of "headerOrder (env 0)" ?m] u(2) by (simp_all add: v_def prod_eq_iff)
  have cin: "cin (peer v) = cin p" using u by (simp add: v_def existing_Tx_def open_v2_simps case_prod_beta)
  have dec: "decode_frame (content (cin p)) = Some (received r, rest)"
    using decode_frame_MarshalV2 [OF assms(3,4), of rest] assms(5) by simp
  define w where "w = snd (existing_Rx v)"
  have rx: "existing_Rx v = (Inr (received r), w)" "open_v2 w" "content (cin (peer w)) = rest" "cout (peer w) = cout (peer v)"
    using existing_stream.rx_ready [OF tx(2)] ReadV2_decode_frame(1,2) [OF dec] tx(2) cin
    by (simp_all add: w_def prod_eq_iff) (simp add: existing_Rx_def open_v2_simps case_prod_beta)
  let ?x = "w\<lparr>cu_connectionId := bytes_string (hget (Headers (received r)) ConnectionIdHeader), cu_headers := Headers (received r),
    cu_id := Some (exd_token d)\<rparr>"
  have "existing_dialer_Create env now timeout d p = (Inr ?x, peer ?x)"
    using tx(1) rx(1) assms(2,6-8)
    by (simp add: existing_dial_never_retries existing_sendHello_def quiet_def Let_def UnmarshalResult_def GetBoolHeader_def
        flip: existing_hello_def)
  then show thesis using that [of ?x] rx tx(3) by (simp add: open_v2_def)
qed


text \<open>A handshake whose two directions arrive in pieces; a byte of the next message follows the acknowledgement.\<close>

definition sample_exd :: existingConnDialer where
  "sample_exd = \<lparr>exd_token = ''d'', exd_headers = [TypeHeader \<mapsto> [99]]\<rparr>"

definition sample_exl :: existingConnListener where
  "sample_exl = \<lparr>exl_headers = [2000 \<mapsto> [5]]\<rparr>"

definition sample_exack :: Message where
  "sample_exack = existing_ackResponse sample_exl ''id'' (existing_hello sample_exd) True []"

definition sample_exq :: conn where
  "sample_exq = stream_of (fst (MarshalV2 [7] (existing_hello sample_exd)))"

definition sample_exp :: conn where
  "sample_exp = stream_of (fst (MarshalV2 [2000, 2, 1, 0] sample_exack) @ [0xff])"

lemma sample_exhello_ok:
  "enumerates [7] (exd_headers sample_exd)" "hello_fits [7] (existing_hello sample_exd)"
  by (auto simp: enumerates_def hello_fits_def received_no_reply sample_exd_def header_keys Let_def)

lemma sample_exack_ok:
  "enumerates [2000, 2, 1, 0] (Headers (putReplyFor sample_exack))" "frame_fits [2000, 2, 1, 0] sample_exack"
proof -
  have h: "Headers (putReplyFor sample_exack) = [ReplyForHeader \<mapsto> PutUint32 HelloSequence, ResultSuccessHeader \<mapsto> [1],
      ConnectionIdHeader \<mapsto> string_bytes ''id'', 2000 \<mapsto> [5]]"
    by (rule ext) (simp add: sample_exack_def existing_ackResponse_def Let_def Headers_ReplyTo NewResult_def NewMessage_def
        PutBoolHeader_def PutUint32Header_def putReplyFor_def copyHeaders_apply sample_exl_def sample_exd_def header_keys)
  have "Body sample_exack = []"
    by (simp add: sample_exack_def existing_ackResponse_def Let_def NewResult_def NewMessage_def)
  then show "enumerates [2000, 2, 1, 0] (Headers (putReplyFor sample_exack))" "frame_fits [2000, 2, 1, 0] sample_exack"
    by (auto simp: h enumerates_def frame_fits_def header_keys Let_def)
qed


end
