(* ===== verification/Multi_Listener.thy ===== *)
theory Multi_Listener
  imports Headers
begin

text \<open>
  \<^verbatim>\<open>multi_listener.go\<close>: the listener that routes grouped underlays to the channel of their
  group or creates it. \<^verbatim>\<open>AcceptUnderlay\<close> runs on a goroutine per connection; its code is
  modelled as a program over program counters, one step per critical section or call out of the
  listener, and any interleaving of such goroutines with closing channels and their close callbacks
  is a run. Pointers (registrations, notifiers) are indices into the heaps of the state.
\<close>

section \<open>The state\<close>

record registration =
  rch :: "nat option"
  rclosed :: bool

text \<open>
  The closure handed to the factory captures the connection id and the registration; \<open>rfor\<close>
  records the id.
\<close>

record registered = registration +
  rfor :: string

record MultiListener =
  channels :: "string \<rightharpoonup> nat"
  createNotifiers :: "string \<rightharpoonup> nat"
  admitter :: bool

definition NewMultiListenerWithConfig :: "bool \<Rightarrow> bool \<Rightarrow> bool \<Rightarrow> MultiListener res" where
  "NewMultiListenerWithConfig factory fallback admit =
     (if \<not> factory then Inl GoPanic
      else if \<not> fallback then Inl GoPanic
      else Inr \<lparr>channels = Map.empty, createNotifiers = Map.empty, admitter = admit\<rparr>)"

definition NewMultiListener :: "bool \<Rightarrow> bool \<Rightarrow> MultiListener res" where
  "NewMultiListener factory fallback = NewMultiListenerWithConfig factory fallback False"

text \<open>The underlay that arrives: its connection id and the headers of its hello.\<close>

record arrival =
  chId :: string
  uheaders :: headers

definition isGrouped :: "arrival \<Rightarrow> bool" where
  "isGrouped u = fst (GetBoolHeader IsGroupedHeader (uheaders u))"

definition isFirst :: "arrival \<Rightarrow> bool" where
  "isFirst u = fst (GetBoolHeader IsFirstGroupConnection (uheaders u))"

text \<open>
  Where a goroutine in \<^verbatim>\<open>AcceptUnderlay\<close> stands. The first argument of the later states is
  the reservation (\<^verbatim>\<open>createLockNotifier\<close>) it holds; \<open>AAck\<close> has either the reservation or
  the channel found.
\<close>

datatype accept_pc =
    AStart
  | AFallback
  | ALookup
  | AWait nat
  | AAdmit nat
  | ARefused nat
  | AReject
  | AAck "nat + nat"
  | AAckFailed nat
  | AAttach nat
  | ACreate nat
  | AFactory nat nat
  | AFactoryFailed nat
  | ARegister nat nat nat
  | ARelease nat
  | AClose
  | ADone
  | APanic

text \<open>
  A goroutine with its underlay: whether the hello was acknowledged, whether the underlay was
  handed on (to the fallback, to the group's channel or to the channel created with it), and
  whether the listener closed it.
\<close>

record accept_thread =
  underlay :: arrival
  pc :: accept_pc
  acked :: bool
  handed :: bool
  uclosed :: bool

text \<open>
  The state of a run: the listener, the heaps of registrations and of notifiers (true once
  closed), the channels that report \<^verbatim>\<open>IsClosed\<close>, the goroutines, and the close callbacks
  that have marked their registration and wait for the lock.
\<close>

record ml_state =
  listener :: MultiListener
  regs :: "registered list"
  notifiers :: "bool list"
  chanClosed :: "nat set"
  threads :: "accept_thread list"
  callbacks :: "(string \<times> nat) list"

section \<open>The critical sections\<close>

text \<open>What the loop at the head of \<^verbatim>\<open>AcceptUnderlay\<close> finds while it holds the lock.\<close>

datatype lookup = Found nat | WaitFor nat | NoGroup | Reserved nat | NilChannel

text \<open>The part of the section after the lookup in the channel map: the id is unregistered.\<close>

definition reserveGroup :: "arrival \<Rightarrow> ml_state \<Rightarrow> lookup \<times> ml_state" where
  "reserveGroup u s =
     (case createNotifiers (listener s) (chId u) of
        Some n \<Rightarrow> (WaitFor n, s)
      | None \<Rightarrow>
          if \<not> isFirst u then (NoGroup, s)
          else
            (let n = length (notifiers s)
             in (Reserved n, s\<lparr>notifiers := notifiers s @ [False],
                  listener := (listener s)\<lparr>createNotifiers := (createNotifiers (listener s))(chId u \<mapsto> n)\<rparr>\<rparr>)))"

definition evict :: "string \<Rightarrow> ml_state \<Rightarrow> ml_state" where
  "evict i s = s\<lparr>listener := (listener s)\<lparr>channels := (channels (listener s))(i := None)\<rparr>\<rparr>"

definition lookupGroup :: "arrival \<Rightarrow> ml_state \<Rightarrow> lookup \<times> ml_state" where
  "lookupGroup u s =
     (case channels (listener s) (chId u) of
        None \<Rightarrow> reserveGroup u s
      | Some r \<Rightarrow>
          if rclosed (regs s ! r) then reserveGroup u (evict (chId u) s)
          else (case rch (regs s ! r) of
                  None \<Rightarrow> (NilChannel, s)
                | Some ch \<Rightarrow>
                    if ch \<notin> chanClosed s then (Found ch, s)
                    else reserveGroup u (evict (chId u) s)))"

text \<open>Closing a closed channel panics.\<close>

definition releaseReservation :: "string \<Rightarrow> nat \<Rightarrow> ml_state \<Rightarrow> ml_state res" where
  "releaseReservation i notifier s =
     (let s = s\<lparr>listener := (listener s)\<lparr>createNotifiers := (createNotifiers (listener s))(i := None)\<rparr>\<rparr>
      in if notifiers s ! notifier then Inl GoPanic
         else Inr (s\<lparr>notifiers := (notifiers s)[notifier := True]\<rparr>))"

definition publish :: "string \<Rightarrow> nat \<Rightarrow> nat \<Rightarrow> ml_state \<Rightarrow> ml_state" where
  "publish i newReg ch s =
     (if rclosed (regs s ! newReg) \<or> ch \<in> chanClosed s then s
      else s\<lparr>listener := (listener s)\<lparr>channels := (channels (listener s))(i \<mapsto> newReg)\<rparr>\<rparr>)"

text \<open>\<^verbatim>\<open>closeRegistration\<close>: the mark it sets before it takes the lock, and the section under it.\<close>

definition markClosed :: "nat \<Rightarrow> ml_state \<Rightarrow> ml_state" where
  "markClosed reg s = s\<lparr>regs := (regs s)[reg := (regs s ! reg)\<lparr>rclosed := True\<rparr>]\<rparr>"

definition closeRegistration :: "string \<Rightarrow> nat \<Rightarrow> ml_state \<Rightarrow> ml_state" where
  "closeRegistration i reg s = (if channels (listener s) i = Some reg then evict i s else s)"

section \<open>AcceptUnderlay\<close>

text \<open>
  What the code called by one step answers: the error of \<^verbatim>\<open>ackHello\<close>, of the fallback and of
  the admitter, whether the one-second timer of the wait fires, and what the factory returns.
\<close>

record answers =
  ackErr :: "err option"
  fallbackErr :: "err option"
  admitErr :: "err option"
  timerFires :: bool
  factoryResult :: "nat option \<times> err option"

definition set_thread :: "nat \<Rightarrow> accept_thread \<Rightarrow> ml_state \<Rightarrow> ml_state" where
  "set_thread t th s = s\<lparr>threads := (threads s)[t := th]\<rparr>"

text \<open>The release of a reservation as a step of goroutine \<open>t\<close>.\<close>

definition release_then :: "nat \<Rightarrow> accept_thread \<Rightarrow> nat \<Rightarrow> accept_pc \<Rightarrow> ml_state \<Rightarrow> ml_state" where
  "release_then t th n next s =
     (case releaseReservation (chId (underlay th)) n s of
        Inl _ \<Rightarrow> set_thread t (th\<lparr>pc := APanic\<rparr>) s
      | Inr s \<Rightarrow> set_thread t (th\<lparr>pc := next\<rparr>) s)"

text \<open>
  One step of goroutine \<open>t\<close>; \<open>None\<close> when it is blocked or has returned. \<^verbatim>\<open>RejectHello\<close>
  closes the underlay, and the deferred release of a creating goroutine runs last.
\<close>

definition accept_step :: "answers \<Rightarrow> nat \<Rightarrow> ml_state \<Rightarrow> ml_state option" where
  "accept_step a t s =
     (let th = threads s ! t; u = underlay th; goto = (\<lambda>p. Some (set_thread t (th\<lparr>pc := p\<rparr>) s))
      in case pc th of
        AStart \<Rightarrow>
          if \<not> isGrouped u
          then (case ackErr a of
                  Some e \<Rightarrow> goto AClose
                | None \<Rightarrow> Some (set_thread t (th\<lparr>pc := AFallback, acked := True\<rparr>) s))
          else goto ALookup
      | AFallback \<Rightarrow>
          (case fallbackErr a of
             Some e \<Rightarrow> goto AClose
           | None \<Rightarrow> Some (set_thread t (th\<lparr>pc := ADone, handed := True\<rparr>) s))
      | ALookup \<Rightarrow>
          (case lookupGroup u s of
             (Found ch, s) \<Rightarrow> Some (set_thread t (th\<lparr>pc := AAck (Inr ch)\<rparr>) s)
           | (WaitFor n, s) \<Rightarrow> Some (set_thread t (th\<lparr>pc := AWait n\<rparr>) s)
           | (NoGroup, s) \<Rightarrow> Some (set_thread t (th\<lparr>pc := AClose\<rparr>) s)
           | (Reserved n, s) \<Rightarrow> Some (set_thread t (th\<lparr>pc := AAdmit n\<rparr>) s)
           | (NilChannel, s) \<Rightarrow> Some (set_thread t (th\<lparr>pc := APanic\<rparr>) s))
      | AWait n \<Rightarrow>
          if timerFires a then goto AClose
          else if notifiers s ! n then goto ALookup
          else None
      | AAdmit n \<Rightarrow>
          if admitter (listener s) \<and> admitErr a \<noteq> None then goto (ARefused n)
          else goto (AAck (Inl n))
      | ARefused n \<Rightarrow> Some (release_then t th n AReject s)
      | AReject \<Rightarrow> Some (set_thread t (th\<lparr>pc := ADone, uclosed := True\<rparr>) s)
      | AAck got \<Rightarrow>
          (case ackErr a of
             Some e \<Rightarrow> (case got of Inl n \<Rightarrow> goto (AAckFailed n) | Inr ch \<Rightarrow> goto AClose)
           | None \<Rightarrow>
               Some (set_thread t (th\<lparr>pc := (case got of Inl n \<Rightarrow> ACreate n | Inr ch \<Rightarrow> AAttach ch), acked := True\<rparr>) s))
      | AAckFailed n \<Rightarrow> Some (release_then t th n AClose s)
      | AAttach ch \<Rightarrow> Some (set_thread t (th\<lparr>pc := ADone, handed := True\<rparr>) s)
      | ACreate n \<Rightarrow>
          (let newReg = length (regs s)
           in Some (set_thread t (th\<lparr>pc := AFactory n newReg\<rparr>)
                (s\<lparr>regs := regs s @ [\<lparr>rch = None, rclosed = False, rfor = chId u\<rparr>]\<rparr>)))
      | AFactory n newReg \<Rightarrow>
          (case factoryResult a of
             (Some ch, None) \<Rightarrow>
               Some (set_thread t (th\<lparr>pc := ARegister n newReg ch, handed := True\<rparr>)
                 (s\<lparr>regs := (regs s)[newReg := (regs s ! newReg)\<lparr>rch := Some ch\<rparr>]\<rparr>))
           | _ \<Rightarrow> goto (AFactoryFailed n))
      | AFactoryFailed n \<Rightarrow> Some (set_thread t (th\<lparr>pc := ARelease n, uclosed := True\<rparr>) s)
      | ARegister n newReg ch \<Rightarrow> Some (set_thread t (th\<lparr>pc := ARelease n\<rparr>) (publish (chId u) newReg ch s))
      | ARelease n \<Rightarrow> Some (release_then t th n ADone s)
      | AClose \<Rightarrow> Some (set_thread t (th\<lparr>pc := ADone, uclosed := True\<rparr>) s)
      | ADone \<Rightarrow> None
      | APanic \<Rightarrow> None)"

section \<open>Runs\<close>

text \<open>
  A step of the whole: an underlay arrives, a goroutine moves, a channel closes, and the close
  callback of a registration whose factory has been called marks it and later takes the lock. The
  application may run a callback at any time and more than once.
\<close>

inductive ml_step :: "ml_state \<Rightarrow> ml_state \<Rightarrow> bool" where
  ml_arrive: "ml_step s (s\<lparr>threads := threads s @
    [\<lparr>underlay = u, pc = AStart, acked = False, handed = False, uclosed = False\<rparr>]\<rparr>)"
| ml_accept: "t < length (threads s) \<Longrightarrow> accept_step a t s = Some s' \<Longrightarrow> ml_step s s'"
| ml_chan_close: "ml_step s (s\<lparr>chanClosed := insert ch (chanClosed s)\<rparr>)"
| ml_mark: "r < length (regs s) \<Longrightarrow>
    ml_step s ((markClosed r s)\<lparr>callbacks := (rfor (regs s ! r), r) # callbacks s\<rparr>)"
| ml_callback: "(i, r) \<in> set (callbacks s) \<Longrightarrow>
    ml_step s ((closeRegistration i r s)\<lparr>callbacks := remove1 (i, r) (callbacks s)\<rparr>)"

definition ml_init :: "ml_state \<Rightarrow> bool" where
  "ml_init s \<longleftrightarrow> (\<exists>l admit. NewMultiListenerWithConfig True True admit = Inr l \<and>
     s = \<lparr>listener = l, regs = [], notifiers = [], chanClosed = {}, threads = [], callbacks = []\<rparr>)"


section \<open>The invariant\<close>

text \<open>The reservation a goroutine holds.\<close>

fun holds :: "accept_pc \<Rightarrow> nat option" where
  "holds (AAdmit n) = Some n"
| "holds (ARefused n) = Some n"
| "holds (AAck (Inl n)) = Some n"
| "holds (AAckFailed n) = Some n"
| "holds (ACreate n) = Some n"
| "holds (AFactory n r) = Some n"
| "holds (AFactoryFailed n) = Some n"
| "holds (ARegister n r ch) = Some n"
| "holds (ARelease n) = Some n"
| "holds _ = None"

definition is_release :: "accept_pc \<Rightarrow> bool" where
  "is_release p = (case p of ARelease n \<Rightarrow> True | _ \<Rightarrow> False)"

abbreviation (input) group_of :: "accept_thread \<Rightarrow> string" where
  "group_of th \<equiv> chId (underlay th)"

text \<open>
  What holds of a goroutine. Its reservation is the one in the notifier map, and nothing is
  registered under its id before it publishes; when it waits, the notifier is closed or is the
  current reservation of its group; its registration is its own; it has not panicked; and its
  underlay is acknowledged, handed on and closed as its program counter says.
\<close>

fun progress_ok :: "accept_pc \<Rightarrow> bool \<Rightarrow> bool \<Rightarrow> bool \<Rightarrow> bool" where
  "progress_ok AFallback ack h c \<longleftrightarrow> ack \<and> \<not> h \<and> \<not> c"
| "progress_ok (AAttach _) ack h c \<longleftrightarrow> ack \<and> \<not> h \<and> \<not> c"
| "progress_ok (ACreate _) ack h c \<longleftrightarrow> ack \<and> \<not> h \<and> \<not> c"
| "progress_ok (AFactory _ _) ack h c \<longleftrightarrow> ack \<and> \<not> h \<and> \<not> c"
| "progress_ok (AFactoryFailed _) ack h c \<longleftrightarrow> ack \<and> \<not> h \<and> \<not> c"
| "progress_ok (ARegister _ _ _) ack h c \<longleftrightarrow> ack \<and> h \<and> \<not> c"
| "progress_ok (ARelease _) ack h c \<longleftrightarrow> ack \<and> h \<noteq> c"
| "progress_ok AClose ack h c \<longleftrightarrow> \<not> h \<and> \<not> c"
| "progress_ok ADone ack h c \<longleftrightarrow> h \<noteq> c \<and> (h \<longrightarrow> ack)"
| "progress_ok APanic ack h c \<longleftrightarrow> False"
| "progress_ok _ ack h c \<longleftrightarrow> \<not> ack \<and> \<not> h \<and> \<not> c"

definition thread_inv :: "ml_state \<Rightarrow> accept_thread \<Rightarrow> bool" where
  "thread_inv s th \<longleftrightarrow>
     (\<forall>n. holds (pc th) = Some n \<longrightarrow> createNotifiers (listener s) (group_of th) = Some n \<and>
        (is_release (pc th) \<or> channels (listener s) (group_of th) = None)) \<and>
     (\<forall>n. pc th = AWait n \<longrightarrow> n < length (notifiers s) \<and>
        (notifiers s ! n \<or> createNotifiers (listener s) (group_of th) = Some n)) \<and>
     (\<forall>n r. pc th = AFactory n r \<longrightarrow> r < length (regs s) \<and> rfor (regs s ! r) = group_of th \<and> rch (regs s ! r) = None) \<and>
     (\<forall>n r ch. pc th = ARegister n r ch \<longrightarrow>
        r < length (regs s) \<and> rfor (regs s ! r) = group_of th \<and> rch (regs s ! r) = Some ch) \<and>
     progress_ok (pc th) (acked th) (handed th) (uclosed th)"

definition one_holder :: "accept_thread list \<Rightarrow> bool" where
  "one_holder ths \<longleftrightarrow> (\<forall>i < length ths. \<forall>j < length ths. holds (pc (ths ! i)) \<noteq> None \<longrightarrow>
     holds (pc (ths ! j)) \<noteq> None \<longrightarrow> group_of (ths ! i) = group_of (ths ! j) \<longrightarrow> i = j)"

definition wf_notifiers :: "ml_state \<Rightarrow> bool" where
  "wf_notifiers s \<longleftrightarrow>
     (\<forall>g n. createNotifiers (listener s) g = Some n \<longrightarrow> n < length (notifiers s) \<and> \<not> notifiers s ! n \<and>
        (\<exists>th \<in> set (threads s). holds (pc th) = Some n \<and> group_of th = g)) \<and>
     (\<forall>g g' n. createNotifiers (listener s) g = Some n \<longrightarrow> createNotifiers (listener s) g' = Some n \<longrightarrow> g = g')"

text \<open>
  A registration in the map has its channel, belongs to the id, and is marked closed only while its
  close callback is on its way to remove it. A registration is alive when its channel is open and
  its callback has not run; an alive one is in the map or about to be published by its creator.
\<close>

definition alive :: "ml_state \<Rightarrow> nat \<Rightarrow> bool" where
  "alive s r \<longleftrightarrow> r < length (regs s) \<and> \<not> rclosed (regs s ! r) \<and>
     (case rch (regs s ! r) of None \<Rightarrow> False | Some ch \<Rightarrow> ch \<notin> chanClosed s)"

definition wf_regs :: "ml_state \<Rightarrow> bool" where
  "wf_regs s \<longleftrightarrow>
     (\<forall>g r. channels (listener s) g = Some r \<longrightarrow> r < length (regs s) \<and> rfor (regs s ! r) = g \<and>
        rch (regs s ! r) \<noteq> None \<and> (rclosed (regs s ! r) \<longrightarrow> (g, r) \<in> set (callbacks s))) \<and>
     (\<forall>(g, r) \<in> set (callbacks s). r < length (regs s) \<and> rclosed (regs s ! r))"

definition wf_alive :: "ml_state \<Rightarrow> bool" where
  "wf_alive s \<longleftrightarrow> (\<forall>r. alive s r \<longrightarrow> channels (listener s) (rfor (regs s ! r)) = Some r \<or>
     (\<exists>th \<in> set (threads s). \<exists>n ch. pc th = ARegister n r ch))"

definition ml_inv :: "ml_state \<Rightarrow> bool" where
  "ml_inv s \<longleftrightarrow> (\<forall>th \<in> set (threads s). thread_inv s th) \<and> one_holder (threads s) \<and>
     wf_notifiers s \<and> wf_regs s \<and> wf_alive s"

lemma set_thread_simps [simp]:
  "listener (set_thread t th s) = listener s" "regs (set_thread t th s) = regs s"
  "notifiers (set_thread t th s) = notifiers s" "chanClosed (set_thread t th s) = chanClosed s"
  "callbacks (set_thread t th s) = callbacks s" "threads (set_thread t th s) = (threads s)[t := th]"
  "thread_inv (set_thread t th s) = thread_inv s" "wf_regs (set_thread t th s) = wf_regs s"
  "alive (set_thread t th s) = alive s"
  by (simp_all add: set_thread_def thread_inv_def wf_regs_def alive_def fun_eq_iff split: option.splits)

lemma in_update_iff:
  "t < length xs \<Longrightarrow> (\<exists>x \<in> set (xs[t := y]). P x) \<longleftrightarrow> P y \<or> (\<exists>i < length xs. i \<noteq> t \<and> P (xs ! i))"
  by (auto simp: Bex_def in_set_conv_nth nth_list_update split: if_splits)

lemma all_update_iff:
  "t < length xs \<Longrightarrow> (\<forall>x \<in> set (xs[t := y]). P x) \<longleftrightarrow> P y \<and> (\<forall>i < length xs. i \<noteq> t \<longrightarrow> P (xs ! i))"
  using in_update_iff [of t xs y "\<lambda>x. \<not> P x"] by blast

text \<open>
  Moving one goroutine. \<open>s'\<close> is the state after the shared part of the step, with the
  goroutines of \<open>s\<close>.
\<close>

lemma one_holder_update:
  assumes "one_holder ths" "t < length ths" "group_of th' = group_of (ths ! t)"
    and "holds (pc th') = None \<or> holds (pc (ths ! t)) \<noteq> None \<or>
      (\<forall>i < length ths. i \<noteq> t \<longrightarrow> group_of (ths ! i) = group_of (ths ! t) \<longrightarrow> holds (pc (ths ! i)) = None)"
  shows "one_holder (ths[t := th'])"
  using assms unfolding one_holder_def by (auto simp: nth_list_update)

lemma ml_inv_move:
  assumes "t < length (threads s)" "threads s' = threads s" "group_of th' = group_of (threads s ! t)"
    and "\<And>i. i < length (threads s) \<Longrightarrow> i \<noteq> t \<Longrightarrow> thread_inv s' (threads s ! i)" "thread_inv s' th'"
    and "one_holder ((threads s)[t := th'])" "wf_notifiers (set_thread t th' s')" "wf_regs s'" "wf_alive (set_thread t th' s')"
  shows "ml_inv (set_thread t th' s')"
  using assms by (simp add: ml_inv_def all_update_iff)

text \<open>A step of one goroutine that keeps the shared state and what the goroutine holds.\<close>

lemma ml_inv_local:
  assumes "ml_inv s" "t < length (threads s)" "underlay th' = underlay (threads s ! t)"
    and "holds (pc th') = holds (pc (threads s ! t))" "thread_inv s th'"
    and "\<And>n r ch. pc (threads s ! t) \<noteq> ARegister n r ch"
  shows "ml_inv (set_thread t th' s)"
proof (rule ml_inv_move)
  have inv: "\<forall>th \<in> set (threads s). thread_inv s th" "one_holder (threads s)" "wf_notifiers s" "wf_regs s" "wf_alive s"
    using assms(1) by (simp_all add: ml_inv_def)
  show "thread_inv s (threads s ! i)" if "i < length (threads s)" "i \<noteq> t" for i using inv(1) that by simp
  show "one_holder ((threads s)[t := th'])"
    by (rule one_holder_update) (use inv(2) assms(2-4) in auto)
  have ex: "\<exists>th \<in> set ((threads s)[t := th']). holds (pc th) = Some n \<and> group_of th = g"
    if "\<exists>th \<in> set (threads s). holds (pc th) = Some n \<and> group_of th = g" for n g
    using that assms(2-4) unfolding in_update_iff [OF assms(2)] by (metis in_set_conv_nth)
  show "wf_notifiers (set_thread t th' s)" using inv(3) ex by (simp add: wf_notifiers_def)
  have "\<exists>th \<in> set ((threads s)[t := th']). \<exists>n ch. pc th = ARegister n r ch"
    if "\<exists>th \<in> set (threads s). \<exists>n ch. pc th = ARegister n r ch" for r
    using that assms(2,6) unfolding in_update_iff [OF assms(2)] by (metis in_set_conv_nth)
  then show "wf_alive (set_thread t th' s)" using inv(5) unfolding wf_alive_def set_thread_simps by blast
qed (use assms in \<open>simp_all add: ml_inv_def\<close>)

lemma others_kept:
  assumes "t < length xs" "\<exists>x \<in> set xs. P x" "\<not> P (xs ! t)"
  shows "\<exists>x \<in> set (xs[t := y]). P x"
proof -
  obtain i where i: "i < length xs" "P (xs ! i)" using assms(2) by (auto simp: in_set_conv_nth)
  then have "i \<noteq> t" using assms(3) by auto
  then show ?thesis using i unfolding in_update_iff [OF assms(1)] by blast
qed

lemma wf_alive_move:
  assumes "wf_alive s" "t < length (threads s)" "\<And>n r ch. pc (threads s ! t) \<noteq> ARegister n r ch"
    and "channels (listener s') = channels (listener s)" "regs s' = regs s" "chanClosed s' = chanClosed s" "threads s' = threads s"
  shows "wf_alive (set_thread t th s')"
proof -
  have al: "alive s' = alive s" unfolding fun_eq_iff alive_def assms(5,6) by simp
  have "\<exists>th \<in> set ((threads s)[t := th]). \<exists>n ch. pc th = ARegister n r ch"
    if "\<exists>th \<in> set (threads s). \<exists>n ch. pc th = ARegister n r ch" for r
    by (rule others_kept [OF assms(2) that]) (use assms(3) in simp)
  then show ?thesis
    using assms(1) unfolding wf_alive_def set_thread_simps assms(4,5,7) al by blast
qed

lemma ml_inv_parts:
  assumes "ml_inv s"
  shows "th \<in> set (threads s) \<Longrightarrow> thread_inv s th" "t < length (threads s) \<Longrightarrow> thread_inv s (threads s ! t)"
    "one_holder (threads s)" "wf_notifiers s" "wf_regs s" "wf_alive s"
  using assms by (simp_all add: ml_inv_def)

text \<open>Removing a registration that is not alive.\<close>

lemma evict_simps [simp]:
  "channels (listener (evict g s)) = (channels (listener s))(g := None)"
  "createNotifiers (listener (evict g s)) = createNotifiers (listener s)"
  "regs (evict g s) = regs s" "notifiers (evict g s) = notifiers s" "chanClosed (evict g s) = chanClosed s"
  "threads (evict g s) = threads s" "callbacks (evict g s) = callbacks s" "alive (evict g s) = alive s"
  by (simp_all add: evict_def alive_def fun_eq_iff split: option.splits)

lemma ml_inv_evict:
  assumes "ml_inv s" "channels (listener s) g = Some r" "\<not> alive s r"
  shows "ml_inv (evict g s)"
proof -
  note inv = ml_inv_parts [OF assms(1)]
  have "thread_inv (evict g s) th" if "thread_inv s th" for th
    using that unfolding thread_inv_def by auto
  moreover have "wf_notifiers (evict g s)" using inv(4) unfolding wf_notifiers_def by simp
  moreover have "wf_regs (evict g s)" using inv(5) unfolding wf_regs_def by auto
  moreover have "wf_alive (evict g s)" using inv(6) assms(2,3) unfolding wf_alive_def by auto
  ultimately show ?thesis using inv(1,3) by (simp add: ml_inv_def)
qed

text \<open>Taking the reservation of an id that has neither a channel nor a reservation.\<close>

lemma no_holder:
  assumes "ml_inv s" "createNotifiers (listener s) g = None" "i < length (threads s)" "group_of (threads s ! i) = g"
  shows "holds (pc (threads s ! i)) = None"
  using ml_inv_parts(2) [OF assms(1,3)] assms(2,4) unfolding thread_inv_def by (cases "holds (pc (threads s ! i))") auto

lemma ml_inv_reserve:
  assumes "ml_inv s" "t < length (threads s)" "pc (threads s ! t) = ALookup"
    and "channels (listener s) (group_of (threads s ! t)) = None" "createNotifiers (listener s) (group_of (threads s ! t)) = None"
  shows "ml_inv (set_thread t ((threads s ! t)\<lparr>pc := AAdmit (length (notifiers s))\<rparr>)
    (s\<lparr>notifiers := notifiers s @ [False], listener := (listener s)\<lparr>createNotifiers :=
       (createNotifiers (listener s))(group_of (threads s ! t) \<mapsto> length (notifiers s))\<rparr>\<rparr>))"
    (is "ml_inv (set_thread t ?th ?s)")
proof (rule ml_inv_move)
  let ?n = "length (notifiers s)" and ?g = "group_of (threads s ! t)"
  note inv = ml_inv_parts [OF assms(1)]
  have none: "holds (pc (threads s ! i)) = None" if "i < length (threads s)" "group_of (threads s ! i) = ?g" for i
    using no_holder [OF assms(1,5)] that by blast
  show "thread_inv ?s (threads s ! i)" if "i < length (threads s)" "i \<noteq> t" for i
    using inv(2) [OF that(1)] none [OF that(1)] assms(5) unfolding thread_inv_def by (auto simp: nth_append)
  show "thread_inv ?s ?th"
    using inv(2) [OF assms(2)] assms(3,4) unfolding thread_inv_def by simp
  show "one_holder ((threads s)[t := ?th])"
    by (rule one_holder_update) (use inv(3) assms(2) none in auto)
  have ex: "\<exists>th \<in> set ((threads s)[t := ?th]). holds (pc th) = Some n \<and> group_of th = g"
    if "createNotifiers (listener s) g = Some n" for g n
    by (rule others_kept [OF assms(2)]) (use inv(4) that assms(3) in \<open>auto simp: wf_notifiers_def\<close>)
  have "createNotifiers (listener s) g \<noteq> Some ?n" for g using inv(4) unfolding wf_notifiers_def by blast
  moreover have "\<exists>th \<in> set ((threads s)[t := ?th]). holds (pc th) = Some ?n \<and> group_of th = ?g"
    unfolding in_update_iff [OF assms(2)] by simp
  ultimately show "wf_notifiers (set_thread t ?th ?s)"
    using inv(4) ex unfolding wf_notifiers_def by (auto simp: nth_append intro: less_SucI)
  show "wf_regs ?s" using inv(5) unfolding wf_regs_def by simp
  show "wf_alive (set_thread t ?th ?s)"
    by (rule wf_alive_move [OF inv(6) assms(2)]) (simp_all add: assms(3))
qed (use assms in auto)

lemma ml_inv_release:
  assumes "ml_inv s" "t < length (threads s)" "holds (pc (threads s ! t)) = Some n"
    and "\<And>m r ch. pc (threads s ! t) \<noteq> ARegister m r ch" "holds p = None" "\<And>m. p \<noteq> AWait m"
    and "progress_ok p (acked (threads s ! t)) (handed (threads s ! t)) (uclosed (threads s ! t))"
    and "\<And>m r ch. p \<noteq> ARegister m r ch" "\<And>m r. p \<noteq> AFactory m r"
  shows "ml_inv (release_then t (threads s ! t) n p s)"
proof -
  let ?th = "threads s ! t" and ?g = "group_of (threads s ! t)"
  let ?s = "s\<lparr>listener := (listener s)\<lparr>createNotifiers := (createNotifiers (listener s))(?g := None)\<rparr>,
    notifiers := (notifiers s)[n := True]\<rparr>"
  note inv = ml_inv_parts [OF assms(1)]
  have n: "createNotifiers (listener s) ?g = Some n"
    using inv(2) [OF assms(2)] assms(3) unfolding thread_inv_def by simp
  then have open': "n < length (notifiers s)" "\<not> notifiers s ! n" using inv(4) unfolding wf_notifiers_def by auto
  have other: "holds (pc (threads s ! i)) = None" if "i < length (threads s)" "i \<noteq> t" "group_of (threads s ! i) = ?g" for i
    using inv(3) [unfolded one_holder_def, rule_format, of i t] assms(2,3) that by (cases "holds (pc (threads s ! i))") auto
  have inj: "g = ?g" if "createNotifiers (listener s) g = Some n" for g
    using inv(4) n that unfolding wf_notifiers_def by blast
  have eq: "release_then t ?th n p s = set_thread t (?th\<lparr>pc := p\<rparr>) ?s"
    using open' by (simp add: release_then_def releaseReservation_def Let_def)
  show ?thesis unfolding eq
  proof (rule ml_inv_move)
    show "thread_inv ?s (threads s ! i)" if "i < length (threads s)" "i \<noteq> t" for i
    proof (cases "group_of (threads s ! i) = ?g")
      case True
      then show ?thesis using inv(2) [OF that(1)] other [OF that True] n open'(1) unfolding thread_inv_def
        by (auto simp: nth_list_update)
    next
      case False
      then show ?thesis using inv(2) [OF that(1)] open'(1) unfolding thread_inv_def by (auto simp: nth_list_update)
    qed
    show "thread_inv ?s (?th\<lparr>pc := p\<rparr>)"
      using assms(5-9) unfolding thread_inv_def by simp
    show "one_holder ((threads s)[t := ?th\<lparr>pc := p\<rparr>])"
      by (rule one_holder_update) (use inv(3) assms(2,5) in auto)
    have ex: "\<exists>th \<in> set ((threads s)[t := ?th\<lparr>pc := p\<rparr>]). holds (pc th) = Some m \<and> group_of th = g"
      if "createNotifiers (listener s) g = Some m" "g \<noteq> ?g" for g m
      by (rule others_kept [OF assms(2)]) (use inv(4) that in \<open>auto simp: wf_notifiers_def\<close>)
    have "m < length (notifiers s) \<and> \<not> (notifiers s)[n := True] ! m"
      if "createNotifiers (listener s) g = Some m" "g \<noteq> ?g" for g m
      using inv(4) that inj [of g] unfolding wf_notifiers_def by (cases "m = n") auto
    then show "wf_notifiers (set_thread t (?th\<lparr>pc := p\<rparr>) ?s)"
      using ex inv(4) unfolding wf_notifiers_def set_thread_simps by simp
    show "wf_regs ?s" using inv(5) unfolding wf_regs_def by simp
    show "wf_alive (set_thread t (?th\<lparr>pc := p\<rparr>) ?s)"
      by (rule wf_alive_move [OF inv(6) assms(2)]) (simp_all add: assms(4))
  qed (use assms in auto)
qed

lemma wf_notifiers_holder:
  assumes "wf_notifiers s" "createNotifiers (listener s) g = Some n"
  obtains i where "i < length (threads s)" "holds (pc (threads s ! i)) = Some n" "group_of (threads s ! i) = g"
proof -
  obtain th where "th \<in> set (threads s)" "holds (pc th) = Some n" "group_of th = g"
    using assms unfolding wf_notifiers_def by blast
  then show thesis using that by (auto simp: in_set_conv_nth)
qed

text \<open>The three steps of a creation: the new registration, the factory's channel, the publication.\<close>

lemma ml_inv_new_registration:
  assumes "ml_inv s" "t < length (threads s)" "pc (threads s ! t) = ACreate n"
  shows "ml_inv (set_thread t ((threads s ! t)\<lparr>pc := AFactory n (length (regs s))\<rparr>)
    (s\<lparr>regs := regs s @ [\<lparr>rch = None, rclosed = False, rfor = group_of (threads s ! t)\<rparr>]\<rparr>))"
    (is "ml_inv (set_thread t ?th ?s)")
proof -
  note inv = ml_inv_parts [OF assms(1)]
  have keep: "thread_inv ?s th" if "thread_inv s th" for th using that unfolding thread_inv_def by (auto simp: nth_append)
  have al: "alive ?s r = alive s r" for r by (simp add: alive_def nth_append less_Suc_eq split: option.splits)
  have regs: "wf_regs ?s" using inv(5) unfolding wf_regs_def by (auto simp: nth_append intro: less_SucI)
  have alive: "wf_alive ?s"
    using inv(6) unfolding wf_alive_def al by (auto simp: alive_def nth_append)
  have "ml_inv ?s"
    using inv(1,3,4) keep regs alive by (simp add: ml_inv_def wf_notifiers_def)
  then show ?thesis
    by (rule ml_inv_local) (use assms inv(2) [OF assms(2)] in \<open>auto simp: thread_inv_def is_release_def\<close>)
qed

lemma ml_inv_factory:
  assumes "ml_inv s" "t < length (threads s)" "pc (threads s ! t) = AFactory n r"
  shows "ml_inv (set_thread t ((threads s ! t)\<lparr>pc := ARegister n r ch, handed := True\<rparr>)
    (s\<lparr>regs := (regs s)[r := (regs s ! r)\<lparr>rch := Some ch\<rparr>]\<rparr>))"
    (is "ml_inv (set_thread t ?th ?s)")
proof (rule ml_inv_move)
  note inv = ml_inv_parts [OF assms(1)]
  have r: "r < length (regs s)" "rfor (regs s ! r) = group_of (threads s ! t)" "rch (regs s ! r) = None"
    "createNotifiers (listener s) (group_of (threads s ! t)) = Some n"
    using inv(2) [OF assms(2)] assms(3) unfolding thread_inv_def by auto
  have not: "\<forall>m c. pc (threads s ! i) \<noteq> AFactory m r \<and> pc (threads s ! i) \<noteq> ARegister m r c" if "i < length (threads s)" "i \<noteq> t" for i
  proof (rule ccontr)
    assume "\<not> ?thesis"
    then have "holds (pc (threads s ! i)) \<noteq> None" "group_of (threads s ! i) = group_of (threads s ! t)"
      using inv(2) [OF that(1)] r(2) unfolding thread_inv_def by auto
    then show False using inv(3) [unfolded one_holder_def, rule_format, of i t] that assms(2,3) by auto
  qed
  show "thread_inv ?s (threads s ! i)" if "i < length (threads s)" "i \<noteq> t" for i
    using inv(2) [OF that(1)] not [OF that] unfolding thread_inv_def by (auto simp: nth_list_update)
  show "thread_inv ?s ?th"
    using inv(2) [OF assms(2)] assms(3) r unfolding thread_inv_def by (simp add: is_release_def)
  show "one_holder ((threads s)[t := ?th])"
    by (rule one_holder_update) (use inv(3) assms(2,3) in auto)
  have "\<exists>th \<in> set ((threads s)[t := ?th]). holds (pc th) = Some m \<and> group_of th = g"
    if gm: "createNotifiers (listener s) g = Some m" for g m
  proof -
    obtain i where i: "i < length (threads s)" "holds (pc (threads s ! i)) = Some m" "group_of (threads s ! i) = g"
      using wf_notifiers_holder [OF inv(4) gm] by blast
    show ?thesis using i assms(3) unfolding in_update_iff [OF assms(2)] by (cases "i = t") auto
  qed
  then show "wf_notifiers (set_thread t ?th ?s)" using inv(4) unfolding wf_notifiers_def set_thread_simps by simp
  have "channels (listener s) g \<noteq> Some r" for g using inv(5) r(3) unfolding wf_regs_def by blast
  moreover have "rfor (regs ?s ! q) = rfor (regs s ! q)" "rclosed (regs ?s ! q) = rclosed (regs s ! q)"
    "rch (regs ?s ! q) = (if q = r then Some ch else rch (regs s ! q))" for q using r(1) by (cases "q = r"; simp)+
  ultimately show "wf_regs ?s" using inv(5) unfolding wf_regs_def by simp
  have al: "alive ?s q \<Longrightarrow> q \<noteq> r \<Longrightarrow> alive s q" for q by (simp add: alive_def split: option.splits)
  have "\<exists>th \<in> set ((threads s)[t := ?th]). \<exists>m c. pc th = ARegister m q c"
    if "\<exists>th \<in> set (threads s). \<exists>m c. pc th = ARegister m q c" for q
    by (rule others_kept [OF assms(2) that]) (use assms(3) in simp)
  moreover have "\<exists>th \<in> set ((threads s)[t := ?th]). \<exists>m c. pc th = ARegister m r c"
    unfolding in_update_iff [OF assms(2)] by simp
  moreover have same: "rfor (regs ?s ! q) = rfor (regs s ! q)" "listener ?s = listener s" "threads ?s = threads s" for q
    using r(1) by (cases "q = r") simp_all
  ultimately show "wf_alive (set_thread t ?th ?s)"
    using inv(6) al unfolding wf_alive_def set_thread_simps same by blast
qed (use assms in auto)

lemma ml_inv_publish:
  assumes "ml_inv s" "t < length (threads s)" "pc (threads s ! t) = ARegister n r ch"
  shows "ml_inv (set_thread t ((threads s ! t)\<lparr>pc := ARelease n\<rparr>) (publish (group_of (threads s ! t)) r ch s))"
    (is "ml_inv (set_thread t ?th ?s)")
proof (rule ml_inv_move)
  let ?g = "group_of (threads s ! t)"
  note inv = ml_inv_parts [OF assms(1)]
  have r: "r < length (regs s)" "rfor (regs s ! r) = ?g" "rch (regs s ! r) = Some ch" "channels (listener s) ?g = None"
    "createNotifiers (listener s) ?g = Some n"
    using inv(2) [OF assms(2)] assms(3) unfolding thread_inv_def by (auto simp: is_release_def)
  have same: "regs ?s = regs s" "notifiers ?s = notifiers s" "createNotifiers (listener ?s) = createNotifiers (listener s)"
    "chanClosed ?s = chanClosed s" "threads ?s = threads s" "callbacks ?s = callbacks s"
    "channels (listener ?s) = (if alive s r then (channels (listener s))(?g \<mapsto> r) else channels (listener s))"
    using r(1,3) by (simp_all add: publish_def alive_def)
  have al: "alive ?s = alive s" unfolding fun_eq_iff alive_def same by simp
  have other: "holds (pc (threads s ! i)) = None \<or> group_of (threads s ! i) \<noteq> ?g" if "i < length (threads s)" "i \<noteq> t" for i
    using inv(3) [unfolded one_holder_def, rule_format, of i t] assms(2,3) that by (cases "holds (pc (threads s ! i))") auto
  show "thread_inv ?s (threads s ! i)" if "i < length (threads s)" "i \<noteq> t" for i
    using inv(2) [OF that(1)] other [OF that] unfolding thread_inv_def same by auto
  show "thread_inv ?s ?th"
    using inv(2) [OF assms(2)] assms(3) r unfolding thread_inv_def same by (simp add: is_release_def)
  show "one_holder ((threads s)[t := ?th])"
    by (rule one_holder_update) (use inv(3) assms(2,3) in auto)
  have "\<exists>th \<in> set ((threads s)[t := ?th]). holds (pc th) = Some m \<and> group_of th = g"
    if gm: "createNotifiers (listener s) g = Some m" for g m
  proof -
    obtain i where i: "i < length (threads s)" "holds (pc (threads s ! i)) = Some m" "group_of (threads s ! i) = g"
      using wf_notifiers_holder [OF inv(4) gm] by blast
    show ?thesis using i assms(3) unfolding in_update_iff [OF assms(2)] by (cases "i = t") auto
  qed
  then show "wf_notifiers (set_thread t ?th ?s)" using inv(4) unfolding wf_notifiers_def set_thread_simps same by simp
  show "wf_regs ?s" using inv(5) r unfolding wf_regs_def same by (auto simp: alive_def)
  have "\<exists>th \<in> set ((threads s)[t := ?th]). \<exists>m c. pc th = ARegister m q c"
    if "\<exists>th \<in> set (threads s). \<exists>m c. pc th = ARegister m q c" "q \<noteq> r" for q
    by (rule others_kept [OF assms(2) that(1)]) (use assms(3) that(2) in simp)
  moreover have "channels (listener s) (rfor (regs s ! q)) = Some q \<longrightarrow> channels (listener ?s) (rfor (regs s ! q)) = Some q" for q
    using r(4) unfolding same by auto
  moreover have "alive s r \<longrightarrow> channels (listener ?s) (rfor (regs s ! r)) = Some r" using r(2) unfolding same by simp
  ultimately show "wf_alive (set_thread t ?th ?s)"
    using inv(6) unfolding wf_alive_def set_thread_simps al same(1,5) by blast
qed (use assms in \<open>auto simp: publish_def\<close>)

text \<open>One turn of the loop at the head of the handler.\<close>

lemma lookupGroup_cases:
  assumes "ml_inv s"
  obtains (found) r ch where "channels (listener s) (chId u) = Some r" "alive s r" "rch (regs s ! r) = Some ch"
      "lookupGroup u s = (Found ch, s)"
  | (reserve) s' where "lookupGroup u s = reserveGroup u s'" "ml_inv s'" "channels (listener s') (chId u) = None"
      "threads s' = threads s" "createNotifiers (listener s') = createNotifiers (listener s)"
proof (cases "channels (listener s) (chId u)")
  case None
  then show ?thesis using reserve [of s] assms by (simp add: lookupGroup_def)
next
  case (Some r)
  then have r: "r < length (regs s)" "rch (regs s ! r) \<noteq> None"
    using ml_inv_parts(5) [OF assms] by (auto simp: wf_regs_def)
  show ?thesis
  proof (cases "alive s r")
    case True
    then show ?thesis using found Some by (auto simp: lookupGroup_def alive_def split: option.splits)
  next
    case False
    then have "lookupGroup u s = reserveGroup u (evict (chId u) s)"
      using Some r by (auto simp: lookupGroup_def alive_def)
    then show ?thesis using reserve [of "evict (chId u) s"] ml_inv_evict [OF assms Some False] by simp
  qed
qed

lemma ml_inv_lookup:
  assumes "ml_inv s" "t < length (threads s)" "pc (threads s ! t) = ALookup" "accept_step a t s = Some s'"
  shows "ml_inv s'"
proof -
  let ?th = "threads s ! t"
  have ok: "progress_ok ALookup (acked ?th) (handed ?th) (uclosed ?th)"
    using ml_inv_parts(2) [OF assms(1,2)] assms(3) by (simp add: thread_inv_def)
  show ?thesis
  proof (cases rule: lookupGroup_cases [OF assms(1), of "underlay ?th", case_names found reserve])
    case (found r ch)
    then have "s' = set_thread t (?th\<lparr>pc := AAck (Inr ch)\<rparr>) s" using assms(3,4) by (simp add: accept_step_def Let_def)
    moreover have "ml_inv (set_thread t (?th\<lparr>pc := AAck (Inr ch)\<rparr>) s)"
      by (rule ml_inv_local [OF assms(1,2)]) (use assms(3) ok in \<open>simp_all add: thread_inv_def\<close>)
    ultimately show ?thesis by simp
  next
    case (reserve s1)
    have t: "t < length (threads s1)" "threads s1 ! t = ?th" using reserve(4) assms(2) by simp_all
    consider (wait) n where "createNotifiers (listener s1) (group_of ?th) = Some n" "s' = set_thread t (?th\<lparr>pc := AWait n\<rparr>) s1"
      | (none) "s' = set_thread t (?th\<lparr>pc := AClose\<rparr>) s1"
      | (new) "createNotifiers (listener s1) (group_of ?th) = None"
          "s' = set_thread t (?th\<lparr>pc := AAdmit (length (notifiers s1))\<rparr>)
             (s1\<lparr>notifiers := notifiers s1 @ [False], listener := (listener s1)\<lparr>createNotifiers :=
               (createNotifiers (listener s1))(group_of ?th \<mapsto> length (notifiers s1))\<rparr>\<rparr>)"
      using assms(3,4) reserve(1) by (auto simp: accept_step_def reserveGroup_def Let_def split: option.splits if_splits)
    then show ?thesis
    proof cases
      case wait
      then have "n < length (notifiers s1)" using ml_inv_parts(4) [OF reserve(2)] by (auto simp: wf_notifiers_def)
      then show ?thesis unfolding wait(2)
        by (intro ml_inv_local [OF reserve(2) t(1)]) (use assms(3) ok wait(1) t in \<open>simp_all add: thread_inv_def\<close>)
    next
      case none
      then show ?thesis
        using ml_inv_local [OF reserve(2) t(1), of "?th\<lparr>pc := AClose\<rparr>"] assms(3) ok t by (simp add: thread_inv_def)
    next
      case new
      then show ?thesis using ml_inv_reserve [OF reserve(2) t(1)] assms(3) reserve(3) t by simp
    qed
  qed
qed

lemma ml_inv_accept:
  assumes "ml_inv s" "t < length (threads s)" "accept_step a t s = Some s'"
  shows "ml_inv s'"
proof -
  let ?th = "threads s ! t"
  have ti: "thread_inv s ?th" using ml_inv_parts(2) [OF assms(1,2)] .
  then have ok: "progress_ok (pc ?th) (acked ?th) (handed ?th) (uclosed ?th)" by (simp add: thread_inv_def)
  have loc: "ml_inv (set_thread t th s)"
    if "underlay th = underlay ?th" "holds (pc th) = holds (pc ?th)" "thread_inv s th" "\<And>n r ch. pc ?th \<noteq> ARegister n r ch" for th
    using ml_inv_local [OF assms(1,2)] that by blast
  note ti' = ti [unfolded thread_inv_def]
  have rel: "ml_inv (release_then t ?th n p s)"
    if "pc ?th \<in> {ARefused n, AAckFailed n, ARelease n}" "p \<in> {AReject, AClose, ADone}"
      "progress_ok p (acked ?th) (handed ?th) (uclosed ?th)" for n p
    by (rule ml_inv_release [OF assms(1,2)]) (use that in auto)
  show ?thesis
  proof (cases "pc ?th")
    case ALookup then show ?thesis using ml_inv_lookup [OF assms(1,2) _ assms(3)] by blast
  next
    case (ACreate n) then show ?thesis
      using ml_inv_new_registration [OF assms(1,2)] assms(3) by (simp add: accept_step_def Let_def)
  next
    case (ARegister n r ch) then show ?thesis
      using ml_inv_publish [OF assms(1,2)] assms(3) by (simp add: accept_step_def Let_def)
  next
    case (AFactory n r) then show ?thesis
      using ml_inv_factory [OF assms(1,2) AFactory] loc ti' assms(3)
      by (auto simp: accept_step_def Let_def thread_inv_def is_release_def split: option.splits prod.splits)
  next
    case (AAck got) then show ?thesis
      using loc ti' assms(3)
      by (cases got) (auto simp: accept_step_def Let_def thread_inv_def is_release_def split: option.splits)
  next
    case (ARefused n) then show ?thesis using rel [of n AReject] ok assms(3) by (simp add: accept_step_def Let_def)
  next
    case (AAckFailed n) then show ?thesis using rel [of n AClose] ok assms(3) by (simp add: accept_step_def Let_def)
  next
    case (ARelease n) then show ?thesis using rel [of n ADone] ok assms(3) by (auto simp: accept_step_def Let_def)
  qed (use loc ti' assms(3) in \<open>auto simp: accept_step_def Let_def thread_inv_def is_release_def split: option.splits if_splits\<close>)
qed

lemma ml_inv_arrive:
  assumes "ml_inv s"
  shows "ml_inv (s\<lparr>threads := threads s @ [\<lparr>underlay = u, pc = AStart, acked = False, handed = False, uclosed = False\<rparr>]\<rparr>)"
    (is "ml_inv ?s")
proof -
  note inv = ml_inv_parts [OF assms]
  have ti: "thread_inv ?s = thread_inv s" by (simp add: thread_inv_def fun_eq_iff)
  have "\<forall>th \<in> set (threads ?s). thread_inv ?s th" unfolding ti using inv(1) by (simp add: thread_inv_def)
  moreover have "one_holder (threads ?s)"
    using inv(3) unfolding one_holder_def by (auto simp: nth_append less_Suc_eq)
  moreover have "wf_notifiers ?s" using inv(4) unfolding wf_notifiers_def by fastforce
  moreover have "wf_regs ?s" using inv(5) unfolding wf_regs_def by simp
  moreover have "alive ?s r = alive s r" for r by (simp add: alive_def split: option.splits)
  then have "wf_alive ?s" using inv(6) unfolding wf_alive_def by fastforce
  ultimately show ?thesis by (simp add: ml_inv_def)
qed

lemma ml_inv_chan_close:
  assumes "ml_inv s"
  shows "ml_inv (s\<lparr>chanClosed := insert ch (chanClosed s)\<rparr>)" (is "ml_inv ?s")
proof -
  note inv = ml_inv_parts [OF assms]
  have "thread_inv ?s = thread_inv s" by (simp add: thread_inv_def fun_eq_iff)
  moreover have "alive ?s r \<Longrightarrow> alive s r" for r by (simp add: alive_def split: option.splits)
  then have "wf_alive ?s" using inv(6) unfolding wf_alive_def by simp
  ultimately show ?thesis using inv(1,3,4,5) by (simp add: ml_inv_def wf_notifiers_def wf_regs_def)
qed

lemma ml_inv_mark:
  assumes "ml_inv s" "r < length (regs s)"
  shows "ml_inv ((markClosed r s)\<lparr>callbacks := (rfor (regs s ! r), r) # callbacks s\<rparr>)" (is "ml_inv ?s")
proof -
  note inv = ml_inv_parts [OF assms(1)]
  have at: "rfor (regs ?s ! q) = rfor (regs s ! q)" "rch (regs ?s ! q) = rch (regs s ! q)"
    "rclosed (regs ?s ! q) \<longleftrightarrow> q = r \<or> rclosed (regs s ! q)" for q
    using assms(2) by (cases "q = r"; simp add: markClosed_def)+
  have same: "listener ?s = listener s" "notifiers ?s = notifiers s" "threads ?s = threads s" "chanClosed ?s = chanClosed s"
    "length (regs ?s) = length (regs s)" "callbacks ?s = (rfor (regs s ! r), r) # callbacks s"
    by (simp_all add: markClosed_def)
  have "thread_inv ?s = thread_inv s" unfolding thread_inv_def fun_eq_iff at same by simp
  moreover have "wf_notifiers ?s" using inv(4) unfolding wf_notifiers_def same .
  moreover have "wf_regs ?s" using inv(5) assms(2) unfolding wf_regs_def same at by auto
  moreover have "alive ?s q \<Longrightarrow> alive s q" for q unfolding alive_def at same by simp
  then have "wf_alive ?s" using inv(6) unfolding wf_alive_def at same by blast
  ultimately show ?thesis using inv(1,3) by (simp add: ml_inv_def same)
qed

lemma ml_inv_callback:
  assumes "ml_inv s" "(i, r) \<in> set (callbacks s)"
  shows "ml_inv ((closeRegistration i r s)\<lparr>callbacks := remove1 (i, r) (callbacks s)\<rparr>)"
proof -
  note inv = ml_inv_parts [OF assms(1)]
  have "rclosed (regs s ! r)" using inv(5) assms(2) unfolding wf_regs_def by auto
  then have "\<not> alive s r" by (simp add: alive_def)
  then have s1: "ml_inv (closeRegistration i r s)" (is "ml_inv ?s1")
    using ml_inv_evict assms(1) by (simp add: closeRegistration_def)
  let ?s = "?s1\<lparr>callbacks := remove1 (i, r) (callbacks s)\<rparr>"
  note inv1 = ml_inv_parts [OF s1]
  have cb: "callbacks ?s1 = callbacks s" "channels (listener ?s1) i \<noteq> Some r" by (simp_all add: closeRegistration_def)
  have "wf_regs ?s"
    using inv1(5) cb unfolding wf_regs_def by (auto dest: subsetD [OF set_remove1_subset] intro!: in_set_remove1 [THEN iffD2])
  moreover have "thread_inv ?s = thread_inv ?s1" by (simp add: thread_inv_def fun_eq_iff)
  moreover have "alive ?s = alive ?s1" by (simp add: alive_def fun_eq_iff split: option.splits)
  ultimately show ?thesis
    using inv1(1,3,4,6) by (simp add: ml_inv_def wf_notifiers_def wf_alive_def)
qed

lemma ml_inv_step:
  assumes "ml_inv s" "ml_step s s'"
  shows "ml_inv s'"
  using assms(2) by cases
    (use assms(1) in \<open>auto intro: ml_inv_arrive ml_inv_accept ml_inv_chan_close ml_inv_mark ml_inv_callback\<close>)

interpretation multi_listener: inductive_invariant ml_init ml_step ml_inv
proof
  show "ml_init s \<Longrightarrow> ml_inv s" for s
    by (auto simp: ml_init_def NewMultiListenerWithConfig_def ml_inv_def one_holder_def wf_notifiers_def wf_regs_def
        wf_alive_def alive_def)
  show "ml_inv s \<Longrightarrow> ml_step s s' \<Longrightarrow> ml_inv s'" for s s' by (rule ml_inv_step)
qed

text \<open>What a step can do to a registration and to the goroutine that publishes it.\<close>

lemma release_then_simps [simp]:
  "regs (release_then t th n p s) = regs s" "channels (listener (release_then t th n p s)) = channels (listener s)"
  "threads (release_then t th n p s) = (threads s)[t := th\<lparr>pc := if notifiers s ! n then APanic else p\<rparr>]"
  by (simp_all add: release_then_def releaseReservation_def Let_def)

lemma reserveGroup_simps [simp]:
  "regs (snd (reserveGroup u s)) = regs s" "threads (snd (reserveGroup u s)) = threads s"
  by (simp_all add: reserveGroup_def Let_def split: option.splits)

lemma lookupGroup_simps [simp]:
  "regs (snd (lookupGroup u s)) = regs s" "threads (snd (lookupGroup u s)) = threads s"
  by (simp_all add: lookupGroup_def split: option.splits)

lemma publish_simps [simp]: "regs (publish i r ch s) = regs s" "threads (publish i r ch s) = threads s"
  by (simp_all add: publish_def)

lemma accept_step_lookup:
  assumes "pc (threads s ! t) = ALookup" "accept_step a t s = Some s'"
  obtains p where "s' = set_thread t ((threads s ! t)\<lparr>pc := p\<rparr>) (snd (lookupGroup (underlay (threads s ! t)) s))"
    "\<And>n r ch. p \<noteq> ARegister n r ch"
  using assms by (cases "lookupGroup (underlay (threads s ! t)) s"; cases "fst (lookupGroup (underlay (threads s ! t)) s)")
    (auto simp: accept_step_def Let_def)

lemma accept_step_regs:
  assumes "accept_step a t s = Some s'" "r < length (regs s)"
  shows "rfor (regs s' ! r) = rfor (regs s ! r)"
proof (cases "pc (threads s ! t)")
  case ALookup
  then show ?thesis using assms(1) by (auto elim!: accept_step_lookup)
next
  case (AFactory n q)
  then show ?thesis using assms
    by (cases "q = r") (auto simp: accept_step_def Let_def split: option.splits prod.splits)
qed (use assms in \<open>auto simp: accept_step_def Let_def nth_append split: option.splits sum.splits if_splits\<close>)

lemma ml_step_rfor: "ml_step s s' \<Longrightarrow> r < length (regs s) \<Longrightarrow> rfor (regs s' ! r) = rfor (regs s ! r)"
  by (induction rule: ml_step.induct)
    (auto simp: accept_step_regs markClosed_def closeRegistration_def nth_list_update)

lemma accept_step_thread:
  assumes "accept_step a t s = Some s'" "t < length (threads s)"
  shows "threads s' = (threads s)[t := threads s' ! t]"
    "pc (threads s' ! t) = ARegister n r ch \<Longrightarrow> pc (threads s ! t) = AFactory n r"
proof -
  have "threads s' = (threads s)[t := threads s' ! t] \<and> (pc (threads s' ! t) = ARegister n r ch \<longrightarrow> pc (threads s ! t) = AFactory n r)"
  proof (cases "pc (threads s ! t)")
    case ALookup
    show ?thesis by (rule accept_step_lookup [OF ALookup assms(1)]) (use assms(2) in simp)
  qed (use assms in \<open>auto simp: accept_step_def Let_def split: option.splits prod.splits sum.splits if_splits\<close>)
  then show "threads s' = (threads s)[t := threads s' ! t]"
    "pc (threads s' ! t) = ARegister n r ch \<Longrightarrow> pc (threads s ! t) = AFactory n r" by blast+
qed

lemma ml_step_registering:
  assumes "ml_step s s'" "th \<in> set (threads s')" "pc th = ARegister n r ch"
  shows "\<exists>th \<in> set (threads s). \<exists>n ch. pc th = ARegister n r ch \<or> pc th = AFactory n r"
  using assms(1)
proof cases
  case (ml_accept t a)
  note th = accept_step_thread [OF ml_accept(2,1)]
  have "th = threads s' ! t \<or> th \<in> set (threads s)"
    using assms(2) th(1) set_update_subset_insert [of "threads s" t "threads s' ! t"] by auto
  then show ?thesis
  proof
    assume "th = threads s' ! t"
    then have "pc (threads s ! t) = AFactory n r" using th(2) assms(3) by simp
    then show ?thesis using ml_accept(1) nth_mem by blast
  qed (use assms(3) in blast)
qed (use assms(2,3) in \<open>auto simp: markClosed_def closeRegistration_def split: if_splits\<close>)

section \<open>Executable runs\<close>

datatype ml_action = Arrive arrival | Move nat answers | CloseChannel nat | MarkClosed nat | RunCallback string nat

fun ml_exec :: "ml_action \<Rightarrow> ml_state \<Rightarrow> ml_state option" where
  "ml_exec (Arrive u) s = Some (s\<lparr>threads := threads s @
     [\<lparr>underlay = u, pc = AStart, acked = False, handed = False, uclosed = False\<rparr>]\<rparr>)"
| "ml_exec (Move t a) s = (if t < length (threads s) then accept_step a t s else None)"
| "ml_exec (CloseChannel ch) s = Some (s\<lparr>chanClosed := insert ch (chanClosed s)\<rparr>)"
| "ml_exec (MarkClosed r) s = (if r < length (regs s)
     then Some ((markClosed r s)\<lparr>callbacks := (rfor (regs s ! r), r) # callbacks s\<rparr>) else None)"
| "ml_exec (RunCallback i r) s = (if (i, r) \<in> set (callbacks s)
     then Some ((closeRegistration i r s)\<lparr>callbacks := remove1 (i, r) (callbacks s)\<rparr>) else None)"

fun ml_run :: "ml_action list \<Rightarrow> ml_state \<Rightarrow> ml_state option" where
  "ml_run [] s = Some s"
| "ml_run (x # xs) s = (case ml_exec x s of None \<Rightarrow> None | Some s' \<Rightarrow> ml_run xs s')"

lemma ml_exec_step: "ml_exec x s = Some s' \<Longrightarrow> ml_step s s'"
  by (cases x) (auto intro: ml_step.intros split: if_splits)

lemma ml_run_reach: "reach ml_init ml_step s \<Longrightarrow> ml_run xs s = Some s' \<Longrightarrow> reach ml_init ml_step s'"
proof (induction xs arbitrary: s)
  case (Cons x xs)
  then obtain s1 where "ml_exec x s = Some s1" "ml_run xs s1 = Some s'" by (auto split: option.splits)
  then show ?case using Cons.IH reach_step [OF Cons.prems(1) ml_exec_step] by blast
qed simp

text \<open>The executable actions are exactly the steps.\<close>

lemma ml_step_exec: "ml_step s s' \<longleftrightarrow> (\<exists>x. ml_exec x s = Some s')"
proof
  assume "ml_step s s'"
  then show "\<exists>x. ml_exec x s = Some s'"
  proof cases
    case (ml_arrive u) then show ?thesis by (intro exI [of _ "Arrive u"]) simp
  next
    case (ml_accept t a) then show ?thesis by (intro exI [of _ "Move t a"]) simp
  next
    case (ml_chan_close ch) then show ?thesis by (intro exI [of _ "CloseChannel ch"]) simp
  next
    case (ml_mark r) then show ?thesis by (intro exI [of _ "MarkClosed r"]) simp
  next
    case (ml_callback i r) then show ?thesis by (intro exI [of _ "RunCallback i r"]) simp
  qed
qed (auto dest: ml_exec_step)

definition start_state :: ml_state where
  "start_state = \<lparr>listener = \<lparr>channels = Map.empty, createNotifiers = Map.empty, admitter = True\<rparr>, regs = [], notifiers = [],
     chanClosed = {}, threads = [], callbacks = []\<rparr>"

lemma start_state_reach: "reach ml_init ml_step start_state"
  by (rule reach_init) (auto simp: ml_init_def NewMultiListenerWithConfig_def start_state_def)

definition willing :: answers where
  "willing = \<lparr>ackErr = None, fallbackErr = None, admitErr = None, timerFires = False, factoryResult = (Some 7, None)\<rparr>"

definition first_underlay :: arrival where
  "first_underlay = \<lparr>chId = ''g'', uheaders = [IsGroupedHeader \<mapsto> [1], IsFirstGroupConnection \<mapsto> [1]]\<rparr>"

definition next_underlay :: arrival where
  "next_underlay = \<lparr>chId = ''g'', uheaders = [IsGroupedHeader \<mapsto> [1]]\<rparr>"

text \<open>
  A run in which the second underlay arrives while the first creates the channel, waits, and a
  third finds the channel; here up to the point where the creator has published.
\<close>

definition creating_run :: "ml_action list" where
  "creating_run = Arrive first_underlay # replicate 5 (Move 0 willing) @
     [Arrive next_underlay, Move (Suc 0) willing, Move (Suc 0) willing] @ replicate 2 (Move 0 willing)"

lemmas run_simps = creating_run_def willing_def first_underlay_def next_underlay_def start_state_def accept_step_def Let_def
  isGrouped_def isFirst_def GetBoolHeader_def lookupGroup_def reserveGroup_def set_thread_def publish_def evict_def
  releaseReservation_def release_then_def markClosed_def closeRegistration_def header_keys numeral_eq_Suc

definition creating_state :: ml_state where
  "creating_state = \<lparr>listener = \<lparr>channels = [''g'' \<mapsto> 0], createNotifiers = [''g'' \<mapsto> 0], admitter = True\<rparr>,
      regs = [\<lparr>rch = Some 7, rclosed = False, rfor = ''g''\<rparr>], notifiers = [False], chanClosed = {},
      threads = [\<lparr>underlay = first_underlay, pc = ARelease 0, acked = True, handed = True, uclosed = False\<rparr>,
        \<lparr>underlay = next_underlay, pc = AWait 0, acked = False, handed = False, uclosed = False\<rparr>],
      callbacks = []\<rparr>"

lemma creating_run_state: "ml_run creating_run start_state = Some creating_state"
  by (simp add: run_simps creating_state_def)

lemma creating_reach: "reach ml_init ml_step creating_state"
  using ml_run_reach [OF start_state_reach creating_run_state] .

lemma creating_alive: "alive creating_state 0" "rfor (regs creating_state ! 0) = ''g''"
  by (simp_all add: alive_def creating_state_def)

section \<open>Properties\<close>

lemma registering_facts:
  assumes "ml_inv s" "th \<in> set (threads s)" "pc th = ARegister n r ch"
  shows "rfor (regs s ! r) = group_of th" "channels (listener s) (group_of th) = None"
  using ml_inv_parts(1) [OF assms(1,2)] assms(3) by (simp_all add: thread_inv_def is_release_def)

lemma one_holderD:
  assumes "one_holder ths" "i < length ths" "j < length ths" "holds (pc (ths ! i)) \<noteq> None" "holds (pc (ths ! j)) \<noteq> None"
    and "group_of (ths ! i) = group_of (ths ! j)"
  shows "i = j"
  using assms unfolding one_holder_def by blast

lemma one_registering:
  assumes "ml_inv s" "th \<in> set (threads s)" "th' \<in> set (threads s)" "group_of th = group_of th'"
    and "pc th = ARegister n r ch" "pc th' = ARegister n' r' ch'"
  shows "r = r'"
proof -
  obtain i where i: "i < length (threads s)" "threads s ! i = th" using assms(2) unfolding in_set_conv_nth by blast
  obtain j where j: "j < length (threads s)" "threads s ! j = th'" using assms(3) unfolding in_set_conv_nth by blast
  have "i = j"
    by (rule one_holderD [OF ml_inv_parts(3) [OF assms(1)] i(1) j(1)]) (simp_all only: i(2) j(2) assms(4-6) holds.simps option.simps not_False_eq_True)
  then have "th' = th" using i(2) j(2) by blast
  then have "pc th = ARegister n' r' ch'" using assms(6) by (simp only:)
  then have "ARegister n r ch = ARegister n' r' ch'" by (simp only: assms(5))
  then show ?thesis by (simp only: accept_pc.inject)
qed

lemma alive_cases:
  assumes "ml_inv s" "alive s r"
  obtains (published) "channels (listener s) (rfor (regs s ! r)) = Some r"
  | (registering) th n ch where "th \<in> set (threads s)" "pc th = ARegister n r ch" "group_of th = rfor (regs s ! r)"
      "channels (listener s) (rfor (regs s ! r)) = None"
proof (cases "channels (listener s) (rfor (regs s ! r)) = Some r")
  case True
  then show ?thesis by (rule published)
next
  case False
  then have "\<exists>th \<in> set (threads s). \<exists>n ch. pc th = ARegister n r ch"
    using ml_inv_parts(6) [OF assms(1), unfolded wf_alive_def, rule_format, OF assms(2)] by (simp only: simp_thms)
  then obtain th n ch where th: "th \<in> set (threads s)" "pc th = ARegister n r ch" by blast
  show ?thesis
    by (rule registering [OF th]) (use registering_facts [OF assms(1) th] in simp_all)
qed

text \<open>
  C3. There is one channel per group: whatever underlays arrive concurrently, whenever channels
  close and callbacks run, no two registrations of the same connection id ever have an open channel
  at the same time.
\<close>

theorem one_live_channel_per_group:
  assumes "reach ml_init ml_step s" "alive s r" "alive s r'" "rfor (regs s ! r) = rfor (regs s ! r')"
  shows "r = r'"
proof -
  have inv: "ml_inv s" using multi_listener.reach_inv [OF assms(1)] .
  show ?thesis
  proof (cases rule: alive_cases [OF inv assms(2), case_names published registering])
    case p: published
    show ?thesis
    proof (cases rule: alive_cases [OF inv assms(3), case_names published registering])
      case published
      then show ?thesis using p unfolding assms(4) by (simp only: option.inject)
    next
      case registering
      then show ?thesis using p unfolding assms(4) by (simp only: option.distinct)
    qed
  next
    case r: (registering th n ch)
    show ?thesis
    proof (cases rule: alive_cases [OF inv assms(3), case_names published registering])
      case published
      then show ?thesis using r(4) unfolding assms(4) by (simp only: option.distinct)
    next
      case r': (registering th' n' ch')
      have "group_of th = group_of th'" using r(3) r'(3) assms(4) by (simp only:)
      then show ?thesis by (rule one_registering [OF inv r(1) r'(1) _ r(2) r'(2)])
    qed
  qed
qed

theorem one_live_channel_per_group_witness:
  "{r. alive creating_state r \<and> rfor (regs creating_state ! r) = ''g''} = {0}"
  using one_live_channel_per_group [OF creating_reach _ creating_alive(1)] creating_alive by auto



text \<open>
  C13. The registry follows the life of the channels: no step removes or replaces the registration of
  a channel that stays open (in particular no late callback of an earlier channel of the same id),
  and a registration whose close callback has run is never in the map.
\<close>

theorem registry_tracks_channels:
  assumes "reach ml_init ml_step s"
  shows "(channels (listener s) g = Some r \<longrightarrow> ml_step s s' \<longrightarrow> alive s' r \<longrightarrow> channels (listener s') g = Some r) \<and>
    (rclosed (regs s ! r) \<longrightarrow> (g, r) \<notin> set (callbacks s) \<longrightarrow> channels (listener s) g \<noteq> Some r)"
proof (intro conjI impI)
  have inv: "ml_inv s" using multi_listener.reach_inv [OF assms] .
  show "channels (listener s) g \<noteq> Some r" if "rclosed (regs s ! r)" "(g, r) \<notin> set (callbacks s)"
    using ml_inv_parts(5) [OF inv] that unfolding wf_regs_def by blast
  assume g: "channels (listener s) g = Some r" and step: "ml_step s s'" and al: "alive s' r"
  have inv': "ml_inv s'" using ml_inv_step [OF inv step] .
  have rf: "rfor (regs s ! r) = g" "r < length (regs s)" using ml_inv_parts(5) [OF inv] g unfolding wf_regs_def by blast+
  have same: "rfor (regs s' ! r) = rfor (regs s ! r)"
    using step rf(2) by (rule ml_step_rfor)
  show "channels (listener s') g = Some r"
  proof (cases rule: alive_cases [OF inv' al, case_names published registering])
    case published
    then show ?thesis unfolding same rf(1) .
  next
    case (registering th n ch)
    then have "\<exists>th \<in> set (threads s). \<exists>n ch. pc th = ARegister n r ch \<or> pc th = AFactory n r"
      using ml_step_registering [OF step] by blast
    then obtain th' n' ch' where th': "th' \<in> set (threads s)" "pc th' = ARegister n' r ch' \<or> pc th' = AFactory n' r" by blast
    then have "channels (listener s) (group_of th') = None" "rfor (regs s ! r) = group_of th'"
      using ml_inv_parts(1) [OF inv th'(1)] by (auto simp: thread_inv_def is_release_def)
    then show ?thesis using g unfolding rf(1) [symmetric] by (simp only: option.distinct)
  qed
qed

theorem registry_tracks_channels_witness:
  "channels (listener (the (ml_exec (Move 0 willing) creating_state))) ''g'' = Some 0"
proof -
  let ?s = "the (ml_exec (Move 0 willing) creating_state)"
  have ex: "ml_exec (Move 0 willing) creating_state = Some ?s" by (simp add: creating_state_def run_simps)
  have "channels (listener creating_state) ''g'' = Some 0" "alive ?s 0"
    by (simp_all add: creating_state_def run_simps alive_def)
  then show ?thesis using registry_tracks_channels [OF creating_reach, of "''g''" 0 ?s] ml_exec_step [OF ex] by blast
qed

text \<open>
  C18. Every accepted connection is settled: when \<^verbatim>\<open>AcceptUnderlay\<close> returns, the underlay was
  either handed on or closed by the listener, never both and never neither, and it was handed on
  only after its hello was acknowledged; and no goroutine ever panics, by closing a notifier twice
  or by calling a channel that is not there.
\<close>

theorem accept_settles_underlay:
  assumes "reach ml_init ml_step s" "th \<in> set (threads s)"
  shows "pc th \<noteq> APanic \<and> (pc th = ADone \<longrightarrow> handed th \<noteq> uclosed th \<and> (handed th \<longrightarrow> acked th))"
proof -
  have "progress_ok (pc th) (acked th) (handed th) (uclosed th)"
    using ml_inv_parts(1) [OF multi_listener.reach_inv [OF assms(1)] assms(2)] by (simp add: thread_inv_def)
  then show ?thesis by (cases "pc th") auto
qed

theorem accept_settles_underlay_witness:
  "\<exists>s th. ml_run [Arrive first_underlay, Move 0 willing, Move 0 willing, Move 0 (willing\<lparr>admitErr := Some (ErrText ''full'')\<rparr>),
      Move 0 willing, Move 0 willing] start_state = Some s \<and> threads s = [th] \<and> pc th = ADone \<and>
    handed th \<noteq> uclosed th \<and> uclosed th"
proof -
  obtain s th where s: "ml_run [Arrive first_underlay, Move 0 willing, Move 0 willing, Move 0 (willing\<lparr>admitErr := Some (ErrText ''full'')\<rparr>),
      Move 0 willing, Move 0 willing] start_state = Some s" "threads s = [th]" "pc th = ADone" "uclosed th"
    by (simp add: run_simps)
  have "th \<in> set (threads s)" using s(2) by simp
  then show ?thesis using s accept_settles_underlay [OF ml_run_reach [OF start_state_reach s(1)]] by blast
qed

section \<open>Progress\<close>

text \<open>The steps a goroutine that holds a reservation has before it releases it.\<close>

fun rank :: "accept_pc \<Rightarrow> nat" where
  "rank (AAdmit n) = 6"
| "rank (AAck (Inl n)) = 5"
| "rank (ACreate n) = 4"
| "rank (AFactory n r) = 3"
| "rank (ARegister n r ch) = 2"
| "rank (AFactoryFailed n) = 2"
| "rank _ = 1"

fun run_thread :: "answers list \<Rightarrow> nat \<Rightarrow> ml_state \<Rightarrow> ml_state" where
  "run_thread [] t s = s"
| "run_thread (a # as) t s = (case accept_step a t s of None \<Rightarrow> s | Some s' \<Rightarrow> run_thread as t s')"

lemma release_then_closes:
  "n < length (notifiers s) \<Longrightarrow> \<not> notifiers s ! n \<Longrightarrow>
    notifiers (release_then t th n p s) ! n \<and> length (notifiers (release_then t th n p s)) = length (notifiers s)"
  by (simp add: release_then_def releaseReservation_def Let_def)

lemma creator_step:
  assumes "ml_inv s" "t < length (threads s)" "holds (pc (threads s ! t)) = Some n"
  obtains s' where "accept_step a t s = Some s'" "n < length (notifiers s')"
    "notifiers s' ! n \<or> holds (pc (threads s' ! t)) = Some n \<and> rank (pc (threads s' ! t)) < rank (pc (threads s ! t))"
proof -
  have "createNotifiers (listener s) (group_of (threads s ! t)) = Some n"
    using ml_inv_parts(2) [OF assms(1,2)] assms(3) by (simp add: thread_inv_def)
  then have n: "n < length (notifiers s)" "\<not> notifiers s ! n" using ml_inv_parts(4) [OF assms(1)] by (auto simp: wf_notifiers_def)
  have "\<exists>s'. accept_step a t s = Some s' \<and> n < length (notifiers s') \<and>
    (notifiers s' ! n \<or> holds (pc (threads s' ! t)) = Some n \<and> rank (pc (threads s' ! t)) < rank (pc (threads s ! t)))"
  proof (cases "pc (threads s ! t)")
    case (AAck got)
    then show ?thesis using assms(2,3) n by (cases got) (auto simp: accept_step_def Let_def split: option.splits)
  qed (use assms(2,3) n release_then_closes [OF n] in
      \<open>auto simp: accept_step_def Let_def publish_def split: option.splits prod.splits\<close>)
  then show thesis using that by blast
qed

lemma nth_update_True: "n < length xs \<Longrightarrow> xs[m := True] ! n \<longleftrightarrow> m = n \<or> xs ! n"
  by (cases "m = n") simp_all

lemma accept_step_notifiers:
  assumes "accept_step a t s = Some s'" "n < length (notifiers s)" "notifiers s ! n"
  shows "n < length (notifiers s') \<and> notifiers s' ! n"
proof (cases "pc (threads s ! t)")
  case ALookup
  have keep: "n < length (notifiers (snd (lookupGroup u s))) \<and> notifiers (snd (lookupGroup u s)) ! n" for u
    using assms(2,3) by (auto simp: lookupGroup_def reserveGroup_def Let_def nth_append split: option.splits)
  show ?thesis by (rule accept_step_lookup [OF ALookup assms(1)]) (use keep in simp)
qed (use assms in \<open>auto simp: accept_step_def Let_def publish_def release_then_def releaseReservation_def nth_update_True
      split: option.splits prod.splits sum.splits if_splits\<close>)

lemma run_thread_notifiers:
  "n < length (notifiers s) \<Longrightarrow> notifiers s ! n \<Longrightarrow> notifiers (run_thread as t s) ! n"
  by (induction as t s rule: run_thread.induct) (auto dest: accept_step_notifiers split: option.splits)

lemma run_thread_others:
  "t < length (threads s) \<Longrightarrow> i \<noteq> t \<Longrightarrow> threads (run_thread as t s) ! i = threads s ! i"
proof (induction as t s rule: run_thread.induct)
  case (2 a as t s)
  show ?case
  proof (cases "accept_step a t s")
    case (Some s')
    have "threads s' = (threads s)[t := threads s' ! t]" using accept_step_thread(1) [OF Some 2(2)] .
    then have "threads s' ! i = threads s ! i" "t < length (threads s')" using 2(2,3) by (metis nth_list_update_neq, metis length_list_update)
    then show ?thesis using 2 Some by simp
  qed simp
qed simp

lemma creator_releases:
  assumes "ml_inv s" "t < length (threads s)" "holds (pc (threads s ! t)) = Some n" "rank (pc (threads s ! t)) \<le> length as"
  shows "notifiers (run_thread as t s) ! n"
  using assms
proof (induction as arbitrary: s)
  case Nil
  then show ?case by (cases "pc (threads s ! t)" rule: rank.cases) auto
next
  case (Cons a as)
  obtain s' where s': "accept_step a t s = Some s'" "n < length (notifiers s')"
      "notifiers s' ! n \<or> holds (pc (threads s' ! t)) = Some n \<and> rank (pc (threads s' ! t)) < rank (pc (threads s ! t))"
    using creator_step [OF Cons.prems(1-3)] by blast
  have "ml_inv s'" "t < length (threads s')"
    using ml_inv_accept [OF Cons.prems(1,2) s'(1)] accept_step_thread(1) [OF s'(1) Cons.prems(2)] Cons.prems(2)
    by (simp, metis length_list_update)
  then show ?case
    using s' Cons.IH [of s'] Cons.prems(4) run_thread_notifiers [of n s' as t] by fastforce
qed

lemma rank_le: "rank p \<le> 6"
  by (cases p rule: rank.cases) simp_all

text \<open>
  C11. Nobody waits in vain: a goroutine that waits for the creation of its group's channel waits for
  a notifier that is already closed, or for a goroutine that holds the reservation; that goroutine
  is never blocked, and whatever its calls answer, its next six steps close the notifier, after
  which the waiting one looks the group up again.
\<close>

theorem waiting_ends:
  assumes "reach ml_init ml_step s" "t < length (threads s)" "pc (threads s ! t) = AWait n" "length as = 6"
  shows "notifiers s ! n \<or> (\<exists>c < length (threads s). holds (pc (threads s ! c)) = Some n \<and>
    group_of (threads s ! c) = group_of (threads s ! t) \<and>
    (\<forall>a. \<not> timerFires a \<longrightarrow> accept_step a t (run_thread as c s) =
       Some (set_thread t ((threads s ! t)\<lparr>pc := ALookup\<rparr>) (run_thread as c s))))"
proof (cases "notifiers s ! n")
  case False
  have inv: "ml_inv s" using multi_listener.reach_inv [OF assms(1)] .
  have "createNotifiers (listener s) (group_of (threads s ! t)) = Some n"
    using ml_inv_parts(2) [OF inv assms(2)] assms(3) False by (simp add: thread_inv_def)
  then obtain c where c: "c < length (threads s)" "holds (pc (threads s ! c)) = Some n" "group_of (threads s ! c) = group_of (threads s ! t)"
    using wf_notifiers_holder [OF ml_inv_parts(4) [OF inv]] by blast
  have "t \<noteq> c" using c(2) assms(3) by auto
  then have t: "threads (run_thread as c s) ! t = threads s ! t" using run_thread_others [OF c(1)] by simp
  have "notifiers (run_thread as c s) ! n"
    using creator_releases [OF inv c(1,2)] rank_le assms(4) by simp
  then have "accept_step a t (run_thread as c s) = Some (set_thread t ((threads s ! t)\<lparr>pc := ALookup\<rparr>) (run_thread as c s))"
    if "\<not> timerFires a" for a
    using that assms(3) by (simp add: accept_step_def Let_def t)
  then show ?thesis using c by blast
qed simp

theorem waiting_ends_witness:
  "\<exists>c < length (threads creating_state). holds (pc (threads creating_state ! c)) = Some 0 \<and>
     accept_step willing 1 (run_thread (replicate 6 willing) c creating_state) \<noteq> None"
proof -
  have "1 < length (threads creating_state)" "pc (threads creating_state ! 1) = AWait 0" "\<not> notifiers creating_state ! 0"
    by (simp_all add: creating_state_def)
  from waiting_ends [OF creating_reach this(1,2), of "replicate 6 willing"] this(3)
  show ?thesis by (auto simp: willing_def)
qed

end
