(* ===== verification/Channel_Options.thy ===== *)
theory Channel_Options
  imports Complex_Main Constants
begin

text \<open>
  \<^verbatim>\<open>options.go\<close> and the options of \<^verbatim>\<open>heartbeater.go\<close>: loading
  options from a configuration map and validating them, with \<^verbatim>\<open>time.ParseDuration\<close>. Rounding
  of \<^verbatim>\<open>float64\<close> and its conversion to \<^verbatim>\<open>int\<close> outside the range of \<^verbatim>\<open>int\<close>, which
  the language leaves to the implementation, are arguments.
\<close>

section \<open>Durations\<close>

definition is_digit :: "char \<Rightarrow> bool" where
  "is_digit c \<longleftrightarrow> 48 \<le> (of_char c :: nat) \<and> (of_char c :: nat) \<le> 57"

definition digit :: "char \<Rightarrow> nat" where
  "digit c = of_char c - 48"

text \<open>
  The leading digits of a string as a number, with the overflow checks of the library; \<open>None\<close>
  is an overflow.
\<close>

fun leadingInt :: "nat \<Rightarrow> string \<Rightarrow> (nat \<times> string) option" where
  "leadingInt x [] = Some (x, [])"
| "leadingInt x (c # cs) =
     (if \<not> is_digit c then Some (x, c # cs)
      else if x > 2 ^ 63 div 10 then None
      else if x * 10 + digit c > 2 ^ 63 then None
      else leadingInt (x * 10 + digit c) cs)"

text \<open>The digits of a fraction with their scale; digits that do not fit are dropped.\<close>

fun leadingFraction :: "(real \<Rightarrow> real) \<Rightarrow> bool \<Rightarrow> nat \<Rightarrow> real \<Rightarrow> string \<Rightarrow> nat \<times> real \<times> string" where
  "leadingFraction rnd overflow x scale [] = (x, scale, [])"
| "leadingFraction rnd overflow x scale (c # cs) =
     (if \<not> is_digit c then (x, scale, c # cs)
      else if overflow then leadingFraction rnd overflow x scale cs
      else if x > (2 ^ 63 - 1) div 10 then leadingFraction rnd True x scale cs
      else if x * 10 + digit c > 2 ^ 63 then leadingFraction rnd True x scale cs
      else leadingFraction rnd overflow (x * 10 + digit c) (rnd (scale * 10)) cs)"

definition unitMap :: "string \<Rightarrow> nat option" where
  "unitMap u =
     (if u = ''ns'' then Some 1
      else if u \<in> {''us'', [CHR 0xC2, CHR 0xB5, CHR ''s''], [CHR 0xCE, CHR 0xBC, CHR ''s'']}
      then Some 1000
      else if u = ''ms'' then Some 1000000
      else if u = ''s'' then Some 1000000000
      else if u = ''m'' then Some 60000000000
      else if u = ''h'' then Some 3600000000000
      else None)"

definition is_unit_char :: "char \<Rightarrow> bool" where
  "is_unit_char c \<longleftrightarrow> \<not> (c = CHR ''.'' \<or> is_digit c)"

text \<open>One number with its unit at the start of the string.\<close>

definition durationPart :: "(real \<Rightarrow> real) \<Rightarrow> string \<Rightarrow> (nat \<times> string) option" where
  "durationPart rnd s =
     (if \<not> (hd s = CHR ''.'' \<or> is_digit (hd s)) then None
      else case leadingInt 0 s of
        None \<Rightarrow> None
      | Some (v, s1) \<Rightarrow>
          (let pre = (length s \<noteq> length s1);
               dot = (s1 \<noteq> [] \<and> hd s1 = CHR ''.'');
               (f, scale, s2) = (if dot then leadingFraction rnd False 0 1 (tl s1) else (0, 1, s1));
               post = (dot \<and> length (tl s1) \<noteq> length s2);
               u = takeWhile is_unit_char s2
           in if \<not> pre \<and> \<not> post then None
              else if u = [] then None
              else case unitMap u of
                None \<Rightarrow> None
              | Some unit \<Rightarrow>
                  if v > 2 ^ 63 div unit then None
                  else
                    (let v = v * unit;
                         v' = (if f > 0 then v + nat \<lfloor>rnd (rnd (real f) * rnd (real unit / scale))\<rfloor> else v)
                     in if f > 0 \<and> v' > 2 ^ 63 then None
                        else Some (v', dropWhile is_unit_char s2))))"

lemma leadingInt_length: "leadingInt x s = Some (v, s') \<Longrightarrow> length s' \<le> length s"
  by (induction x s rule: leadingInt.induct) (auto split: if_splits)

lemma leadingFraction_length: "leadingFraction rnd ov x sc s = (f, sc', s') \<Longrightarrow> length s' \<le> length s"
  by (induction rnd ov x sc s rule: leadingFraction.induct) (auto split: if_splits)

lemma durationPart_length: "durationPart rnd s = Some (v, s') \<Longrightarrow> length s' < length s"
proof -
  assume part: "durationPart rnd s = Some (v, s')"
  then obtain v1 s1 where s1: "leadingInt 0 s = Some (v1, s1)" by (auto simp: durationPart_def split: if_splits option.splits)
  obtain f sc s2 where s2: "(if s1 \<noteq> [] \<and> hd s1 = CHR ''.'' then leadingFraction rnd False 0 1 (tl s1) else (0, 1, s1)) = (f, sc, s2)"
    by (cases "if s1 \<noteq> [] \<and> hd s1 = CHR ''.'' then leadingFraction rnd False 0 1 (tl s1) else (0, 1, s1)")
  have len: "length s2 \<le> length s"
    using s2 leadingInt_length [OF s1] leadingFraction_length [of rnd False 0 1 "tl s1" f sc s2] by (auto split: if_splits)
  have "s' = dropWhile is_unit_char s2" "takeWhile is_unit_char s2 \<noteq> []"
    using part s1 s2 by (auto simp: durationPart_def Let_def split: if_splits option.splits)
  then show ?thesis
    using len length_dropWhile_le [of is_unit_char "tl s2"] by (cases s2) (auto split: if_splits)
qed

text \<open>The sum of the parts, in 64-bit arithmetic.\<close>

function parseParts :: "(real \<Rightarrow> real) \<Rightarrow> nat \<Rightarrow> string \<Rightarrow> nat option" where
  "parseParts rnd d s =
     (if s = [] then Some d
      else case durationPart rnd s of
        None \<Rightarrow> None
      | Some (v, s') \<Rightarrow>
          (let d = (d + v) mod 2 ^ 64
           in if d > 2 ^ 63 then None else parseParts rnd d s'))"
  by pat_completeness auto
termination by (relation "measure (\<lambda>(rnd, d, s). length s)") (auto dest: durationPart_length)

declare parseParts.simps [simp del]

definition ParseDuration :: "(real \<Rightarrow> real) \<Rightarrow> string \<Rightarrow> int64 option" where
  "ParseDuration rnd s =
     (let neg = (s \<noteq> [] \<and> hd s = CHR ''-'');
          s = (if s \<noteq> [] \<and> (hd s = CHR ''-'' \<or> hd s = CHR ''+'') then tl s else s)
      in if s = ''0'' then Some 0
         else if s = [] then None
         else case parseParts rnd 0 s of
           None \<Rightarrow> None
         | Some d \<Rightarrow>
             if neg then Some (- word_of_nat d)
             else if d > 2 ^ 63 - 1 then None
             else Some (word_of_nat d))"

section \<open>Options\<close>

text \<open>A value of a configuration map.\<close>

datatype float64 = Finite real | NaN | PosInf | NegInf

datatype config_value = CInt int64 | CFloat float64 | CString string | COther

type_synonym config = "string \<rightharpoonup> config_value"

record ConnectOptions =
  MaxQueuedConnects :: int64
  MaxOutstandingConnects :: int64
  ConnectTimeout :: int64

record Options = ConnectOptions +
  OutQueueSize :: int64
  WriteTimeout :: int64

definition DefaultOptions :: Options where
  "DefaultOptions = \<lparr>MaxQueuedConnects = DefaultQueuedConnects, MaxOutstandingConnects = DefaultOutstandingConnects,
     ConnectTimeout = DefaultConnectTimeout, OutQueueSize = DefaultOutQueueSize, WriteTimeout = 0\<rparr>"

definition DefaultConnectOptions :: ConnectOptions where
  "DefaultConnectOptions = \<lparr>MaxQueuedConnects = DefaultQueuedConnects, MaxOutstandingConnects = DefaultOutstandingConnects,
     ConnectTimeout = DefaultConnectTimeout\<rparr>"

text \<open>
  The queue size. \<open>toInt\<close> is the conversion of a \<^verbatim>\<open>float64\<close> to \<^verbatim>\<open>int\<close>; the
  bounds it is compared with are \<^verbatim>\<open>math.MinInt\<close> and \<^verbatim>\<open>math.MaxInt\<close> as \<^verbatim>\<open>float64\<close>
  constants, the second of which is \<open>2 ^ 63\<close>.
\<close>

definition loadQueueSize :: "(real \<Rightarrow> int64) \<Rightarrow> config_value \<Rightarrow> int64 res" where
  "loadQueueSize toInt value =
     rbind
       (case value of
          CInt v \<Rightarrow> Inr v
        | CFloat NaN \<Rightarrow> Inl (ErrText ''invalid outQueueSize: must be a whole number'')
        | CFloat PosInf \<Rightarrow> Inl (ErrText ''invalid outQueueSize: out of range'')
        | CFloat NegInf \<Rightarrow> Inl (ErrText ''invalid outQueueSize: out of range'')
        | CFloat (Finite v) \<Rightarrow>
            if v \<noteq> of_int \<lfloor>v\<rfloor> then Inl (ErrText ''invalid outQueueSize: must be a whole number'')
            else if v < - (2 ^ 63) \<or> v > 2 ^ 63 then Inl (ErrText ''invalid outQueueSize: out of range'')
            else Inr (toInt v)
        | _ \<Rightarrow> Inl (ErrText ''invalid outQueueSize: expected a number''))
       (\<lambda>size. if sint size < 0 then Inl (ErrText ''invalid outQueueSize: must not be negative'') else Inr size)"

definition parseField :: "(real \<Rightarrow> real) \<Rightarrow> string \<Rightarrow> config_value \<Rightarrow> int64 res" where
  "parseField rnd name value =
     (case value of
        CString strVal \<Rightarrow>
          (case ParseDuration rnd strVal of
             Some d \<Rightarrow> Inr d
           | None \<Rightarrow> Inl (ErrText (''invalid value for '' @ name)))
      | _ \<Rightarrow> Inl (ErrText (''invalid (non-string) value for '' @ name)))"

text \<open>
  The fields in order; the first error ends the load, with the fields before it set.
\<close>

definition Load :: "(real \<Rightarrow> real) \<Rightarrow> (real \<Rightarrow> int64) \<Rightarrow> config \<Rightarrow> Options \<Rightarrow> err option \<times> Options" where
  "Load rnd toInt data o0 =
     (case (case data ''outQueueSize'' of
              None \<Rightarrow> Inr o0
            | Some value \<Rightarrow> rbind (loadQueueSize toInt value) (\<lambda>size. Inr (o0\<lparr>OutQueueSize := size\<rparr>))) of
        Inl e \<Rightarrow> (Some e, o0)
      | Inr o1 \<Rightarrow>
          (let o2 = (case data ''maxQueuedConnects'' of Some (CInt n) \<Rightarrow> o1\<lparr>MaxQueuedConnects := n\<rparr> | _ \<Rightarrow> o1);
               o3 = (case data ''maxOutstandingConnects'' of Some (CInt n) \<Rightarrow> o2\<lparr>MaxOutstandingConnects := n\<rparr> | _ \<Rightarrow> o2)
           in case (case data ''connectTimeout'' of
                      Some value \<Rightarrow> rbind (parseField rnd ''connectTimeout'' value) (\<lambda>d. Inr (o3\<lparr>ConnectTimeout := d\<rparr>))
                    | None \<Rightarrow>
                        (case data ''connectTimeoutMs'' of
                           Some (CInt n) \<Rightarrow> Inr (o3\<lparr>ConnectTimeout := n * Millisecond\<rparr>)
                         | _ \<Rightarrow> Inr o3)) of
                Inl e \<Rightarrow> (Some e, o3)
              | Inr o4 \<Rightarrow>
                  (case data ''writeTimeout'' of
                     None \<Rightarrow> (None, o4)
                   | Some value \<Rightarrow>
                       (case parseField rnd ''writeTimeout'' value of
                          Inl e \<Rightarrow> (Some e, o4)
                        | Inr d \<Rightarrow> (None, o4\<lparr>WriteTimeout := d\<rparr>)))))"

definition LoadOptions :: "(real \<Rightarrow> real) \<Rightarrow> (real \<Rightarrow> int64) \<Rightarrow> config \<Rightarrow> Options res" where
  "LoadOptions rnd toInt data = (case Load rnd toInt data DefaultOptions of (Some e, _) \<Rightarrow> Inl e | (None, o') \<Rightarrow> Inr o')"

section \<open>Validation\<close>

definition validateQueueConnects :: "'a ConnectOptions_scheme \<Rightarrow> err option" where
  "validateQueueConnects co =
     (if sint (MaxQueuedConnects co) < sint MinQueuedConnects then Some (ErrText ''maxQueuedConnects must be at least'')
      else if sint (MaxQueuedConnects co) > sint MaxQueuedConnects' then Some (ErrText ''maxQueuedConnects must be at most'')
      else None)"

definition validateOutstandingConnects :: "'a ConnectOptions_scheme \<Rightarrow> err option" where
  "validateOutstandingConnects co =
     (if sint (MaxOutstandingConnects co) < sint MinOutstandingConnects then Some (ErrText ''maxOutstandingConnects must be at least'')
      else if sint (MaxOutstandingConnects co) > sint MaxOutstandingConnects' then Some (ErrText ''maxOutstandingConnects must be at most'')
      else None)"

definition validateConnectTimeout :: "'a ConnectOptions_scheme \<Rightarrow> err option" where
  "validateConnectTimeout co =
     (if sint (ConnectTimeout co) < sint MinConnectTimeout then Some (ErrText ''connectTimeoutMs must be at least'')
      else if sint (ConnectTimeout co) > sint MaxConnectTimeout then Some (ErrText ''connectTimeoutMs must be at most'')
      else None)"

definition Validate :: "'a ConnectOptions_scheme \<Rightarrow> err option" where
  "Validate co =
     (case validateConnectTimeout co of
        Some e \<Rightarrow> Some e
      | None \<Rightarrow>
          (case validateOutstandingConnects co of
             Some e \<Rightarrow> Some e
           | None \<Rightarrow> validateQueueConnects co))"

section \<open>Heartbeat options\<close>

record HeartbeatOptions =
  SendInterval :: int64
  CheckInterval :: int64
  CloseUnresponsiveTimeout :: int64

definition GetDuration :: "(real \<Rightarrow> real) \<Rightarrow> config \<Rightarrow> string \<Rightarrow> int64 option res" where
  "GetDuration rnd src name =
     (case src name of
        None \<Rightarrow> Inr None
      | Some value \<Rightarrow> rbind (parseField rnd name value) (\<lambda>d. Inr (Some d)))"

definition DefaultHeartbeatOptions :: HeartbeatOptions where
  "DefaultHeartbeatOptions = \<lparr>SendInterval = 10 * Second, CheckInterval = Second, CloseUnresponsiveTimeout = 30 * Second\<rparr>"

definition LoadHeartbeatOptions :: "(real \<Rightarrow> real) \<Rightarrow> config \<Rightarrow> HeartbeatOptions res" where
  "LoadHeartbeatOptions rnd data =
     (let options = DefaultHeartbeatOptions
      in rbind (GetDuration rnd data ''sendInterval'') (\<lambda>value.
           let options = (case value of None \<Rightarrow> options | Some d \<Rightarrow> options\<lparr>SendInterval := d\<rparr>)
           in rbind (GetDuration rnd data ''checkInterval'') (\<lambda>value.
                let options = (case value of None \<Rightarrow> options | Some d \<Rightarrow> options\<lparr>CheckInterval := d\<rparr>)
                in rbind (GetDuration rnd data ''closeUnresponsiveTimeout'') (\<lambda>value.
                     Inr (case value of None \<Rightarrow> options | Some d \<Rightarrow> options\<lparr>CloseUnresponsiveTimeout := d\<rparr>)))))"

section \<open>Properties\<close>

lemma digits [simp]: "n < 10 \<Longrightarrow> is_digit (char_of (48 + n))" "n < 10 \<Longrightarrow> digit (char_of (48 + n)) = n"
  by (simp_all add: is_digit_def digit_def)

lemma leadingInt_decimal: "n \<le> 2 ^ 63 \<Longrightarrow> leadingInt 0 (decimal n @ t) = leadingInt n t"
proof (induction n arbitrary: t rule: decimal.induct)
  case (1 n)
  show ?case
  proof (cases "n < 10")
    case False
    have "n div 10 \<le> 2 ^ 63 div 10" using 1(2) by (rule div_le_mono)
    moreover have "n div 10 \<le> 2 ^ 63" using 1(2) by (meson div_le_dividend le_trans)
    ultimately show ?thesis
      using False 1(2) 1(1) [OF False, of "char_of (48 + n mod 10) # t"]
      by (subst decimal.simps) (simp add: digits [of "n mod 10"])
  qed (subst decimal.simps, simp)
qed

lemma leadingInt_stop: "\<not> is_digit (hd s) \<Longrightarrow> leadingInt n s = Some (n, s)"
  by (cases s) simp_all

lemma decimal_not_Nil [simp]: "decimal n \<noteq> []"
  by (subst decimal.simps) simp

lemma hd_decimal: "is_digit (hd (decimal n))"
proof (induction n rule: decimal.induct)
  case (1 n)
  then show ?case by (cases "n < 10") (subst decimal.simps, simp)+
qed

definition duration_part :: "nat \<times> string \<Rightarrow> string" where
  "duration_part p = decimal (fst p) @ snd p"

lemma unitMap_unit:
  assumes "unitMap u = Some k"
  shows "u \<noteq> []" "list_all is_unit_char u" "0 < k"
  using assms by (auto simp: unitMap_def is_unit_char_def is_digit_def split: if_splits)

text \<open>A number with a unit, in front of nothing or of another number.\<close>

lemma durationPart_number:
  assumes "unitMap u = Some k" "n \<le> 2 ^ 63 div k" "t = [] \<or> is_digit (hd t)"
  shows "durationPart rnd (duration_part (n, u) @ t) = Some (n * k, t)"
proof -
  note u = unitMap_unit [OF assms(1)]
  have t: "takeWhile is_unit_char t = []" "dropWhile is_unit_char t = t"
    using assms(3) by (cases t; simp add: is_unit_char_def)+
  have all: "\<And>x. x \<in> set u \<Longrightarrow> is_unit_char x" using u(2) by (simp add: list_all_iff)
  have un: "takeWhile is_unit_char (u @ t) = u" "dropWhile is_unit_char (u @ t) = t"
    using takeWhile_append2 [of u is_unit_char t, OF all] dropWhile_append2 [of u is_unit_char t, OF all] t by simp_all
  have c: "is_unit_char (hd u)" "u @ t \<noteq> []" "hd (u @ t) = hd u" using all u(1) by simp_all
  have n: "n \<le> 2 ^ 63" using assms(2) by (meson div_le_dividend le_trans)
  have stop: "leadingInt n (u @ t) = Some (n, u @ t)"
    by (rule leadingInt_stop) (use c in \<open>simp add: is_unit_char_def\<close>)
  have li: "leadingInt 0 (duration_part (n, u) @ t) = Some (n, u @ t)"
    using leadingInt_decimal [OF n, of "u @ t"] stop by (simp add: duration_part_def)
  have nodot: "hd u \<noteq> CHR ''.''" using c(1) by (simp add: is_unit_char_def)
  have hd: "is_digit (hd (duration_part (n, u) @ t))" using hd_decimal by (simp add: duration_part_def)
  have len: "length (duration_part (n, u) @ t) \<noteq> length (u @ t)" by (simp add: duration_part_def)
  show ?thesis
    unfolding durationPart_def using hd li len c(2,3) nodot un u(1) assms(1) leD [OF assms(2)]
    by (simp only: Let_def if_True if_False option.case prod.case simp_thms less_irrefl)
qed

lemma parseParts_numbers:
  assumes "list_all (\<lambda>(n, u). unitMap u \<noteq> None) ps"
    and "d + (\<Sum>(n, u)\<leftarrow>ps. n * the (unitMap u)) \<le> 2 ^ 63"
  shows "parseParts rnd d (concat (map duration_part ps)) = Some (d + (\<Sum>(n, u)\<leftarrow>ps. n * the (unitMap u)))"
  using assms
proof (induction ps arbitrary: d)
  case Nil
  then show ?case by (simp add: parseParts.simps)
next
  case (Cons p ps)
  obtain n u k where p: "p = (n, u)" "unitMap u = Some k" using Cons.prems(1) by (cases p) auto
  let ?t = "concat (map duration_part ps)"
  have sum: "d + n * k + (\<Sum>(n, u)\<leftarrow>ps. n * the (unitMap u)) \<le> 2 ^ 63" using Cons.prems(2) p by simp
  have "n * k \<le> 2 ^ 63" using sum by linarith
  then have "n \<le> 2 ^ 63 div k" using unitMap_unit(3) [OF p(2)] by (simp add: less_eq_div_iff_mult_less_eq)
  moreover have "?t = [] \<or> is_digit (hd ?t)" using hd_decimal by (cases ps) (simp_all add: duration_part_def)
  ultimately have part: "durationPart rnd (duration_part p @ ?t) = Some (n * k, ?t)"
    using durationPart_number [OF p(2)] p(1) by blast
  have d: "(d + n * k) mod 2 ^ 64 = d + n * k" "\<not> 2 ^ 63 < d + n * k" using sum by simp_all
  have "duration_part p @ ?t \<noteq> []" by (simp add: duration_part_def)
  then have "parseParts rnd d (duration_part p @ ?t) = parseParts rnd (d + n * k) ?t"
    by (subst parseParts.simps) (simp only: part d if_False option.case prod.case Let_def)
  then show ?case using Cons.IH [of "d + n * k"] Cons.prems(1) sum p by simp
qed

text \<open>
  A duration means what it says: numbers with units, written one behind the other, are read as
  the sum of their values in nanoseconds, as long as it fits a duration.
\<close>

theorem ParseDuration_sums_parts:
  assumes "list_all (\<lambda>(n, u). unitMap u \<noteq> None) ps" "ps \<noteq> []" "(\<Sum>(n, u)\<leftarrow>ps. n * the (unitMap u)) < 2 ^ 63"
  shows "ParseDuration rnd (concat (map duration_part ps)) = Some (word_of_nat (\<Sum>(n, u)\<leftarrow>ps. n * the (unitMap u)))"
proof -
  let ?s = "concat (map duration_part ps)" and ?n = "\<Sum>(n, u)\<leftarrow>ps. n * the (unitMap u)"
  obtain p ps' where ps: "ps = p # ps'" using assms(2) by (cases ps) auto
  have u: "snd p \<noteq> []" using assms(1) unitMap_unit(1) [of "snd p"] ps by (auto simp: case_prod_beta)
  have s: "?s \<noteq> []" "is_digit (hd ?s)" "?s \<noteq> ''0''"
    using hd_decimal u by (simp_all add: ps duration_part_def append_eq_Cons_conv)
  have sign: "hd ?s \<noteq> CHR ''-''" "hd ?s \<noteq> CHR ''+''" using s(2) by (auto simp: is_digit_def)
  have "parseParts rnd 0 ?s = Some ?n" using parseParts_numbers [OF assms(1), of 0] assms(3) by simp
  then show ?thesis
    unfolding ParseDuration_def Let_def using s sign assms(3) by simp
qed

theorem ParseDuration_sums_parts_witness: "ParseDuration (\<lambda>x. x) ''1h30m'' = Some 5400000000000"
proof -
  have "concat (map duration_part [(1, ''h''), (30, ''m'')]) = ''1h30m''"
    by code_simp
  then show ?thesis
    using ParseDuration_sums_parts [of "[(1, ''h''), (30, ''m'')]" "\<lambda>x. x"] by (simp add: unitMap_def)
qed

lemma ParseDuration_ms:
  assumes "n * 1000000 < 2 ^ 63"
  shows "ParseDuration rnd (decimal n @ ''ms'') = Some (word_of_nat (n * 1000000))"
proof -
  have part: "durationPart rnd (decimal n @ ''ms'') = Some (n * 1000000, [])"
    using durationPart_number [of "''ms''" 1000000 n "[]" rnd] assms by (simp add: duration_part_def unitMap_def)
  have "parseParts rnd 0 (decimal n @ ''ms'') = Some (n * 1000000)"
    using assms by (subst parseParts.simps) (simp add: part parseParts.simps Let_def)
  moreover have "is_digit (hd (decimal n @ ''ms''))" "decimal n @ ''ms'' \<noteq> ''0''" using hd_decimal by (simp_all add: append_eq_Cons_conv)
  moreover have "hd (decimal n @ ''ms'') \<noteq> CHR ''-''" "hd (decimal n @ ''ms'') \<noteq> CHR ''+''"
    using calculation(2) by (auto simp: is_digit_def)
  ultimately show ?thesis unfolding ParseDuration_def Let_def using assms by simp
qed

text \<open>
  C40. The two ways to configure the connect timeout agree: a number of milliseconds under the old
  key gives the same options as the same number with its unit under the new one; and when both are
  given, the new one wins.
\<close>

theorem timeout_forms_agree:
  assumes "0 \<le> sint n" "sint n * 1000000 < 2 ^ 63" "data ''connectTimeout'' = None"
  shows "Load rnd toInt (data(''connectTimeout'' \<mapsto> CString (decimal (unat n) @ ''ms''))) opts =
      Load rnd toInt (data(''connectTimeoutMs'' \<mapsto> CInt n)) opts \<and>
    Load rnd toInt (data(''connectTimeoutMs'' \<mapsto> v, ''connectTimeout'' \<mapsto> CString (decimal (unat n) @ ''ms''))) opts =
      Load rnd toInt (data(''connectTimeoutMs'' \<mapsto> CInt n)) opts"
proof -
  have n: "int (unat n) = sint n" using sint_nonneg [OF assms(1)] .
  have "int (unat n * 1000000) < int (2 ^ 63)" using assms(2) n by simp
  then have lt: "unat n * 1000000 < 2 ^ 63" by (simp only: of_nat_less_iff)
  have "word_of_nat (unat n * 1000000) = n * Millisecond" by (simp add: Millisecond_def)
  then have "parseField rnd f (CString (decimal (unat n) @ ''ms'')) = Inr (n * Millisecond)" for f
    using ParseDuration_ms [OF lt, of rnd] by (simp add: parseField_def)
  then show ?thesis using assms(3) by (cases "case data ''outQueueSize'' of None \<Rightarrow> Inr opts
      | Some value \<Rightarrow> rbind (loadQueueSize toInt value) (\<lambda>size. Inr (opts\<lparr>OutQueueSize := size\<rparr>))") (simp_all add: Load_def Let_def)
qed

theorem timeout_forms_agree_witness:
  "Load (\<lambda>x. x) (\<lambda>x. 0) [''connectTimeout'' \<mapsto> CString (decimal 250 @ ''ms'')] DefaultOptions =
     (None, DefaultOptions\<lparr>ConnectTimeout := 250 * Millisecond\<rparr>)"
  using timeout_forms_agree [of 250 Map.empty "\<lambda>x. x" "\<lambda>x. 0" DefaultOptions COther] by (simp add: Load_def Let_def)

text \<open>The queue size that is accepted can size a Go channel, and is the number that was configured.\<close>

lemma Load_OutQueueSize:
  assumes "Load rnd toInt data opts = (None, opts')"
  shows "case data ''outQueueSize'' of
      None \<Rightarrow> OutQueueSize opts' = OutQueueSize opts
    | Some v \<Rightarrow> loadQueueSize toInt v = Inr (OutQueueSize opts')"
proof -
  have keep: "OutQueueSize (case x of Some (CInt n) \<Rightarrow> p\<lparr>MaxQueuedConnects := n\<rparr> | _ \<Rightarrow> p) = OutQueueSize p"
    "OutQueueSize (case x of Some (CInt n) \<Rightarrow> p\<lparr>MaxOutstandingConnects := n\<rparr> | _ \<Rightarrow> p) = OutQueueSize p" for x and p :: Options
    by (simp_all split: option.splits config_value.splits)
  have timeout: "OutQueueSize q = OutQueueSize p"
    if "(case x of Some value \<Rightarrow> rbind (parseField rnd f value) (\<lambda>d. Inr (p\<lparr>ConnectTimeout := d\<rparr>))
        | None \<Rightarrow> (case y of Some (CInt n) \<Rightarrow> Inr (p\<lparr>ConnectTimeout := n * Millisecond\<rparr>) | _ \<Rightarrow> Inr p)) = Inr q" for x y f and p q :: Options
    using that by (auto simp: rbind_def split: option.splits config_value.splits sum.splits)
  have write': "OutQueueSize q = OutQueueSize p"
    if "(case x of None \<Rightarrow> (None, p) | Some value \<Rightarrow> (case parseField rnd f value of Inl e \<Rightarrow> (Some e, p)
        | Inr d \<Rightarrow> (None, p\<lparr>WriteTimeout := d\<rparr>))) = (None, q)" for x f and p q :: Options
    using that by (auto split: option.splits sum.splits)
  obtain o1 where o1: "(case data ''outQueueSize'' of None \<Rightarrow> Inr opts
      | Some value \<Rightarrow> rbind (loadQueueSize toInt value) (\<lambda>size. Inr (opts\<lparr>OutQueueSize := size\<rparr>))) = Inr o1"
    using assms by (auto simp: Load_def split: sum.splits)
  have "OutQueueSize opts' = OutQueueSize o1"
    using assms unfolding Load_def o1 sum.case Let_def by (auto simp: keep dest!: timeout write' split: sum.splits)
  then show ?thesis using o1 by (auto simp: rbind_def split: option.splits sum.splits)
qed

lemma Load_queue_size:
  assumes "Load rnd toInt data opts = (None, opts')" "0 \<le> sint (OutQueueSize opts)"
    and "\<And>i. - (2 ^ 63) \<le> i \<Longrightarrow> i < 2 ^ 63 \<Longrightarrow> toInt (of_int i) = word_of_int i"
  shows "0 \<le> sint (OutQueueSize opts')"
    "data ''outQueueSize'' = Some (CFloat (Finite x)) \<Longrightarrow> x < 2 ^ 63 \<Longrightarrow> of_int (sint (OutQueueSize opts')) = x"
proof -
  have nonneg: "0 \<le> sint size" if "loadQueueSize toInt v = Inr size" for v size
    using that by (auto simp: loadQueueSize_def rbind_def split: sum.splits if_splits)
  show "0 \<le> sint (OutQueueSize opts')"
    using Load_OutQueueSize [OF assms(1)] assms(2) nonneg by (cases "data ''outQueueSize''") auto
next
  assume x: "data ''outQueueSize'' = Some (CFloat (Finite x))" "x < 2 ^ 63"
  have "loadQueueSize toInt (CFloat (Finite x)) = Inr (OutQueueSize opts')"
    using Load_OutQueueSize [OF assms(1)] x(1) by simp
  then have i: "x = of_int \<lfloor>x\<rfloor>" "- (2 ^ 63) \<le> x" "OutQueueSize opts' = toInt x"
    by (auto simp: loadQueueSize_def rbind_def split: if_splits)
  have r: "- (2 ^ 63) \<le> \<lfloor>x\<rfloor>" "\<lfloor>x\<rfloor> < 2 ^ 63" using i(2) x(2) by (simp_all add: le_floor_iff floor_less_iff)
  have "toInt x = word_of_int \<lfloor>x\<rfloor>" using assms(3) [OF r] i(1) by simp
  then have "sint (OutQueueSize opts') = \<lfloor>x\<rfloor>" using sint_64_eqI [OF r] i(3) by simp
  then show "of_int (sint (OutQueueSize opts')) = x" using i(1) by simp
qed

text \<open>
  The range check compares with \<^verbatim>\<open>math.MaxInt\<close> as a \<^verbatim>\<open>float64\<close>, which is one too many:
  \<open>2 ^ 63\<close> itself passes, and what it becomes is left to the implementation.
\<close>

lemma queue_size_boundary:
  assumes "toInt (2 ^ 63) = word_of_int (2 ^ 63 - 1)"
  shows "loadQueueSize toInt (CFloat (Finite (2 ^ 63))) = Inr (word_of_int (2 ^ 63 - 1))"
  using assms by (simp add: loadQueueSize_def)

text \<open>The defaults are valid.\<close>

lemma DefaultOptions_valid: "Validate DefaultOptions = None" "Validate DefaultConnectOptions = None"
  by (simp_all add: Validate_def validateConnectTimeout_def validateOutstandingConnects_def validateQueueConnects_def
      DefaultOptions_def DefaultConnectOptions_def DefaultConnectTimeout_def DefaultOutstandingConnects_def
      DefaultQueuedConnects_def MinConnectTimeout_def MaxConnectTimeout_def MinOutstandingConnects_def
      MaxOutstandingConnects'_def MinQueuedConnects_def MaxQueuedConnects'_def Second_def Millisecond_def)

end
