(* ===== verification/Classic_Listener.thy ===== *)
theory Classic_Listener
  imports Hello Channel_Options
begin

text \<open>
  The life of the listener of \<^verbatim>\<open>classic_listener.go\<close>: its constructors with the
  configuration of the pool that runs the accepts, and the hand-over of acknowledged underlays to
  \<^verbatim>\<open>Create\<close> through the unbuffered channel \<^verbatim>\<open>created\<close>, as a step relation over the
  goroutines of the pool, the callers of \<^verbatim>\<open>Create\<close> and \<^verbatim>\<open>Close\<close>.
\<close>

section \<open>Construction\<close>

record pool_config =
  QueueSize :: uint32
  MinWorkers :: uint32
  MaxWorkers :: uint32
  IdleTime :: int64

record ListenerConfig =
  cfgConnect :: ConnectOptions
  cfgHeaders :: headers
  cfgHeadersF :: "headers option"
  PoolConfigurator :: "(pool_config \<Rightarrow> pool_config) option"
  ConnectionHandlers :: "(Hello \<Rightarrow> err option) list"

definition DefaultListenerConfig :: ListenerConfig where
  "DefaultListenerConfig = \<lparr>cfgConnect = DefaultConnectOptions, cfgHeaders = Map.empty, cfgHeadersF = None,
     PoolConfigurator = None, ConnectionHandlers = []\<rparr>"

definition listenerPoolConfig :: "ListenerConfig \<Rightarrow> pool_config" where
  "listenerPoolConfig config =
     (let poolConfig = \<lparr>QueueSize = ucast (MaxQueuedConnects (cfgConnect config)), MinWorkers = 1,
            MaxWorkers = ucast (MaxOutstandingConnects (cfgConnect config)), IdleTime = 10 * Second\<rparr>
      in case PoolConfigurator config of None \<Rightarrow> poolConfig | Some f \<Rightarrow> f poolConfig)"

text \<open>\<open>newPool\<close> is the constructor of the goroutine pool; its failure is a panic.\<close>

definition newClassicListener ::
    "(pool_config \<Rightarrow> 'p res) \<Rightarrow> string option \<Rightarrow> ListenerConfig \<Rightarrow> (classicListener \<times> listener_state \<times> 'p) res" where
  "newClassicListener newPool token config =
     (case newPool (listenerPoolConfig config) of
        Inl err \<Rightarrow> Inl GoPanic
      | Inr pool \<Rightarrow>
          Inr (\<lparr>listenerToken = token, listenerHeaders = cfgHeaders config, listenerHeadersF = cfgHeadersF config,
                listenerHandlers = ConnectionHandlers config\<rparr>,
               \<lparr>lclosed = False, lcloseC = False, lsocket = False, created = None\<rparr>, pool))"

text \<open>\<open>listenErr\<close> is the answer of the endpoint to \<^verbatim>\<open>Listen\<close>.\<close>

definition NewClassicListenerWithAcceptor ::
    "(pool_config \<Rightarrow> 'p res) \<Rightarrow> err option \<Rightarrow> string option \<Rightarrow> ListenerConfig \<Rightarrow> hello_acceptor
       \<Rightarrow> (classicListener \<times> listener_state \<times> 'p \<times> hello_acceptor) res" where
  "NewClassicListenerWithAcceptor newPool listenErr token config acceptor =
     rbind (newClassicListener newPool token config) (\<lambda>(l, st, pool).
       case Listen listenErr [] (l, st) of
         (Some err, _) \<Rightarrow> Inl err
       | (None, l, st) \<Rightarrow> Inr (l, st, pool, acceptor))"

definition NewClassicListenerF ::
    "(pool_config \<Rightarrow> 'p res) \<Rightarrow> err option \<Rightarrow> string option \<Rightarrow> ListenerConfig \<Rightarrow> hello_env \<Rightarrow> (classicUnderlay \<Rightarrow> classicUnderlay)
       \<Rightarrow> (classicListener \<times> listener_state \<times> 'p \<times> hello_acceptor) res" where
  "NewClassicListenerF newPool listenErr token config env f =
     NewClassicListenerWithAcceptor newPool listenErr token config (HelloAcceptorF env f)"

definition NewClassicListener ::
    "(pool_config \<Rightarrow> 'p res) \<Rightarrow> string option \<Rightarrow> ListenerConfig \<Rightarrow> (classicListener \<times> listener_state \<times> 'p) res" where
  "NewClassicListener newPool token config =
     rbind (newClassicListener newPool token config) (\<lambda>(l, st, pool). Inr (l, st\<lparr>created := Some None\<rparr>, pool))"

text \<open>
  Options that pass validation reach the pool as they are: the conversion to
  \<^verbatim>\<open>uint32\<close> does not change them, and the pool has room for at least one connection.
\<close>

theorem validated_pool_config:
  assumes "Validate (cfgConnect config) = None" "PoolConfigurator config = None"
  shows "uint (QueueSize (listenerPoolConfig config)) = sint (MaxQueuedConnects (cfgConnect config))"
    and "uint (MaxWorkers (listenerPoolConfig config)) = sint (MaxOutstandingConnects (cfgConnect config))"
    and "MinWorkers (listenerPoolConfig config) \<le> MaxWorkers (listenerPoolConfig config)"
proof -
  have conv: "uint (ucast x :: uint32) = sint x" if "0 \<le> sint x" "sint x \<le> 5000" for x :: int64
  proof -
    define i where "i = sint x"
    then have x: "x = word_of_int i" "i = sint x" by simp_all
    then have "0 \<le> i" "i \<le> 5000" using that by simp_all
    then have "uint x = i" using x(1) by (simp add: unsigned_of_int take_bit_int_eq_self)
    with \<open>0 \<le> i\<close> \<open>i \<le> 5000\<close> show ?thesis by (simp add: unsigned_ucast_eq take_bit_int_eq_self x(2))
  qed
  show "uint (QueueSize (listenerPoolConfig config)) = sint (MaxQueuedConnects (cfgConnect config))"
    using assms conv [of "MaxQueuedConnects (cfgConnect config)"]
    by (auto simp: listenerPoolConfig_def Validate_def validateQueueConnects_def MinQueuedConnects_def MaxQueuedConnects'_def
        split: option.splits if_splits)
  show w: "uint (MaxWorkers (listenerPoolConfig config)) = sint (MaxOutstandingConnects (cfgConnect config))"
    using assms conv [of "MaxOutstandingConnects (cfgConnect config)"]
    by (auto simp: listenerPoolConfig_def Validate_def validateOutstandingConnects_def MinOutstandingConnects_def
        MaxOutstandingConnects'_def split: option.splits if_splits)
  have "1 \<le> sint (MaxOutstandingConnects (cfgConnect config))"
    using assms(1) by (auto simp: Validate_def validateOutstandingConnects_def MinOutstandingConnects_def split: option.splits if_splits)
  then show "MinWorkers (listenerPoolConfig config) \<le> MaxWorkers (listenerPoolConfig config)"
    using assms(2) w by (simp add: listenerPoolConfig_def word_le_def)
qed


section \<open>Handing over underlays\<close>

text \<open>
  Where the connection of a pool goroutine and the call of a goroutine in \<^verbatim>\<open>Create\<close> are.
  The acceptor of \<^verbatim>\<open>NewClassicListener\<close> offers the acknowledged underlay on
  \<^verbatim>\<open>created\<close> until a caller takes it or the listener is closed.
\<close>

datatype conn_phase =
  NotAccepted | AckFailed classicUnderlay | Offering classicUnderlay | HandedTo nat classicUnderlay | Discarded classicUnderlay

datatype caller_phase = NotCalled | Creating | Returned nat classicUnderlay | ReturnedClosed err

record handover =
  lis :: listener_state
  conns :: "nat \<Rightarrow> conn_phase"
  callers :: "nat \<Rightarrow> caller_phase"

definition acceptPhase :: "hello_env \<Rightarrow> classicUnderlay \<Rightarrow> ack_fun \<Rightarrow> conn_phase" where
  "acceptPhase env underlay ack =
     (case ack underlay of
        (Some e, u) \<Rightarrow> AckFailed (snd (cu_Close env u))
      | (None, u) \<Rightarrow> Offering u)"

text \<open>
  The select of the acceptor: \<open>Some True\<close> when a caller in \<^verbatim>\<open>Create\<close> takes the underlay,
  \<open>Some False\<close> when the listener is closed, \<open>None\<close> while it blocks.
\<close>

definition offerSelect :: "nat \<Rightarrow> bool \<Rightarrow> listener_state \<Rightarrow> bool option" where
  "offerSelect pick taker l = sel pick ((if taker then [True] else []) @ (if lcloseC l then [False] else []))"

inductive ho_step :: "handover \<Rightarrow> handover \<Rightarrow> bool" where
  ho_listen: "Listen e hs (l, lis s) = (r, l', st) \<Longrightarrow> ho_step s (s\<lparr>lis := st\<rparr>)"
| ho_accept: "conns s i = NotAccepted \<Longrightarrow> ho_step s (s\<lparr>conns := (conns s)(i := acceptPhase env u ack)\<rparr>)"
| ho_call: "callers s c = NotCalled \<Longrightarrow> ho_step s (s\<lparr>callers := (callers s)(c := Creating)\<rparr>)"
| ho_take: "\<lbrakk>conns s i = Offering u; callers s c = Creating; offerSelect pick True (lis s) = Some True;
     listener_Create pick' ((lis s)\<lparr>created := Some (Some u)\<rparr>) = Some (Inr u)\<rbrakk>
   \<Longrightarrow> ho_step s (s\<lparr>conns := (conns s)(i := HandedTo c u), callers := (callers s)(c := Returned i u)\<rparr>)"
| ho_discard: "\<lbrakk>conns s i = Offering u; offerSelect pick taker (lis s) = Some False\<rbrakk>
   \<Longrightarrow> ho_step s (s\<lparr>conns := (conns s)(i := Discarded u)\<rparr>)"
| ho_refuse: "\<lbrakk>callers s c = Creating; off = None \<or> (\<exists>i u. off = Some u \<and> conns s i = Offering u);
     listener_Create pick ((lis s)\<lparr>created := Some off\<rparr>) = Some (Inl e)\<rbrakk>
   \<Longrightarrow> ho_step s (s\<lparr>callers := (callers s)(c := ReturnedClosed e)\<rparr>)"
| ho_close: "listener_Close err (lis s) = Inr (r, l) \<Longrightarrow> ho_step s (s\<lparr>lis := l\<rparr>)"

definition ho_init :: "handover \<Rightarrow> bool" where
  "ho_init s \<longleftrightarrow> (\<exists>newPool :: pool_config \<Rightarrow> unit res. \<exists>token config l pool. NewClassicListener newPool token config = Inr (l, lis s, pool)) \<and>
     conns s = (\<lambda>_. NotAccepted) \<and> callers s = (\<lambda>_. NotCalled)"

definition ho_inv :: "handover \<Rightarrow> bool" where
  "ho_inv s \<longleftrightarrow> lclosed (lis s) = lcloseC (lis s) \<and>
     (\<forall>i c u. conns s i = HandedTo c u \<longleftrightarrow> callers s c = Returned i u) \<and>
     (\<forall>c e. callers s c = ReturnedClosed e \<longrightarrow> e = ListenerClosedError \<and> lcloseC (lis s)) \<and>
     (\<forall>i u. conns s i = Discarded u \<longrightarrow> lcloseC (lis s))"

lemma NewClassicListener_open:
  "NewClassicListener newPool token config = Inr (l, st, pool) \<Longrightarrow> st = \<lparr>lclosed = False, lcloseC = False, lsocket = False, created = Some None\<rparr>"
  by (auto simp: NewClassicListener_def newClassicListener_def rbind_def split: sum.splits)

lemma ho_init_inv: "ho_init s \<Longrightarrow> ho_inv s"
  by (auto simp: ho_init_def ho_inv_def dest!: NewClassicListener_open)

lemma listener_Close_closes:
  "listener_Close err l = Inr (r, l') \<Longrightarrow> lclosed l = lcloseC l \<Longrightarrow> lclosed l' \<and> lcloseC l'"
  by (auto simp: listener_Close_def Let_def split: if_splits option.splits)

lemma Listen_keeps: "Listen e hs (l, st) = (r, l', st') \<Longrightarrow> lclosed st' = lclosed st \<and> lcloseC st' = lcloseC st"
  by (auto simp: Listen_def Let_def split: option.splits)

lemma offerSelect_False: "offerSelect pick taker l = Some False \<Longrightarrow> lcloseC l"
  using sel_in [of pick _ False] by (auto simp: offerSelect_def split: if_splits)

lemma Create_refused:
  "listener_Create pick (l\<lparr>created := Some off\<rparr>) = Some (Inl e) \<Longrightarrow> e = ListenerClosedError \<and> lcloseC l"
  using sel_in [of pick _ "Inl e"] by (fastforce simp: listener_Create_def split: if_splits option.splits)

lemma not_handed: "ho_inv s \<Longrightarrow> (\<And>c u. conns s i \<noteq> HandedTo c u) \<Longrightarrow> callers s c \<noteq> Returned i u"
  by (auto simp: ho_inv_def)

lemma ho_inv_step: "ho_inv s \<Longrightarrow> ho_step s t \<Longrightarrow> ho_inv t"
proof (erule ho_step.cases, goal_cases)
  case (1 e hs l s r l' st)
  then show ?case using Listen_keeps [of e hs l "lis s" r l' st] by (simp add: ho_inv_def)
next
  case (2 s i env u ack)
  then show ?case using not_handed [of s i] by (auto simp: ho_inv_def acceptPhase_def split: option.splits prod.splits)
next
  case (3 s c)
  then show ?case by (auto simp: ho_inv_def)
next
  case (4 s i u c pick pick')
  then show ?case using not_handed [of s i] by (auto simp: ho_inv_def)
next
  case (5 s i u pick taker)
  then show ?case using offerSelect_False [of pick taker "lis s"] not_handed [of s i] by (auto simp: ho_inv_def)
next
  case (6 s c off pick e)
  then show ?case using Create_refused [where l = "lis s"] by (auto simp: ho_inv_def)
next
  case (7 err s r l)
  then show ?case using listener_Close_closes [of err "lis s" r l] by (simp add: ho_inv_def)
qed

interpretation handing_over: inductive_invariant ho_init ho_step ho_inv
  by unfold_locales (rule ho_init_inv, assumption, rule ho_inv_step)

lemma closed_unblocks:
  assumes "lcloseC l"
  shows "offerSelect pick taker l \<noteq> None" "listener_Create pick (l\<lparr>created := Some off\<rparr>) \<noteq> None"
  using assms by (auto simp: offerSelect_def listener_Create_def)

text \<open>
  C27. Whatever the interleaving of accepts, calls of \<^verbatim>\<open>Create\<close> and calls of
  \<^verbatim>\<open>Close\<close>: an underlay is returned by at most one call of \<^verbatim>\<open>Create\<close> and each call
  returns at most one; a call fails only with the closed listener's error and an acknowledged
  underlay is dropped only once the listener is closed; and a closed listener leaves neither an
  accepting goroutine nor a caller blocked.
\<close>

theorem underlays_handed_over_once:
  assumes "reach ho_init ho_step s"
  shows "(callers s c = Returned i u \<longleftrightarrow> conns s i = HandedTo c u) \<and>
    (callers s c = ReturnedClosed e \<longrightarrow> e = ListenerClosedError \<and> lclosed (lis s)) \<and>
    (conns s i = Discarded u \<longrightarrow> lclosed (lis s)) \<and>
    (lclosed (lis s) \<longrightarrow> offerSelect pick taker (lis s) \<noteq> None \<and>
      listener_Create pick ((lis s)\<lparr>created := Some off\<rparr>) \<noteq> None)"
  using handing_over.reach_inv [OF assms] closed_unblocks [of "lis s"] by (auto simp: ho_inv_def)

text \<open>A connection is accepted and acknowledged, and the call of goroutine 1 gets its underlay.\<close>

definition sample_offered :: classicUnderlay where
  "sample_offered = underlayFactory False None \<lparr>cin = \<lparr>chunks = [], rfinal = ErrEOF\<rparr>, cout = [], cshut = False\<rparr> 2 0"

definition sample_start :: handover where
  "sample_start = \<lparr>lis = \<lparr>lclosed = False, lcloseC = False, lsocket = False, created = Some None\<rparr>,
     conns = (\<lambda>_. NotAccepted), callers = (\<lambda>_. NotCalled)\<rparr>"

definition sample_handed :: handover where
  "sample_handed = sample_start\<lparr>conns := (\<lambda>_. NotAccepted)(0 := HandedTo 1 sample_offered),
     callers := (\<lambda>_. NotCalled)(1 := Returned 0 sample_offered)\<rparr>"

lemma sample_handed_reached: "reach ho_init ho_step sample_handed"
proof -
  fix env :: hello_env
  let ?s1 = "sample_start\<lparr>conns := (conns sample_start)(0 := acceptPhase env sample_offered (\<lambda>u. (None, u)))\<rparr>"
  let ?s2 = "?s1\<lparr>callers := (callers ?s1)(1 := Creating)\<rparr>"
  have new: "NewClassicListener (\<lambda>_. Inr ()) None DefaultListenerConfig =
      Inr (\<lparr>listenerToken = None, listenerHeaders = Map.empty, listenerHeadersF = None, listenerHandlers = []\<rparr>, lis sample_start, ())"
    by (simp add: NewClassicListener_def newClassicListener_def sample_start_def DefaultListenerConfig_def)
  have "ho_init sample_start" unfolding ho_init_def using new by (intro conjI exI) (assumption, simp_all add: sample_start_def)
  then have r0: "reach ho_init ho_step sample_start" by (rule reach_init)
  have "ho_step sample_start ?s1" by (rule ho_accept) (simp add: sample_start_def)
  then have r1: "reach ho_init ho_step ?s1" by (rule reach_step [OF r0])
  have "ho_step ?s1 ?s2" by (rule ho_call) (simp add: sample_start_def)
  then have r2: "reach ho_init ho_step ?s2" by (rule reach_step [OF r1])
  have "ho_step ?s2 (?s2\<lparr>conns := (conns ?s2)(0 := HandedTo 1 sample_offered),
      callers := (callers ?s2)(1 := Returned 0 sample_offered)\<rparr>)"
  proof (rule ho_take [where pick = 0 and pick' = 0])
    show "conns ?s2 0 = Offering sample_offered" by (simp add: acceptPhase_def)
    show "callers ?s2 1 = Creating" by simp
    show "offerSelect 0 True (lis ?s2) = Some True" by (simp add: offerSelect_def sample_start_def)
    show "listener_Create 0 ((lis ?s2)\<lparr>created := Some (Some sample_offered)\<rparr>) = Some (Inr sample_offered)"
      by (simp add: listener_Create_def sample_start_def)
  qed
  then have "reach ho_init ho_step (?s2\<lparr>conns := (conns ?s2)(0 := HandedTo 1 sample_offered),
      callers := (callers ?s2)(1 := Returned 0 sample_offered)\<rparr>)" by (rule reach_step [OF r2])
  then show ?thesis by (simp add: sample_handed_def sample_start_def)
qed

theorem underlays_handed_over_once_witness:
  "reach ho_init ho_step sample_handed \<and> callers sample_handed 1 = Returned 0 sample_offered \<and>
   conns sample_handed 0 = HandedTo 1 sample_offered"
  using sample_handed_reached underlays_handed_over_once [OF sample_handed_reached, of 1 0 sample_offered]
  by (simp add: sample_handed_def)

end
