(* ===== verification/Heartbeat.thy ===== *)
theory Heartbeat
  imports Wire Go_Chan
begin

text \<open>
  \<^verbatim>\<open>heartbeater.go\<close>: heartbeats that travel in the headers of other messages, or alone when
  nothing else is sent. The transform handler (\<open>hb_Rx\<close>, \<open>hb_Tx\<close>) runs on the
  receive and transmit goroutines and only queues events; the pulse goroutine handles them. What
  the heartbeater calls (the callback, the channel, timers) is recorded in \<open>hb_log\<close>.
\<close>

section \<open>State\<close>

datatype heartbeatEvent =
    heartbeatTxEvent int64
  | heartbeatRxEvent int64
  | heartbeatRespTxEvent int64
  | heartbeatRespRxEvent int64
  | handleUnresponded

datatype hb_call =
    HeartbeatTx int64
  | HeartbeatRx int64
  | HeartbeatRespTx int64
  | HeartbeatRespRx int64
  | CheckHeartBeat
  | SendAndWait Message
  | SendIfFree Message
  | AfterFunc

record heartbeater =
  lastHeartbeatTx :: int64
  heartBeatIntervalNs :: int64
  unrespondedHeartbeat :: int64
  hb_events :: "heartbeatEvent gochan"
  reconfigC :: "int64 gochan"
  ticker :: int64
  hb_log :: "hb_call list"

definition hb_call :: "hb_call \<Rightarrow> heartbeater \<Rightarrow> heartbeater" where
  "hb_call x hb = hb\<lparr>hb_log := hb_log hb @ [x]\<rparr>"

text \<open>A ticker with an interval that is not positive panics when the pulse goroutine starts.\<close>

definition ConfigureHeartbeat :: "int64 \<Rightarrow> int64 \<Rightarrow> heartbeater res" where
  "ConfigureHeartbeat heartbeatInterval checkInterval =
     (let hb = \<lparr>lastHeartbeatTx = 0, heartBeatIntervalNs = heartbeatInterval, unrespondedHeartbeat = 0,
                hb_events = make_chan 4, reconfigC = make_chan 1, ticker = checkInterval, hb_log = []\<rparr>
      in if sint checkInterval \<le> 0 then Inl GoPanic else Inr hb)"

section \<open>Operations\<close>

text \<open>Drain what the pulse loop has not consumed, then send without blocking.\<close>

definition UpdateIntervals :: "int64 \<Rightarrow> int64 \<Rightarrow> heartbeater \<Rightarrow> heartbeater" where
  "UpdateIntervals sendInterval checkInterval hb =
     (let hb = hb\<lparr>heartBeatIntervalNs := sendInterval\<rparr>;
          hb = (case chan_recv (reconfigC hb) of None \<Rightarrow> hb | Some (_, c) \<Rightarrow> hb\<lparr>reconfigC := c\<rparr>)
      in case chan_send checkInterval (reconfigC hb) of None \<Rightarrow> hb | Some c \<Rightarrow> hb\<lparr>reconfigC := c\<rparr>)"

definition queueEvent :: "heartbeatEvent \<Rightarrow> heartbeater \<Rightarrow> heartbeater" where
  "queueEvent event hb = (case chan_send event (hb_events hb) of None \<Rightarrow> hb | Some c \<Rightarrow> hb\<lparr>hb_events := c\<rparr>)"

definition hb_Rx :: "Message \<Rightarrow> heartbeater \<Rightarrow> heartbeater" where
  "hb_Rx m hb =
     (let (val, found) = GetUint64Header HeartbeatHeader (Headers m);
          hb = (if found then queueEvent (heartbeatRxEvent val) hb else hb);
          (val, found) = GetUint64Header HeartbeatResponseHeader (Headers m)
      in if found then queueEvent (heartbeatRespRxEvent val) hb else hb)"

definition due :: "int64 \<Rightarrow> heartbeater \<Rightarrow> bool" where
  "due now hb \<longleftrightarrow> sint (now - lastHeartbeatTx hb) > sint (heartBeatIntervalNs hb)"

definition hb_Tx :: "int64 \<Rightarrow> Message \<Rightarrow> heartbeater \<Rightarrow> Message \<times> heartbeater" where
  "hb_Tx now m hb =
     (if ContentType m = ContentTypeRaw then (m, hb)
      else
        (let (m, hb) = (if due now hb
                        then (m\<lparr>Headers := PutUint64Header HeartbeatHeader now (Headers m)\<rparr>,
                              queueEvent (heartbeatTxEvent now) (hb\<lparr>lastHeartbeatTx := now\<rparr>))
                        else (m, hb));
             unresponded = unrespondedHeartbeat hb
         in if unresponded \<noteq> 0
            then (m\<lparr>Headers := PutUint64Header HeartbeatResponseHeader unresponded (Headers m)\<rparr>,
                  queueEvent (heartbeatRespTxEvent now) (hb\<lparr>unrespondedHeartbeat := 0\<rparr>))
            else (m, hb)))"

text \<open>
  The standalone messages. They carry no heartbeat themselves: the transform handler adds it when
  they are written. Their errors are only logged.
\<close>

definition sendHeartbeat :: "heartbeater \<Rightarrow> heartbeater" where
  "sendHeartbeat hb = hb_call (SendAndWait (NewMessage ContentTypeHeartbeat [])) hb"

definition sendHeartbeatIfQueueFree :: "heartbeater \<Rightarrow> heartbeater" where
  "sendHeartbeatIfQueueFree hb = hb_call (SendIfFree (NewMessage ContentTypeHeartbeat [])) hb"

fun handle :: "heartbeatEvent \<Rightarrow> heartbeater \<Rightarrow> heartbeater" where
  "handle (heartbeatTxEvent h) hb = hb_call (HeartbeatTx h) hb"
| "handle (heartbeatRxEvent h) hb = hb_call AfterFunc (hb_call (HeartbeatRx h) (hb\<lparr>unrespondedHeartbeat := h\<rparr>))"
| "handle (heartbeatRespTxEvent h) hb = hb_call (HeartbeatRespTx h) hb"
| "handle (heartbeatRespRxEvent h) hb = hb_call (HeartbeatRespRx h) hb"
| "handle handleUnresponded hb = (if unrespondedHeartbeat hb \<noteq> 0 then sendHeartbeatIfQueueFree hb else hb)"

text \<open>
  One turn of the pulse loop: the select takes a tick, an event or a new interval; \<open>None\<close>
  when the chosen channel has nothing.
\<close>

datatype pulse_case = Tick int64 | Event | Reconfig

fun pulse_turn :: "pulse_case \<Rightarrow> heartbeater \<Rightarrow> heartbeater option" where
  "pulse_turn (Tick now) hb =
     Some (hb_call CheckHeartBeat
       (if sint (now - lastHeartbeatTx hb) > sint (heartBeatIntervalNs hb) then sendHeartbeat hb else hb))"
| "pulse_turn Event hb =
     (case chan_recv (hb_events hb) of None \<Rightarrow> None | Some (event, c) \<Rightarrow> Some (handle event (hb\<lparr>hb_events := c\<rparr>)))"
| "pulse_turn Reconfig hb =
     (case chan_recv (reconfigC hb) of
        None \<Rightarrow> None
      | Some (newCheckInterval, c) \<Rightarrow>
          let hb = hb\<lparr>reconfigC := c\<rparr>
          in Some (if sint newCheckInterval > 0 then hb\<lparr>ticker := newCheckInterval\<rparr> else hb))"

text \<open>The loop over turns; a turn is tried only while the channel is open.\<close>

fun pulse :: "(bool \<times> pulse_case) list \<Rightarrow> heartbeater \<Rightarrow> heartbeater" where
  "pulse [] hb = hb"
| "pulse ((closed, x) # xs) hb =
     (if closed then hb else case pulse_turn x hb of None \<Rightarrow> pulse xs hb | Some hb' \<Rightarrow> pulse xs hb')"

section \<open>Lemmas\<close>

lemma queueEvent_simps [simp]:
  "lastHeartbeatTx (queueEvent e hb) = lastHeartbeatTx hb" "heartBeatIntervalNs (queueEvent e hb) = heartBeatIntervalNs hb"
  "unrespondedHeartbeat (queueEvent e hb) = unrespondedHeartbeat hb" "hb_log (queueEvent e hb) = hb_log hb"
  "reconfigC (queueEvent e hb) = reconfigC hb" "ticker (queueEvent e hb) = ticker hb"
  by (simp_all add: queueEvent_def split: option.splits)

lemma hb_call_simps [simp]:
  "lastHeartbeatTx (hb_call x hb) = lastHeartbeatTx hb" "heartBeatIntervalNs (hb_call x hb) = heartBeatIntervalNs hb"
  "unrespondedHeartbeat (hb_call x hb) = unrespondedHeartbeat hb" "hb_events (hb_call x hb) = hb_events hb"
  "hb_log (hb_call x hb) = hb_log hb @ [x]" "reconfigC (hb_call x hb) = reconfigC hb" "ticker (hb_call x hb) = ticker hb"
  by (simp_all add: hb_call_def)

lemma queueEvent_room [simp]:
  "can_send (hb_events hb) \<Longrightarrow> buffer (hb_events (queueEvent e hb)) = buffer (hb_events hb) @ [e]"
  by (simp add: queueEvent_def chan_send_def)

lemma GetUint64_PutUint64 [simp]:
  "GetUint64Header k (PutUint64Header k v h) = (v, True)"
  "k' \<noteq> k \<Longrightarrow> GetUint64Header k' (PutUint64Header k v h) = GetUint64Header k' h"
  "k' \<noteq> k \<Longrightarrow> PutUint64Header k v h k' = h k'"
  using uint64_header.get_put uint64_header.put_other by (simp_all add: GetUint64Header_def)

lemma heartbeat_keys [simp]:
  "HeartbeatHeader \<noteq> HeartbeatResponseHeader" "HeartbeatResponseHeader \<noteq> HeartbeatHeader"
  "HeartbeatHeader \<noteq> ReplyForHeader" "HeartbeatResponseHeader \<noteq> ReplyForHeader"
  by (simp_all add: header_keys)

text \<open>What a written message carries.\<close>

lemma hb_Tx_result:
  assumes "ContentType m \<noteq> ContentTypeRaw"
  shows "due now hb \<Longrightarrow> GetUint64Header HeartbeatHeader (Headers (fst (hb_Tx now m hb))) = (now, True)"
    "unrespondedHeartbeat hb \<noteq> 0 \<Longrightarrow>
       GetUint64Header HeartbeatResponseHeader (Headers (fst (hb_Tx now m hb))) = (unrespondedHeartbeat hb, True)"
    "unrespondedHeartbeat (snd (hb_Tx now m hb)) = 0"
    "lastHeartbeatTx (snd (hb_Tx now m hb)) = (if due now hb then now else lastHeartbeatTx hb)"
    "heartBeatIntervalNs (snd (hb_Tx now m hb)) = heartBeatIntervalNs hb"
  using assms by (simp_all add: hb_Tx_def Let_def)

text \<open>The update of the check interval: the latest request is the one the pulse loop sees.\<close>

lemma UpdateIntervals_latest:
  assumes "capacity (reconfigC hb) = 1" "waiting (reconfigC hb) = 0" "length (buffer (reconfigC hb)) \<le> 1"
  shows "buffer (reconfigC (UpdateIntervals si ci hb)) = [ci]" "heartBeatIntervalNs (UpdateIntervals si ci hb) = si"
  using assms
  by (cases "buffer (reconfigC hb)"; simp add: UpdateIntervals_def chan_recv_def chan_send_def can_send_def Let_def)+

lemma retune_takes_effect:
  assumes "capacity (reconfigC hb) = 1" "waiting (reconfigC hb) = 0" "length (buffer (reconfigC hb)) \<le> 1" "0 < sint ci"
  shows "\<exists>hb'. pulse_turn Reconfig (UpdateIntervals si ci hb) = Some hb' \<and> ticker hb' = ci"
  using UpdateIntervals_latest(1) [OF assms(1-3)] assms(4) by (simp add: chan_recv_def Let_def)

section \<open>Properties\<close>

text \<open>
  A message read from a stream that starts with it. \<open>ReadV2\<close> and \<open>MarshalV2\<close> are
  the two ends of the connection between two heartbeaters.
\<close>

lemma hb_Rx_events:
  assumes "GetUint64Header HeartbeatHeader (Headers m) = (v, True)" "can_send (hb_events hb)"
  shows "\<exists>es. buffer (hb_events (hb_Rx m hb)) = buffer (hb_events hb) @ heartbeatRxEvent v # es"
    "unrespondedHeartbeat (hb_Rx m hb) = unrespondedHeartbeat hb" "hb_log (hb_Rx m hb) = hb_log hb"
  using assms by (auto simp: hb_Rx_def Let_def case_prod_beta queueEvent_def chan_send_def)


definition sample_hb :: "int64 \<Rightarrow> heartbeater" where
  "sample_hb t0 = \<lparr>lastHeartbeatTx = t0, heartBeatIntervalNs = 5, unrespondedHeartbeat = 0, hb_events = make_chan 4,
     reconfigC = make_chan 1, ticker = 1, hb_log = []\<rparr>"

definition reader_of :: "bytes \<Rightarrow> reader" where
  "reader_of b = \<lparr>chunks = [b], rfinal = ErrEOF\<rparr>"

definition sample_beat :: Message where
  "sample_beat = fst (hb_Tx 9 (NewMessage 70 [1]) (sample_hb 2))"

definition sample_answer :: "Message \<times> heartbeater" where
  "sample_answer = hb_Tx 7 (NewMessage 70 [])
     (the (pulse_turn Event (hb_Rx (received sample_beat) (sample_hb 6))))"

lemma sample_beat_headers: "Headers sample_beat = [HeartbeatHeader \<mapsto> PutUint64 9]" "replyFor sample_beat = None" "Body sample_beat = [1]"
  by (simp_all add: sample_beat_def hb_Tx_def NewMessage_def ContentTypeRaw_def due_def sample_hb_def PutUint64Header_def
      queueEvent_def chan_send_def can_send_def make_chan_def)

lemma sample_answer_headers:
  "Headers (fst sample_answer) = [HeartbeatResponseHeader \<mapsto> PutUint64 9]" "replyFor (fst sample_answer) = None" "Body (fst sample_answer) = []"
  "unrespondedHeartbeat (snd sample_answer) = 0"
  by (simp_all add: sample_answer_def hb_Rx_def received_uint64 sample_beat_headers received_def putReplyFor_def GetUint64Header_def
      hb_Tx_def NewMessage_def ContentTypeRaw_def due_def sample_hb_def PutUint64Header_def PutUint64_def
      queueEvent_def chan_send_def can_send_def make_chan_def chan_recv_def hb_call_def)

lemma sample_beat_ok:
  "enumerates [HeartbeatHeader] (Headers (putReplyFor sample_beat))" "frame_fits [HeartbeatHeader] sample_beat"
  "enumerates [HeartbeatResponseHeader] (Headers (putReplyFor (fst sample_answer)))"
  "frame_fits [HeartbeatResponseHeader] (fst sample_answer)"
  by (auto simp: enumerates_def frame_fits_def putReplyFor_def sample_beat_headers sample_answer_headers Let_def split: if_splits)


text \<open>
  The messages of a run, with the times at which they are written, and the times at which one of
  them carried a heartbeat.
\<close>

fun beats :: "(int64 \<times> Message) list \<Rightarrow> heartbeater \<Rightarrow> int64 list" where
  "beats [] hb = []"
| "beats ((now, m) # xs) hb =
     (case hb_Tx now m hb of (m', hb') \<Rightarrow>
        if lastHeartbeatTx hb' \<noteq> lastHeartbeatTx hb then now # beats xs hb' else beats xs hb')"

lemma sint_diff:
  fixes a b :: int64
  assumes "0 \<le> sint a" "sint a \<le> sint b"
  shows "sint (b - a) = sint b - sint a"
proof -
  have "b - a = word_of_int (sint b - sint a)" by simp
  moreover have "sint b < 2 ^ 63" using sint_lt [of b] by simp
  ultimately show ?thesis using assms by (simp only:) (rule sint_64_eqI; linarith)
qed

lemma hb_Tx_keeps: "ContentType m = ContentTypeRaw \<Longrightarrow> hb_Tx now m hb = (m, hb)"
  by (simp add: hb_Tx_def)

lemma beats_spaced:
  assumes "sorted (map (sint \<circ> fst) xs)" "\<And>x. x \<in> set xs \<Longrightarrow> sint (lastHeartbeatTx hb) \<le> sint (fst x)"
    and "0 \<le> sint (lastHeartbeatTx hb)" "0 \<le> sint (heartBeatIntervalNs hb)"
  shows "successively (\<lambda>x y. sint x + sint (heartBeatIntervalNs hb) < sint y) (lastHeartbeatTx hb # beats xs hb)"
  using assms
proof (induction xs arbitrary: hb)
  case (Cons x xs)
  obtain now m where x: "x = (now, m)" by (cases x)
  let ?hb = "snd (hb_Tx now m hb)"
  have le: "sint (lastHeartbeatTx hb) \<le> sint now" using Cons.prems(2) [of x] x by simp
  have later: "sint now \<le> sint (fst y)" if "y \<in> set xs" for y using Cons.prems(1) that x by auto
  consider "lastHeartbeatTx ?hb = lastHeartbeatTx hb"
    | "due now hb" "lastHeartbeatTx ?hb = now" "now \<noteq> lastHeartbeatTx hb"
    using hb_Tx_result(4) [of m now hb] hb_Tx_keeps [of m now hb] by (cases "ContentType m = ContentTypeRaw") (auto split: if_splits)
  then show ?case
  proof cases
    case 1
    have "heartBeatIntervalNs ?hb = heartBeatIntervalNs hb"
      using hb_Tx_result(5) [of m now hb] hb_Tx_keeps [of m now hb] by (cases "ContentType m = ContentTypeRaw") auto
    then show ?thesis using Cons.IH [of ?hb] Cons.prems 1 x by (simp add: case_prod_beta)
  next
    case 2
    have iv: "heartBeatIntervalNs ?hb = heartBeatIntervalNs hb"
      using hb_Tx_result(5) [of m now hb] hb_Tx_keeps [of m now hb] by (cases "ContentType m = ContentTypeRaw") auto
    have "sint (heartBeatIntervalNs hb) < sint now - sint (lastHeartbeatTx hb)"
      using 2(1) sint_diff [OF Cons.prems(3) le] by (simp add: due_def)
    moreover have "successively (\<lambda>x y. sint x + sint (heartBeatIntervalNs hb) < sint y) (now # beats xs ?hb)"
      using Cons.IH [of ?hb] Cons.prems(1,3,4) later le 2(2) iv x by simp
    ultimately show ?thesis using 2 x by (simp add: case_prod_beta)
  qed
qed simp



text \<open>
  An idle channel beats: when a heartbeat is overdue at a tick, the pulse goroutine sends a
  message of its own, and that message carries the heartbeat when it is written, at any later
  time.
\<close>

theorem idle_channel_beats:
  assumes "0 \<le> sint (lastHeartbeatTx hb)" "sint (lastHeartbeatTx hb) \<le> sint tick" "sint tick \<le> sint now"
    and "sint (heartBeatIntervalNs hb) < sint tick - sint (lastHeartbeatTx hb)" "pulse_turn (Tick tick) hb = Some hb'"
  shows "\<exists>m. hb_log hb' = hb_log hb @ [SendAndWait m, CheckHeartBeat] \<and>
    GetUint64Header HeartbeatHeader (Headers (fst (hb_Tx now m hb'))) = (now, True)"
proof -
  let ?m = "NewMessage ContentTypeHeartbeat []"
  have hb': "hb' = hb_call CheckHeartBeat (hb_call (SendAndWait ?m) hb)"
    using assms(4,5) sint_diff [OF assms(1,2)] by (simp add: sendHeartbeat_def)
  have "due now hb'"
    using assms(3,4) sint_diff [OF assms(1), of now] assms(2) by (simp add: due_def hb')
  moreover have "ContentType ?m \<noteq> ContentTypeRaw" by (simp add: NewMessage_def ContentTypeHeartbeat_def ContentTypeRaw_def)
  ultimately show ?thesis using hb_Tx_result(1) [of ?m now hb'] by (intro exI [of _ ?m]) (simp add: hb')
qed

theorem idle_channel_beats_witness:
  "\<exists>m. hb_log (the (pulse_turn (Tick 9) (sample_hb 2))) = [SendAndWait m, CheckHeartBeat]"
  using idle_channel_beats [of "sample_hb 2" 9 10 "the (pulse_turn (Tick 9) (sample_hb 2))"] by (auto simp: sample_hb_def)

end
