(* ===== verification/Latency.thy ===== *)
theory Latency
  imports Wire Go_Chan
begin

text \<open>
  \<^verbatim>\<open>latency/latency.go\<close>: probes that carry their send time in the reflected header, and the
  handlers that send it back. The clock, the closed state of the channel and the outcome of a send
  are arguments; calls to the application's handlers and messages handed to the channel are
  returned as events.
\<close>

definition probeTime :: int32 where
  "probeTime = ReflectedHeader"

section \<open>The answering handler\<close>

text \<open>
  \<^verbatim>\<open>LatencyHandler\<close>: the receive goroutines of the underlays call it concurrently. A call
  that finds a response in flight takes its increment back in a second step (\<open>Refusing\<close>);
  \<open>sending\<close> are the responses of the goroutines it started.
\<close>

datatype receiver = Idle | Refusing

record LatencyHandler =
  responses :: int32
  receivers :: "receiver list"
  sending :: "Message list"

definition latencyResult :: "Message \<Rightarrow> Message" where
  "latencyResult msg = ReplyTo msg (NewResult True [])"

definition handler_HandleReceive :: "nat \<Rightarrow> Message \<Rightarrow> LatencyHandler \<Rightarrow> LatencyHandler" where
  "handler_HandleReceive i msg h =
     (let count = responses h + 1;
          h = h\<lparr>responses := count\<rparr>
      in if sint count < 2 then h\<lparr>sending := sending h @ [latencyResult msg]\<rparr>
         else h\<lparr>receivers := (receivers h)[i := Refusing]\<rparr>)"

definition handler_refuse :: "nat \<Rightarrow> LatencyHandler \<Rightarrow> LatencyHandler" where
  "handler_refuse i h = h\<lparr>responses := responses h - 1, receivers := (receivers h)[i := Idle]\<rparr>"

text \<open>The deferred decrement of a started goroutine, whether its send failed or not.\<close>

definition handler_sent :: "nat \<Rightarrow> LatencyHandler \<Rightarrow> LatencyHandler" where
  "handler_sent j h = h\<lparr>responses := responses h - 1, sending := take j (sending h) @ drop (Suc j) (sending h)\<rparr>"

inductive handler_step :: "LatencyHandler \<Rightarrow> LatencyHandler \<Rightarrow> bool" where
  receive: "i < length (receivers h) \<Longrightarrow> receivers h ! i = Idle \<Longrightarrow> handler_step h (handler_HandleReceive i msg h)"
| refuse: "i < length (receivers h) \<Longrightarrow> receivers h ! i = Refusing \<Longrightarrow> handler_step h (handler_refuse i h)"
| sent: "j < length (sending h) \<Longrightarrow> handler_step h (handler_sent j h)"

text \<open>A new handler, with as many receive goroutines as the counter can tell apart.\<close>

definition handler_init :: "LatencyHandler \<Rightarrow> bool" where
  "handler_init h \<longleftrightarrow> responses h = 0 \<and> sending h = [] \<and> list_all ((=) Idle) (receivers h) \<and> length (receivers h) < 2 ^ 31 - 1"

section \<open>The configurable probe\<close>

record ProbeConfig =
  hasResultHandler :: bool
  hasTimeoutHandler :: bool
  hasExitHandler :: bool

datatype probe_event = ProbeSent Message | ProbeResult int64 | ProbeTimeout | ProbeExit

definition probeRequest :: "int64 \<Rightarrow> Message" where
  "probeRequest now =
     (let request = NewMessage ContentTypeLatencyType []
      in request\<lparr>Headers := PutUint64Header probeTime now (Headers request)\<rparr>)"

text \<open>
  One turn of the loop: whether the channel is closed after the sleep, the send time, the outcome of
  \<^verbatim>\<open>SendForReply\<close>, the time then, and whether the channel is closed when it failed. The
  list is the turns so far: its end is a probe still running.
\<close>

record probe_turn =
  ptClosed :: bool
  ptSend :: int64
  ptReply :: "Message res"
  ptReceive :: int64
  ptClosedThen :: bool

fun ProbeLatencyConfigurable :: "ProbeConfig \<Rightarrow> probe_turn list \<Rightarrow> probe_event list" where
  "ProbeLatencyConfigurable config [] = []"
| "ProbeLatencyConfigurable config (t # ts) =
     (let exit = (if hasExitHandler config then [ProbeExit] else [])
      in if ptClosed t then exit
         else ProbeSent (probeRequest (ptSend t)) #
           (case ptReply t of
              Inl e \<Rightarrow>
                if ptClosedThen t then exit
                else (if IsTimeout e \<and> hasTimeoutHandler config then [ProbeTimeout] else []) @ ProbeLatencyConfigurable config ts
            | Inr response \<Rightarrow>
                (case GetUint64Header probeTime (Headers response) of
                   (sentTime, True) \<Rightarrow> (if hasResultHandler config then [ProbeResult (ptReceive t - sentTime)] else [])
                 | (_, False) \<Rightarrow> []) @ ProbeLatencyConfigurable config ts))"

section \<open>The latency probe\<close>

datatype latency_sample = RoundTripType int64 | BeforeSendType int64

datatype probe_sendable = RoundTripLatency Message | SendTimeTracker int64

record latencyProbe =
  roundTripFreq :: byte
  count :: byte
  probesSent :: "probe_sendable list"

definition newLatencyProbe :: "byte \<Rightarrow> latencyProbe" where
  "newLatencyProbe freq = \<lparr>roundTripFreq = freq, count = 0, probesSent = []\<rparr>"

definition latencyProbe_HandleReceive :: "int64 \<Rightarrow> Message \<Rightarrow> latency_sample list" where
  "latencyProbe_HandleReceive now m =
     (case GetUint64Header probeTime (Headers m) of
        (sentTime, True) \<Rightarrow> [RoundTripType (now - sentTime)]
      | (_, False) \<Rightarrow> [])"

text \<open>The result says whether \<^verbatim>\<open>time.AfterFunc\<close> schedules the next run.\<close>

definition probe_run :: "bool \<Rightarrow> int64 \<Rightarrow> err option \<Rightarrow> bool \<Rightarrow> latencyProbe \<Rightarrow> bool \<times> latencyProbe" where
  "probe_run closed now sendErr closedThen p =
     (if closed then (False, p)
      else
        (let (s, p) = (if count p = roundTripFreq p
                       then (RoundTripLatency (NewMessage ContentTypeLatencyType []), p\<lparr>count := 0\<rparr>)
                       else (SendTimeTracker now, p));
             p = p\<lparr>probesSent := probesSent p @ [s]\<rparr>
         in if sendErr \<noteq> None \<and> closedThen then (False, p)
            else (True, p\<lparr>count := count p + 1\<rparr>)))"

text \<open>What the channel calls right before a probe is written: the send time goes into the message,
  or the time spent waiting is reported.\<close>

fun probe_NotifyBeforeWrite :: "int64 \<Rightarrow> probe_sendable \<Rightarrow> probe_sendable \<times> latency_sample list" where
  "probe_NotifyBeforeWrite now (RoundTripLatency m) =
     (RoundTripLatency (m\<lparr>Headers := PutUint64Header probeTime now (Headers m)\<rparr>), [])"
| "probe_NotifyBeforeWrite now (SendTimeTracker startTime) = (SendTimeTracker startTime, [BeforeSendType (now - startTime)])"

fun probe_SetSequence :: "int32 \<Rightarrow> probe_sendable \<Rightarrow> probe_sendable" where
  "probe_SetSequence s (RoundTripLatency m) = RoundTripLatency (SetSequence s m)"
| "probe_SetSequence s (SendTimeTracker startTime) = SendTimeTracker startTime"

fun probe_Msg :: "probe_sendable \<Rightarrow> Message option" where
  "probe_Msg (RoundTripLatency m) = Some m"
| "probe_Msg (SendTimeTracker startTime) = None"

section \<open>The responder\<close>

record Responder =
  responseChannel :: "Message gochan"
  respondedWith :: "Message list"

definition newResponder :: Responder where
  "newResponder = \<lparr>responseChannel = make_chan 1, respondedWith = []\<rparr>"

definition responder_HandleReceive :: "Message \<Rightarrow> Responder \<Rightarrow> Responder" where
  "responder_HandleReceive msg r =
     (case Headers msg probeTime of
        None \<Rightarrow> r
      | Some sentTime \<Rightarrow>
          (let resp = NewMessage ContentTypeLatencyResponseType [];
               resp = resp\<lparr>Headers := (Headers resp)(probeTime \<mapsto> sentTime)\<rparr>
           in case chan_send resp (responseChannel r) of
                Some c \<Rightarrow> r\<lparr>responseChannel := c\<rparr>
              | None \<Rightarrow> r))"

text \<open>
  A turn of \<^verbatim>\<open>responseSender\<close>: the select takes a response, whose send may fail, or a tick;
  \<open>None\<close> when there is no response to take. The boolean says whether the loop goes on.
\<close>

datatype sender_case = TakeResponse "err option" | SenderTick

fun responseSender_turn :: "bool \<Rightarrow> sender_case \<Rightarrow> Responder \<Rightarrow> (bool \<times> Responder) option" where
  "responseSender_turn closed (TakeResponse e) r =
     (case chan_recv (responseChannel r) of
        None \<Rightarrow> None
      | Some (response, c) \<Rightarrow>
          Some (\<not> (e \<noteq> None \<and> closed), r\<lparr>responseChannel := c, respondedWith := respondedWith r @ [response]\<rparr>))"
| "responseSender_turn closed SenderTick r = Some (\<not> closed, r)"

section \<open>One response at a time\<close>

definition refusing :: "LatencyHandler \<Rightarrow> nat" where
  "refusing h = length (filter ((=) Refusing) (receivers h))"

definition handler_inv :: "LatencyHandler \<Rightarrow> bool" where
  "handler_inv h \<longleftrightarrow> length (receivers h) < 2 ^ 31 - 1 \<and> length (sending h) \<le> 1 \<and>
     responses h = word_of_nat (length (sending h) + refusing h)"

lemma filter_update_count:
  "i < length xs \<Longrightarrow> xs ! i \<noteq> y \<Longrightarrow> length (filter ((=) y) (xs[i := y])) = Suc (length (filter ((=) y) xs))"
  "i < length xs \<Longrightarrow> xs ! i = y \<Longrightarrow> z \<noteq> y \<Longrightarrow> Suc (length (filter ((=) y) (xs[i := z]))) = length (filter ((=) y) xs)"
  by (induction xs arbitrary: i; auto simp: less_Suc_eq_0_disj)+

lemma refusing_bound: "i < length (receivers h) \<Longrightarrow> receivers h ! i = Idle \<Longrightarrow> refusing h < length (receivers h)"
  unfolding refusing_def by (rule length_filter_less [of "Idle"]) (auto simp: in_set_conv_nth)

lemma sint_small: "k < 2 ^ 31 \<Longrightarrow> sint (word_of_nat k :: int32) = int k"
  by (simp add: signed_of_nat signed_take_bit_int_eq_self)

lemma handler_inv_receive:
  assumes "handler_inv h" "i < length (receivers h)" "receivers h ! i = Idle"
  shows "handler_inv (handler_HandleReceive i msg h)"
proof -
  let ?k = "length (sending h) + refusing h"
  have k: "Suc ?k < 2 ^ 31" using assms(1) refusing_bound [OF assms(2,3)] by (simp add: handler_inv_def)
  have c: "responses h + 1 = word_of_nat (Suc ?k)" using assms(1) by (simp add: handler_inv_def)
  have s: "sint (responses h + 1) = int (Suc ?k)" unfolding c by (rule sint_small [OF k])
  show ?thesis
  proof (cases "?k = 0")
    case True
    then show ?thesis using assms(1) s c by (simp add: handler_HandleReceive_def handler_inv_def refusing_def)
  next
    case False
    then have n: "\<not> sint (responses h + 1) < 2" unfolding s by linarith
    have "handler_HandleReceive i msg h = h\<lparr>responses := word_of_nat (Suc ?k), receivers := (receivers h)[i := Refusing]\<rparr>"
      by (simp only: handler_HandleReceive_def Let_def n if_False) (simp add: c)
    then show ?thesis
      using assms filter_update_count(1) [OF assms(2), of Refusing] by (simp add: handler_inv_def refusing_def)
  qed
qed

lemma handler_inv_refuse:
  assumes "handler_inv h" "i < length (receivers h)" "receivers h ! i = Refusing"
  shows "handler_inv (handler_refuse i h)"
  using assms(1) filter_update_count(2) [OF assms(2,3), of Idle, symmetric]
  by (simp add: handler_refuse_def handler_inv_def refusing_def)

lemma handler_inv_sent: "handler_inv h \<Longrightarrow> j < length (sending h) \<Longrightarrow> handler_inv (handler_sent j h)"
  by (auto simp: handler_sent_def handler_inv_def refusing_def le_Suc_eq)

interpretation latency_handler: inductive_invariant handler_init handler_step handler_inv
proof (unfold_locales, goal_cases)
  case (1 h)
  then have "filter ((=) Refusing) (receivers h) = []" by (auto simp: handler_init_def list_all_iff filter_empty_conv)
  with 1 show ?case by (simp add: handler_init_def handler_inv_def refusing_def)
next
  case (2 h h')
  from 2(2,1) show ?case
    by cases (auto intro: handler_inv_receive handler_inv_refuse handler_inv_sent)
qed

text \<open>
  At most one latency response is in flight, whatever the interleaving of the receive goroutines
  and of the senders; and once no call and no response is under way, the counter is back at zero,
  so the next probe is answered.
\<close>

theorem one_latency_response_in_flight:
  assumes "reach handler_init handler_step h"
  shows "length (sending h) \<le> 1 \<and>
    (sending h = [] \<and> refusing h = 0 \<longrightarrow> sending (handler_HandleReceive i msg h) = [latencyResult msg])"
  using latency_handler.reach_inv [OF assms] by (auto simp: handler_inv_def handler_HandleReceive_def)

section \<open>How often a round trip is measured\<close>

text \<open>Runs of a probe on an open channel, at the given times.\<close>

fun probe_runs :: "int64 list \<Rightarrow> latencyProbe \<Rightarrow> latencyProbe" where
  "probe_runs [] p = p"
| "probe_runs (now # nows) p = probe_runs nows (snd (probe_run False now None False p))"

definition is_round_trip :: "probe_sendable \<Rightarrow> bool" where
  "is_round_trip s = (case s of RoundTripLatency _ \<Rightarrow> True | SendTimeTracker _ \<Rightarrow> False)"

definition round_trip_due :: "byte \<Rightarrow> nat \<Rightarrow> bool" where
  "round_trip_due freq i \<longleftrightarrow> (if freq = 0 then i mod 256 = 0 else 0 < i \<and> i mod unat freq = 0)"

text \<open>The counter before run \<open>i\<close>: it restarts at 1 behind a round trip.\<close>

definition count_at :: "byte \<Rightarrow> nat \<Rightarrow> nat" where
  "count_at freq i = (if freq = 0 then i mod 256 else if i = 0 then 0 else (i - 1) mod unat freq + 1)"

lemma byte_bound: "unat (f :: byte) < 256"
proof -
  have "unat f < 2 ^ LENGTH(8)" by (rule unsigned_less)
  then show ?thesis by simp
qed

lemma count_at_le: "count_at freq i < 256"
proof (cases "freq = 0")
  case False
  then have "(i - 1) mod unat freq < unat freq" by (simp add: unat_gt_0)
  with byte_bound [of freq] show ?thesis by (simp add: count_at_def)
qed (simp add: count_at_def)

lemma count_at_due: "unat freq = count_at freq i \<longleftrightarrow> round_trip_due freq i"
proof (cases "freq = 0 \<or> i = 0")
  case True
  then show ?thesis by (auto simp: count_at_def round_trip_due_def unat_eq_zero)
next
  case False
  then obtain j where j: "i = Suc j" "0 < unat freq" by (cases i) (auto simp: unat_gt_0)
  then show ?thesis using False
    by (simp add: count_at_def round_trip_due_def) (metis Suc_eq_plus1 mod_Suc nat.distinct(1))
qed

lemma count_at_Suc: "count_at freq (Suc i) = (if round_trip_due freq i then 1 else (count_at freq i + 1) mod 256)"
proof (cases "freq = 0")
  case True
  then show ?thesis by (simp add: count_at_def round_trip_due_def mod_Suc)
next
  case False
  then have f: "0 < unat freq" "unat freq < 256" using byte_bound by (simp_all add: unat_gt_0)
  show ?thesis
  proof (cases i)
    case (Suc j)
    have "j mod unat freq < unat freq" using f by simp
    with f have "j mod unat freq mod 256 = j mod unat freq" "j mod unat freq < 255" "Suc (j mod unat freq) \<le> unat freq" by simp_all
    then show ?thesis using False f Suc by (auto simp: count_at_def round_trip_due_def mod_Suc)
  qed (use False in \<open>simp add: count_at_def round_trip_due_def\<close>)
qed

lemma probe_run_at:
  assumes "count p = word_of_nat (count_at (roundTripFreq p) i)"
  shows "count (snd (probe_run False now None False p)) = word_of_nat (count_at (roundTripFreq p) (Suc i))"
    "roundTripFreq (snd (probe_run False now None False p)) = roundTripFreq p"
    "\<exists>s. probesSent (snd (probe_run False now None False p)) = probesSent p @ [s] \<and>
       is_round_trip s = round_trip_due (roundTripFreq p) i"
proof -
  let ?f = "roundTripFreq p"
  have c: "unat (count p) = count_at ?f i" using assms count_at_le [of ?f i] by (simp add: unat_of_nat)
  then have due: "count p = ?f \<longleftrightarrow> round_trip_due ?f i"
    by (metis count_at_due word_unat_eq_iff)
  have m: "word_of_nat (n mod 256) = (word_of_nat n :: byte)" for n
    by (simp add: word_unat_eq_iff unsigned_of_nat take_bit_eq_mod)
  show "roundTripFreq (snd (probe_run False now None False p)) = ?f"
    by (simp add: probe_run_def Let_def)
  show "count (snd (probe_run False now None False p)) = word_of_nat (count_at ?f (Suc i))"
    using due assms by (simp add: probe_run_def Let_def count_at_Suc m)
  show "\<exists>s. probesSent (snd (probe_run False now None False p)) = probesSent p @ [s] \<and> is_round_trip s = round_trip_due ?f i"
    using due by (simp add: probe_run_def Let_def is_round_trip_def)
qed

lemma probe_runs_at:
  assumes "count p = word_of_nat (count_at (roundTripFreq p) i)"
  shows "\<exists>ss. probesSent (probe_runs nows p) = probesSent p @ ss \<and>
    map is_round_trip ss = map (round_trip_due (roundTripFreq p)) [i..<i + length nows]"
  using assms
proof (induction nows arbitrary: p i)
  case (Cons now nows)
  let ?q = "snd (probe_run False now None False p)"
  note run = probe_run_at [OF Cons.prems, of now]
  obtain s where s: "probesSent ?q = probesSent p @ [s]" "is_round_trip s = round_trip_due (roundTripFreq p) i" using run(3) by blast
  obtain ss where "probesSent (probe_runs nows ?q) = probesSent ?q @ ss"
      "map is_round_trip ss = map (round_trip_due (roundTripFreq p)) [Suc i..<Suc i + length nows]"
    using Cons.IH [of ?q "Suc i"] run(1,2) by auto
  moreover have "[i..<i + length (now # nows)] = i # [Suc i..<Suc i + length nows]" by (simp add: upt_conv_Cons del: upt_Suc)
  ultimately show ?case using s by (intro exI [of _ "s # ss"]) (simp del: upt_Suc)
qed simp

text \<open>
  Round trips are measured at the configured frequency: with frequency \<open>f\<close> every \<open>f\<close>-th
  probe is a round trip and all others measure the time until they are sent. A frequency of 0 does
  not switch round trips off: the 8-bit counter makes it the first and then every 256th probe.
\<close>

theorem round_trip_frequency:
  "map is_round_trip (probesSent (probe_runs nows (newLatencyProbe freq))) = map (round_trip_due freq) [0..<length nows]"
  using probe_runs_at [of "newLatencyProbe freq" 0 nows] by (auto simp: newLatencyProbe_def count_at_def)

section \<open>What is measured\<close>

lemma probe_keys [simp]: "probeTime \<noteq> ReplyForHeader" "probeTime \<noteq> ResultSuccessHeader"
  by (simp_all add: probeTime_def header_keys)

lemma get_probeTime: "GetUint64Header k (PutUint64Header k v h) = (v, True)"
  using uint64_header.get_put by simp

lemma latencyResult_probeTime:
  "Headers msg probeTime = Some v \<Longrightarrow> Headers (latencyResult msg) probeTime = Some v"
  by (simp add: latencyResult_def Headers_ReplyTo probeTime_def)

text \<open>
  C33. A latency is the time of one round trip: a probe written at \<open>t0\<close> that reaches the far end
  over the wire and whose answer comes back over the wire at \<open>t1\<close> is reported as exactly
  \<open>t1 - t0\<close>, in whatever pieces the streams arrive and whatever clock the far end has; both
  for a \<^verbatim>\<open>Responder\<close> that has room for the answer and for a \<^verbatim>\<open>LatencyHandler\<close>,
  whose plain result gets the time by reflection.
\<close>

theorem latency_is_round_trip_time:
  assumes "probe_NotifyBeforeWrite t0 (probe_SetSequence s (RoundTripLatency (NewMessage ContentTypeLatencyType []))) =
      (RoundTripLatency probe, [])"
    and "enumerates ks (Headers (putReplyFor probe))" "frame_fits ks probe" "content r = fst (MarshalV2 ks probe) @ rest"
    and "fst (ReadV2 r) = Inr got"
    and "chan_recv (responseChannel (responder_HandleReceive got rs)) = Some (answer, c)" "buffer (responseChannel rs) = []"
      "can_send (responseChannel rs)"
    and "enumerates ks' (Headers (putReplyFor answer))" "frame_fits ks' answer" "content r' = fst (MarshalV2 ks' answer) @ rest'"
    and "fst (ReadV2 r') = Inr answered"
    and "enumerates ks'' (Headers (putReplyFor (latencyResult got)))" "frame_fits ks'' (latencyResult got)"
      "content r'' = fst (MarshalV2 ks'' (latencyResult got)) @ rest''"
    and "fst (ReadV2 r'') = Inr reply"
  shows "latencyProbe_HandleReceive t1 answered = [RoundTripType (t1 - t0)] \<and>
    ProbeLatencyConfigurable \<lparr>hasResultHandler = True, hasTimeoutHandler = x, hasExitHandler = y\<rparr>
      [\<lparr>ptClosed = False, ptSend = t0, ptReply = Inr reply, ptReceive = t1, ptClosedThen = z\<rparr>] =
      [ProbeSent (probeRequest t0), ProbeResult (t1 - t0)] \<and> probe = SetSequence s (probeRequest t0)"
proof -
  have probe: "probe = SetSequence s (probeRequest t0)"
    using assms(1) by (simp add: probeRequest_def Let_def NewMessage_def SetSequence_def)
  have got: "Headers got probeTime = Some (PutUint64 t0)"
    using ReadV2_of_frame [OF assms(2-4)] assms(5) probe
    by (simp add: probeRequest_def NewMessage_def SetSequence_def PutUint64Header_def received_headers)
  have "Headers answer probeTime = Some (PutUint64 t0)"
    using assms(6-8) got by (auto simp: responder_HandleReceive_def chan_send_def chan_recv_def NewMessage_def Let_def)
  then have answered: "GetUint64Header probeTime (Headers answered) = (t0, True)"
    using ReadV2_of_frame [OF assms(9-11)] assms(12) get_probeTime [of probeTime t0]
    by (simp add: GetUint64Header_def PutUint64Header_def received_headers)
  have "GetUint64Header probeTime (Headers reply) = (t0, True)"
    using ReadV2_of_frame [OF assms(13-15)] assms(16) latencyResult_probeTime [OF got] get_probeTime [of probeTime t0]
    by (simp add: GetUint64Header_def PutUint64Header_def received_headers)
  with answered probe show ?thesis by (simp add: latencyProbe_HandleReceive_def)
qed

text \<open>A probe sent at 5 whose answers arrive at 12.\<close>

definition sample_probe :: Message where
  "sample_probe = SetSequence 3 (probeRequest 5)"

definition sample_answer_to :: "Message \<Rightarrow> Message" where
  "sample_answer_to m = hd (buffer (responseChannel (responder_HandleReceive m newResponder)))"

definition chunked :: "bytes \<Rightarrow> reader" where
  "chunked b = \<lparr>chunks = [take 6 b, drop 6 b], rfinal = ErrEOF\<rparr>"

lemma content_chunked: "content (chunked b) = b @ []"
  by (simp add: chunked_def)

lemma probeRequest_simps [simp]:
  "replyFor (probeRequest t) = None" "Headers (probeRequest t) = [probeTime \<mapsto> PutUint64 t]" "Body (probeRequest t) = []"
  by (simp_all add: probeRequest_def Let_def NewMessage_def PutUint64Header_def)

lemma sample_probe_simps [simp]:
  "replyFor sample_probe = None" "Headers sample_probe = [probeTime \<mapsto> PutUint64 5]" "Body sample_probe = []"
  "sequence sample_probe = 3"
  by (simp_all add: sample_probe_def SetSequence_def)

lemma sample_probe_ok:
  "putReplyFor sample_probe = sample_probe" "received sample_probe = sample_probe"
  "enumerates [probeTime] (Headers (putReplyFor sample_probe))" "frame_fits [probeTime] sample_probe"
  by (simp_all add: putReplyFor_def received_def enumerates_def frame_fits_def Let_def PutUint64_def)

lemma sample_answer_simps:
  "Headers (sample_answer_to sample_probe) = [probeTime \<mapsto> PutUint64 5]" "replyFor (sample_answer_to sample_probe) = None"
  "Body (sample_answer_to sample_probe) = []"
  "\<exists>c. chan_recv (responseChannel (responder_HandleReceive sample_probe newResponder)) = Some (sample_answer_to sample_probe, c)"
  by (simp_all add: sample_answer_to_def responder_HandleReceive_def newResponder_def make_chan_def chan_send_def can_send_def
      chan_recv_def NewMessage_def)

lemma sample_answer_ok:
  "enumerates [probeTime] (Headers (putReplyFor (sample_answer_to sample_probe)))"
  "frame_fits [probeTime] (sample_answer_to sample_probe)"
  by (simp_all add: putReplyFor_def enumerates_def frame_fits_def Let_def PutUint64_def sample_answer_simps)

lemma sample_result_ok:
  "enumerates [128, 2, 1] (Headers (putReplyFor (latencyResult sample_probe)))"
  "frame_fits [128, 2, 1] (latencyResult sample_probe)"
proof -
  have "Headers (putReplyFor (latencyResult sample_probe)) =
      [ResultSuccessHeader \<mapsto> [1], ReflectedHeader \<mapsto> PutUint64 5, ReplyForHeader \<mapsto> PutUint32 3]"
    by (rule ext) (simp add: latencyResult_def putReplyFor_def ReplyTo_def NewResult_def NewMessage_def PutBoolHeader_def
        PutUint32Header_def probeTime_def header_keys)
  moreover have "Body (latencyResult sample_probe) = []"
    by (simp add: latencyResult_def NewResult_def NewMessage_def)
  ultimately show "enumerates [128, 2, 1] (Headers (putReplyFor (latencyResult sample_probe)))"
    "frame_fits [128, 2, 1] (latencyResult sample_probe)"
    by (auto simp: enumerates_def frame_fits_def header_keys Let_def PutUint64_def)
qed

theorem latency_is_round_trip_time_witness:
  "latencyProbe_HandleReceive 12 (received (sample_answer_to sample_probe)) = [RoundTripType 7]"
proof -
  have p: "probe_NotifyBeforeWrite 5 (probe_SetSequence 3 (RoundTripLatency (NewMessage ContentTypeLatencyType []))) = (RoundTripLatency sample_probe, [])"
    by (simp add: sample_probe_def probeRequest_def SetSequence_def NewMessage_def Let_def)
  note r = ReadV2_of_frame [OF _ _ content_chunked]
  obtain c where c: "chan_recv (responseChannel (responder_HandleReceive sample_probe newResponder)) =
      Some (sample_answer_to sample_probe, c)"
    using sample_answer_simps(4) by blast
  have n: "buffer (responseChannel newResponder) = []" "can_send (responseChannel newResponder)"
    by (simp_all add: newResponder_def make_chan_def can_send_def)
  show ?thesis
    using latency_is_round_trip_time [OF p sample_probe_ok(3,4) content_chunked r [OF sample_probe_ok(3,4), unfolded sample_probe_ok(2)]
        c n sample_answer_ok content_chunked r [OF sample_answer_ok] sample_result_ok content_chunked r [OF sample_result_ok], of 12]
    by simp
qed

end
