(* ===== verification/Tracing.thy ===== *)
theory Tracing
  imports Wire
begin

text \<open>
  Message traces: \<^verbatim>\<open>trace/write.go\<close>, \<^verbatim>\<open>trace/read.go\<close>, the handler of
  \<^verbatim>\<open>trace.go\<close> that writes them and the decoder of \<^verbatim>\<open>decoder.go\<close>. The protobuf
  encoding of an entry and the JSON encoding of decoded fields belong to other modules and are
  parameters. A trace file is its bytes.
\<close>

section \<open>Entries\<close>

record ChannelState =
  cs_Timestamp :: int64
  cs_Identity :: string
  cs_Channel :: string
  cs_Connected :: bool
  cs_RemoteAddress :: string

record ChannelMessage =
  cm_Timestamp :: int64
  cm_Identity :: string
  cm_Channel :: string
  cm_IsRx :: bool
  cm_ContentType :: int32
  cm_Sequence :: int32
  cm_ReplyFor :: int32
  cm_Length :: int32
  cm_Decode :: bytes

datatype trace_entry = StateEntry ChannelState | MessageEntry ChannelMessage

definition MessageType_ChannelStateType :: int32 where "MessageType_ChannelStateType = 0"
definition MessageType_ChannelMessageType :: int32 where "MessageType_ChannelMessageType = 1"

text \<open>\<^verbatim>\<open>proto.Marshal\<close> and \<^verbatim>\<open>proto.Unmarshal\<close> for the two kinds of entry.\<close>

record protobuf =
  marshalState :: "ChannelState \<Rightarrow> bytes res"
  unmarshalState :: "bytes \<Rightarrow> ChannelState res"
  marshalMessage :: "ChannelMessage \<Rightarrow> bytes res"
  unmarshalMessage :: "bytes \<Rightarrow> ChannelMessage res"

section \<open>Writing\<close>

text \<open>\<open>fw\<close> is the writer: how many bytes of the data it takes, and its error.\<close>

type_synonym file_writer = "bytes \<Rightarrow> nat \<times> err option"

definition writeOut :: "file_writer \<Rightarrow> bytes \<Rightarrow> bytes \<Rightarrow> err option \<times> bytes" where
  "writeOut fw out file =
     (case fw out of
        (n, Some e) \<Rightarrow> (Some e, file @ take n out)
      | (n, None) \<Rightarrow> (if n \<noteq> length out then Some (ErrText ''short write'') else None, file @ take n out))"

definition WriteChannelState :: "protobuf \<Rightarrow> file_writer \<Rightarrow> ChannelState \<Rightarrow> bytes \<Rightarrow> err option \<times> bytes" where
  "WriteChannelState pb fw s file =
     (case marshalState pb s of
        Inl e \<Rightarrow> (Some e, file)
      | Inr data \<Rightarrow>
          writeOut fw (PutUint32 MessageType_ChannelStateType @ PutUint32 (word_of_nat (length data)) @ data) file)"

definition WriteChannelMessage :: "protobuf \<Rightarrow> file_writer \<Rightarrow> ChannelMessage \<Rightarrow> bytes \<Rightarrow> err option \<times> bytes" where
  "WriteChannelMessage pb fw t file =
     (case marshalMessage pb t of
        Inl e \<Rightarrow> (Some e, file)
      | Inr data \<Rightarrow>
          writeOut fw (PutUint32 MessageType_ChannelMessageType @ PutUint32 (word_of_nat (length data)) @ data) file)"

section \<open>Reading\<close>

text \<open>\<^verbatim>\<open>os.File.Read\<close> on a regular file: as much as is left; only an empty buffer reads nothing at the end.\<close>

definition file_Read :: "nat \<Rightarrow> bytes \<Rightarrow> (bytes \<times> err option) \<times> bytes" where
  "file_Read n f = (if n > 0 \<and> f = [] then (([], Some ErrEOF), f) else ((take n f, None), drop n f))"

text \<open>A negative length makes \<^verbatim>\<open>make\<close> panic.\<close>

definition read_field :: "int32 \<Rightarrow> bytes \<Rightarrow> bytes res \<times> bytes" where
  "read_field n f =
     (if sint n < 0 then (Inl GoPanic, f)
      else case file_Read (nat (sint n)) f of
        ((_, Some e), f) \<Rightarrow> (Inl e, f)
      | ((b, None), f) \<Rightarrow> (if int (length b) \<noteq> sint n then Inl (ErrText ''short read'') else Inr b, f))"

definition decode_entry :: "protobuf \<Rightarrow> int32 \<Rightarrow> bytes \<Rightarrow> trace_entry res" where
  "decode_entry pb messageType data =
     (if messageType = MessageType_ChannelStateType then rbind (unmarshalState pb data) (\<lambda>cs. Inr (StateEntry cs))
      else if messageType = MessageType_ChannelMessageType then rbind (unmarshalMessage pb data) (\<lambda>cm. Inr (MessageEntry cm))
      else Inl (ErrText ''unexpected message''))"

text \<open>The entries handed to the handler, in order, and the error; the end of the file is no error.\<close>

function trace_Read :: "protobuf \<Rightarrow> (trace_entry \<Rightarrow> err option) \<Rightarrow> bytes \<Rightarrow> trace_entry list \<times> err option" where
  "trace_Read pb handle f =
     (case read_field 4 f of
        (Inl e, _) \<Rightarrow> ([], if e = ErrEOF then None else Some e)
      | (Inr typeData, f1) \<Rightarrow>
          (case read_field 4 f1 of
             (Inl e, _) \<Rightarrow> ([], Some e)
           | (Inr lenData, f2) \<Rightarrow>
               (case rbind (Uint32 typeData) (\<lambda>t. rbind (Uint32 lenData) (\<lambda>n. Inr (t, n))) of
                  Inl e \<Rightarrow> ([], Some e)
                | Inr (messageType, len) \<Rightarrow>
                    (case read_field len f2 of
                       (Inl e, _) \<Rightarrow> ([], Some e)
                     | (Inr data, f3) \<Rightarrow>
                         (case decode_entry pb messageType data of
                            Inl e \<Rightarrow> ([], Some e)
                          | Inr entry \<Rightarrow>
                              (case handle entry of
                                 Some e \<Rightarrow> ([entry], Some e)
                               | None \<Rightarrow> (let (es, e) = trace_Read pb handle f3 in (entry # es, e))))))))"
  by pat_completeness auto
termination
  by (relation "measure (\<lambda>(pb, handle, f). length f)")
    (auto simp: read_field_def file_Read_def split: if_splits)

declare trace_Read.simps [simp del]

section \<open>The trace handler\<close>

text \<open>A decoder returns the decoded message, possibly nil, and whether it knows the content type.\<close>

record TraceHandler =
  th_file :: bytes
  th_id :: string
  th_decoders :: "(Message \<Rightarrow> bytes \<times> bool) list"
  th_logTraces :: bool

text \<open>\<open>openErr\<close> is the error of opening the file, which truncates it.\<close>

definition NewTraceHandler :: "err option \<Rightarrow> string \<Rightarrow> TraceHandler res" where
  "NewTraceHandler openErr i =
     (case openErr of
        Some e \<Rightarrow> Inl e
      | None \<Rightarrow> Inr \<lparr>th_file = [], th_id = i, th_decoders = [], th_logTraces = False\<rparr>)"

definition AddDecoder :: "(Message \<Rightarrow> bytes \<times> bool) \<Rightarrow> TraceHandler \<Rightarrow> TraceHandler" where
  "AddDecoder decoder h = h\<lparr>th_decoders := th_decoders h @ [decoder]\<rparr>"

text \<open>Errors of writing are only logged. \<open>label\<close> is the channel's label.\<close>

definition trace_Connect :: "protobuf \<Rightarrow> file_writer \<Rightarrow> int64 \<Rightarrow> string \<Rightarrow> string \<Rightarrow> TraceHandler \<Rightarrow> TraceHandler" where
  "trace_Connect pb fw now label remoteAddress h =
     h\<lparr>th_file := snd (WriteChannelState pb fw
        \<lparr>cs_Timestamp = now, cs_Identity = th_id h, cs_Channel = label, cs_Connected = True,
         cs_RemoteAddress = remoteAddress\<rparr> (th_file h))\<rparr>"

definition trace_Close :: "protobuf \<Rightarrow> file_writer \<Rightarrow> int64 \<Rightarrow> string \<Rightarrow> TraceHandler \<Rightarrow> TraceHandler" where
  "trace_Close pb fw now label h =
     h\<lparr>th_file := snd (WriteChannelState pb fw
        \<lparr>cs_Timestamp = now, cs_Identity = th_id h, cs_Channel = label, cs_Connected = False,
         cs_RemoteAddress = []\<rparr> (th_file h))\<rparr>"

fun runDecoders :: "(Message \<Rightarrow> bytes \<times> bool) list \<Rightarrow> Message \<Rightarrow> bytes" where
  "runDecoders [] msg = []"
| "runDecoders (d # ds) msg = (case d msg of (str, True) \<Rightarrow> str | (_, False) \<Rightarrow> runDecoders ds msg)"

definition traceMessage :: "int64 \<Rightarrow> string \<Rightarrow> bool \<Rightarrow> Message \<Rightarrow> TraceHandler \<Rightarrow> ChannelMessage" where
  "traceMessage now label rx msg h =
     \<lparr>cm_Timestamp = now, cm_Identity = th_id h, cm_Channel = label, cm_IsRx = rx, cm_ContentType = ContentType msg,
      cm_Sequence = sequence msg, cm_ReplyFor = ReplyFor msg, cm_Length = word_of_nat (length (Body msg)),
      cm_Decode = runDecoders (th_decoders h) msg\<rparr>"

definition writeChannelMessage ::
    "protobuf \<Rightarrow> file_writer \<Rightarrow> int64 \<Rightarrow> string \<Rightarrow> bool \<Rightarrow> Message \<Rightarrow> TraceHandler \<Rightarrow> TraceHandler" where
  "writeChannelMessage pb fw now label rx msg h =
     h\<lparr>th_file := snd (WriteChannelMessage pb fw (traceMessage now label rx msg h) (th_file h))\<rparr>"

definition trace_Rx :: "protobuf \<Rightarrow> file_writer \<Rightarrow> int64 \<Rightarrow> string \<Rightarrow> Message \<Rightarrow> TraceHandler \<Rightarrow> TraceHandler" where
  "trace_Rx pb fw now label msg h = writeChannelMessage pb fw now label True msg h"

definition trace_Tx :: "protobuf \<Rightarrow> file_writer \<Rightarrow> int64 \<Rightarrow> string \<Rightarrow> Message \<Rightarrow> TraceHandler \<Rightarrow> TraceHandler" where
  "trace_Tx pb fw now label msg h = writeChannelMessage pb fw now label False msg h"

section \<open>Decoded messages\<close>

datatype json = JString string | JBool bool | JUint uint64 | JHeaders headers

type_synonym TraceMessageDecode = "string \<rightharpoonup> json"

definition DecoderFieldName :: string where "DecoderFieldName = ''__decoder__''"
definition MessageFieldName :: string where "MessageFieldName = ''__message__''"
definition DECODER :: string where "DECODER = ''channel''"

definition NewTraceMessageDecode :: "string \<Rightarrow> string \<Rightarrow> TraceMessageDecode" where
  "NewTraceMessageDecode decoder message = [DecoderFieldName \<mapsto> JString decoder, MessageFieldName \<mapsto> JString message]"

text \<open>\<open>marshal\<close> is \<^verbatim>\<open>json.Marshal\<close>; its errors yield a nil result.\<close>

definition marshalled :: "(TraceMessageDecode \<Rightarrow> bytes res) \<Rightarrow> TraceMessageDecode \<Rightarrow> bytes \<times> bool" where
  "marshalled marshal meta = (case marshal meta of Inl _ \<Rightarrow> ([], True) | Inr data \<Rightarrow> (data, True))"

definition Decode :: "(TraceMessageDecode \<Rightarrow> bytes res) \<Rightarrow> Message \<Rightarrow> bytes \<times> bool" where
  "Decode marshal msg =
     (if ContentType msg = ContentTypeHelloType then
        (let hello = UnmarshalHello msg;
             meta = NewTraceMessageDecode DECODER ''Hello''
         in marshalled marshal (meta(''id'' \<mapsto> JString (IdToken hello), ''headers'' \<mapsto> JHeaders (HelloHeaders hello))))
      else if ContentType msg = ContentTypePingType then marshalled marshal (NewTraceMessageDecode DECODER ''Ping'')
      else if ContentType msg = ContentTypeResultType then
        (let result = UnmarshalResult msg;
             meta = (NewTraceMessageDecode DECODER ''Result'')(''success'' \<mapsto> JBool (Success result));
             meta = (case meta ''message'' of
                       Some value \<Rightarrow> if value \<noteq> JString [] then meta(''message'' \<mapsto> JString (ResultMessage result)) else meta
                     | None \<Rightarrow> meta)
         in marshalled marshal meta)
      else if ContentType msg = ContentTypeLatencyType then
        marshalled marshal ((NewTraceMessageDecode DECODER ''Latency'')
          (''probeTime'' \<mapsto> JUint (fst (GetUint64Header 128 (Headers msg)))))
      else if ContentType msg = ContentTypeLatencyResponseType then
        marshalled marshal ((NewTraceMessageDecode DECODER ''LatencyResponse'')
          (''probeTime'' \<mapsto> JUint (fst (GetUint64Header 128 (Headers msg)))))
      else if ContentType msg = ContentTypeHeartbeat then marshalled marshal (NewTraceMessageDecode DECODER ''Heartbeat'')
      else ([], False))"

section \<open>Traces read back\<close>

fun entry_bytes :: "protobuf \<Rightarrow> trace_entry \<Rightarrow> bytes res" where
  "entry_bytes pb (StateEntry s) = marshalState pb s"
| "entry_bytes pb (MessageEntry m) = marshalMessage pb m"

fun entry_type :: "trace_entry \<Rightarrow> int32" where
  "entry_type (StateEntry s) = MessageType_ChannelStateType"
| "entry_type (MessageEntry m) = MessageType_ChannelMessageType"

text \<open>What the protobuf library promises for an entry it can encode, and the size the format has room for.\<close>

definition encodable :: "protobuf \<Rightarrow> trace_entry \<Rightarrow> bytes \<Rightarrow> bool" where
  "encodable pb e d \<longleftrightarrow> entry_bytes pb e = Inr d \<and> decode_entry pb (entry_type e) d = Inr e \<and> length d < 2 ^ 31"

definition trace_record :: "trace_entry \<Rightarrow> bytes \<Rightarrow> bytes" where
  "trace_record e d = PutUint32 (entry_type e) @ PutUint32 (word_of_nat (length d)) @ d"

lemma read_field_exact:
  assumes "0 \<le> sint n" "nat (sint n) = length b"
  shows "read_field n (b @ f) = (Inr b, f)"
  using assms by (auto simp: read_field_def file_Read_def)

lemma sint_length: "length d < 2 ^ 31 \<Longrightarrow> sint (word_of_nat (length d) :: int32) = int (length d)"
  by (simp add: signed_of_nat signed_take_bit_int_eq_self)

lemma trace_Read_record:
  assumes "encodable pb e d" "handle e = None"
  shows "trace_Read pb handle (trace_record e d @ f) = (let (es, x) = trace_Read pb handle f in (e # es, x))"
proof -
  have four: "0 \<le> sint (4 :: int32)" "nat (sint (4 :: int32)) = length (PutUint32 v)" for v by simp_all
  have len: "0 \<le> sint (word_of_nat (length d) :: int32)" "nat (sint (word_of_nat (length d) :: int32)) = length d"
    using sint_length [of d] assms(1) by (simp_all add: encodable_def)
  show ?thesis
    using assms read_field_exact [OF four] read_field_exact [OF len]
    by (subst trace_Read.simps) (simp add: trace_record_def encodable_def case_prod_beta)
qed

lemma trace_Read_end: "trace_Read pb handle [] = ([], None)"
  by (subst trace_Read.simps) (simp add: read_field_def file_Read_def)

lemma read_field_short:
  assumes "length f < nat (sint n)" "0 \<le> sint n"
  shows "\<exists>x f'. read_field n f = (Inl x, f')"
  using assms by (auto simp: read_field_def file_Read_def)

lemma trace_Read_cut:
  assumes "encodable pb e d" "n < length (trace_record e d)"
  shows "fst (trace_Read pb handle (take n (trace_record e d))) = []"
proof -
  have four: "0 \<le> sint (4 :: int32)" "nat (sint (4 :: int32)) = length (PutUint32 v)" for v by simp_all
  have len: "0 \<le> sint (word_of_nat (length d) :: int32)" "nat (sint (word_of_nat (length d) :: int32)) = length d"
    using sint_length [of d] assms(1) by (simp_all add: encodable_def)
  let ?t = "PutUint32 (entry_type e)" and ?l = "PutUint32 (word_of_nat (length d))"
  consider (type) "n < 4" | (len) "4 \<le> n" "n < 8" | (data) "8 \<le> n" by linarith
  then show ?thesis
  proof cases
    case type
    then have "length (take n (trace_record e d)) < nat (sint (4 :: int32))" by (simp add: trace_record_def)
    from read_field_short [OF this four(1)] show ?thesis by (subst trace_Read.simps) (auto split: if_splits)
  next
    case len
    then have f: "take n (trace_record e d) = ?t @ take (n - 4) ?l" "length (take (n - 4) ?l) < nat (sint (4 :: int32))"
      by (simp_all add: trace_record_def)
    show ?thesis
      using read_field_short [OF f(2) four(1)] by (subst trace_Read.simps) (auto simp: f(1) read_field_exact [OF four])
  next
    case data
    then have f: "take n (trace_record e d) = ?t @ ?l @ take (n - 8) d" "length (take (n - 8) d) < nat (sint (word_of_nat (length d) :: int32))"
      using assms(2) len by (auto simp: trace_record_def)
    show ?thesis
      using read_field_short [OF f(2) len(1)] by (subst trace_Read.simps) (auto simp: f(1) read_field_exact [OF four])
  qed
qed

lemma trace_Read_records:
  assumes "list_all (\<lambda>(e, d). encodable pb e d) eds"
  shows "trace_Read pb (\<lambda>_. None) (concat (map (\<lambda>(e, d). trace_record e d) eds)) = (map fst eds, None)"
  using assms by (induction eds) (auto simp: trace_Read_end trace_Read_record)

lemma trace_Read_prefix:
  assumes "list_all (\<lambda>(e, d). encodable pb e d) eds"
  shows "\<exists>k. fst (trace_Read pb (\<lambda>_. None) (take n (concat (map (\<lambda>(e, d). trace_record e d) eds)))) = take k (map fst eds)"
  using assms
proof (induction eds arbitrary: n)
  case Nil
  then show ?case by (simp add: trace_Read_end)
next
  case (Cons x eds)
  obtain e d where x: "x = (e, d)" by (cases x)
  have enc: "encodable pb e d" using Cons.prems x by simp
  show ?case
  proof (cases "n < length (trace_record e d)")
    case True
    then have "take n (concat (map (\<lambda>(e, d). trace_record e d) (x # eds))) = take n (trace_record e d)" by (simp add: x)
    with trace_Read_cut [OF enc True] show ?thesis by (intro exI [of _ 0]) simp
  next
    case False
    then have t: "take n (concat (map (\<lambda>(e, d). trace_record e d) (x # eds))) =
        trace_record e d @ take (n - length (trace_record e d)) (concat (map (\<lambda>(e, d). trace_record e d) eds))"
      by (simp add: x)
    obtain k where "fst (trace_Read pb (\<lambda>_. None)
        (take (n - length (trace_record e d)) (concat (map (\<lambda>(e, d). trace_record e d) eds)))) = take k (map fst eds)"
      using Cons by auto
    then show ?thesis
      unfolding t by (intro exI [of _ "Suc k"]) (simp add: trace_Read_record [OF enc] x case_prod_beta)
  qed
qed

text \<open>What a channel reports to its trace handler, and the entry each report becomes.\<close>

datatype trace_op = OpConnect int64 string string | OpRx int64 string Message | OpTx int64 string Message | OpClose int64 string

fun trace_step :: "protobuf \<Rightarrow> file_writer \<Rightarrow> trace_op \<Rightarrow> TraceHandler \<Rightarrow> TraceHandler" where
  "trace_step pb fw (OpConnect now label remote) h = trace_Connect pb fw now label remote h"
| "trace_step pb fw (OpRx now label m) h = trace_Rx pb fw now label m h"
| "trace_step pb fw (OpTx now label m) h = trace_Tx pb fw now label m h"
| "trace_step pb fw (OpClose now label) h = trace_Close pb fw now label h"

fun op_entry :: "TraceHandler \<Rightarrow> trace_op \<Rightarrow> trace_entry" where
  "op_entry h (OpConnect now label remote) =
     StateEntry \<lparr>cs_Timestamp = now, cs_Identity = th_id h, cs_Channel = label, cs_Connected = True, cs_RemoteAddress = remote\<rparr>"
| "op_entry h (OpRx now label m) = MessageEntry (traceMessage now label True m h)"
| "op_entry h (OpTx now label m) = MessageEntry (traceMessage now label False m h)"
| "op_entry h (OpClose now label) =
     StateEntry \<lparr>cs_Timestamp = now, cs_Identity = th_id h, cs_Channel = label, cs_Connected = False, cs_RemoteAddress = []\<rparr>"

definition full_writer :: file_writer where
  "full_writer d = (length d, None)"

lemma op_entry_file [simp]: "op_entry (h\<lparr>th_file := f\<rparr>) op = op_entry h op"
  by (cases op) (simp_all add: traceMessage_def)

lemma trace_step_file:
  assumes "entry_bytes pb (op_entry h op) = Inr d"
  shows "trace_step pb full_writer op h = h\<lparr>th_file := th_file h @ trace_record (op_entry h op) d\<rparr>"
  using assms
  by (cases op) (simp_all add: trace_Connect_def trace_Close_def trace_Rx_def trace_Tx_def writeChannelMessage_def
      WriteChannelState_def WriteChannelMessage_def writeOut_def full_writer_def trace_record_def)

lemma trace_steps_file:
  assumes "list_all2 (\<lambda>op d. encodable pb (op_entry h op) d) ops ds"
  shows "th_file (fold (trace_step pb full_writer) ops h) =
    th_file h @ concat (map (\<lambda>(op, d). trace_record (op_entry h op) d) (zip ops ds))"
  using assms
proof (induction ops arbitrary: h ds)
  case (Cons op ops)
  then obtain d ds' where ds: "ds = d # ds'" "encodable pb (op_entry h op) d" "list_all2 (\<lambda>op d. encodable pb (op_entry h op) d) ops ds'"
    by (auto simp: list_all2_Cons1)
  let ?h = "h\<lparr>th_file := th_file h @ trace_record (op_entry h op) d\<rparr>"
  have "trace_step pb full_writer op h = ?h" using ds(2) by (intro trace_step_file) (simp add: encodable_def)
  moreover have "th_file (fold (trace_step pb full_writer) ops ?h) =
      th_file ?h @ concat (map (\<lambda>(op, d). trace_record (op_entry h op) d) (zip ops ds'))"
    using Cons.IH [of ?h ds'] ds(3) by simp
  ultimately show ?case by (simp add: ds(1))
qed simp


text \<open>A stand-in for the protobuf library on entries without strings.\<close>

definition sample_pb :: protobuf where
  "sample_pb = \<lparr>
     marshalState = (\<lambda>s. Inr (if cs_Connected s then [1] else [])),
     unmarshalState = (\<lambda>d. Inr \<lparr>cs_Timestamp = 0, cs_Identity = [], cs_Channel = [], cs_Connected = (d = [1]), cs_RemoteAddress = []\<rparr>),
     marshalMessage = (\<lambda>m. Inr (PutUint32 (cm_ContentType m))),
     unmarshalMessage = (\<lambda>d. rbind (Uint32 d) (\<lambda>t. Inr \<lparr>cm_Timestamp = 0, cm_Identity = [], cm_Channel = [], cm_IsRx = True,
       cm_ContentType = t, cm_Sequence = -1, cm_ReplyFor = -1, cm_Length = 0, cm_Decode = []\<rparr>))\<rparr>"

definition sample_trace_handler :: TraceHandler where
  "sample_trace_handler = \<lparr>th_file = [], th_id = [], th_decoders = [], th_logTraces = False\<rparr>"

definition sample_trace_ops :: "trace_op list" where
  "sample_trace_ops = [OpConnect 0 [] [], OpRx 0 [] (NewMessage 70 []), OpClose 0 []]"


text \<open>The text of a result never gets into a trace: the decoder looks for it in the map it fills.\<close>

theorem result_text_not_traced:
  "Decode marshal (NewResult ok text) = Decode marshal (NewResult ok text')"
  by (simp add: Decode_def NewResult_def NewMessage_def UnmarshalResult_def GetBoolHeader_def PutBoolHeader_def Let_def
      NewTraceMessageDecode_def DecoderFieldName_def MessageFieldName_def ContentTypeResultType_def ContentTypeHelloType_def
      ContentTypePingType_def)

text \<open>A negative length field makes the reader panic.\<close>

theorem trace_Read_negative_length_panics:
  assumes "sint len < 0"
  shows "trace_Read pb handle (PutUint32 t @ PutUint32 len @ f) = ([], Some GoPanic)"
proof -
  have four: "0 \<le> sint (4 :: int32)" "nat (sint (4 :: int32)) = length (PutUint32 v)" for v by simp_all
  have "read_field len f = (Inl GoPanic, f)" using assms by (simp add: read_field_def)
  then show ?thesis by (subst trace_Read.simps) (simp add: read_field_exact [OF four])
qed

end
