(* ===== verification/Formatting.thy ===== *)
theory Formatting
  imports Tracing Hello Channel_Impl "HOL-Library.List_Lexorder" "HOL-Library.Char_ord"
begin

text \<open>
  The texts the package makes for people: the labels of underlays and channels, \<^verbatim>\<open>String\<close> of
  a message, and the one-line form of a trace entry in \<^verbatim>\<open>trace.go\<close> and \<^verbatim>\<open>trace_decode.go\<close>.
  Texts are UTF-8, so the characters that padding counts are the bytes that do not continue one.
\<close>

section \<open>The verbs of fmt\<close>

definition runes :: "string \<Rightarrow> nat" where
  "runes s = length (filter (\<lambda>c. (of_char c :: nat) div 64 \<noteq> 2) s)"

definition padLeft :: "nat \<Rightarrow> string \<Rightarrow> string" where
  "padLeft width s = replicate (width - runes s) CHR '' '' @ s"

definition padRight :: "nat \<Rightarrow> string \<Rightarrow> string" where
  "padRight width s = s @ replicate (width - runes s) CHR '' ''"

definition fmtInt :: "int \<Rightarrow> string" where
  "fmtInt n = (if n < 0 then ''-'' @ decimal (nat (- n)) else decimal (nat n))"

text \<open>
  A \<^verbatim>\<open>float64\<close> is its sign, its significand and its exponent; \<open>fmt0f\<close> is the verb
  \<^verbatim>\<open>%0.0f\<close>, which rounds to the nearest integer and ties to even.
\<close>

record float64 =
  fneg :: bool
  fmant :: nat
  fexp :: int

definition round_half_even :: "nat \<Rightarrow> nat \<Rightarrow> nat" where
  "round_half_even n d =
     (let q = n div d; r = n mod d in if 2 * r < d \<or> (2 * r = d \<and> even q) then q else q + 1)"

definition fmt0f :: "float64 \<Rightarrow> string" where
  "fmt0f f = (if fneg f then ''-'' else []) @
     decimal (if 0 \<le> fexp f then fmant f * 2 ^ nat (fexp f) else round_half_even (fmant f) (2 ^ nat (- fexp f)))"

section \<open>Labels\<close>

definition classic_Label :: "classicImpl \<Rightarrow> string" where
  "classic_Label impl = ''u{classic}->i{'' @ cu_id impl @ ''/'' @ cu_connectionId impl @ ''}''"

definition datagram_Label :: "DatagramUnderlay \<Rightarrow> string" where
  "datagram_Label u = ''u{datagram}->i{'' @ cu_connectionId u @ ''}''"

definition existing_Label :: "existingConnImpl \<Rightarrow> string" where
  "existing_Label impl = ''u{existing}->i{'' @ cu_connectionId impl @ ''}''"

definition ws_Label :: "wsImpl \<Rightarrow> string" where
  "ws_Label u = ''u{ws}->i{'' @ cu_connectionId u @ ''}''"

text \<open>\<open>underlayLabel\<close> is the label of the underlay that the channel's queries go to.\<close>

definition channel_Label :: "(Underlay \<Rightarrow> string) \<Rightarrow> channelImpl \<Rightarrow> string" where
  "channel_Label underlayLabel ch = ''ch{'' @ logicalName ch @ ''}->'' @ underlayLabel (fallbackUnderlay ch)"

section \<open>Messages\<close>

text \<open>\<open>addr\<close> is the address of the cached reply number, which is what is printed.\<close>

definition message_String :: "nat \<Rightarrow> Message \<Rightarrow> string" where
  "message_String addr m =
     ''//ct:['' @ padLeft 4 (fmtInt (sint (ContentType m))) @ '']/sq:['' @ padLeft 4 (fmtInt (sint (sequence m))) @ '']/rf:['' @
     (if IsReply m then padLeft 4 (fmtInt (int addr)) else ''    '') @ '']/l:['' @ padLeft 4 (decimal (length (Body m))) @ '']''"

section \<open>Trace lines\<close>

text \<open>What \<^verbatim>\<open>json.Unmarshal\<close> makes of a value; \<open>unmarshal\<close> below is that function.\<close>

datatype json_value =
  VString string | VNumber float64 | VBool bool | VNull | VArray "json_value list" | VObject "(string \<times> json_value) list"

type_synonym json_object = "string \<rightharpoonup> json_value"

definition badNil :: string where "badNil = ''%!s(<nil>)''"

text \<open>
  The verb \<^verbatim>\<open>%-ws\<close> on an element of the map; \<open>otherS\<close> is how it prints a value that is
  neither a string nor nil.
\<close>

definition fmtS :: "(nat \<Rightarrow> json_value \<Rightarrow> string) \<Rightarrow> nat \<Rightarrow> json_value option \<Rightarrow> string" where
  "fmtS otherS width v =
     (case v of
        None \<Rightarrow> badNil
      | Some VNull \<Rightarrow> badNil
      | Some (VString s) \<Rightarrow> padRight width s
      | Some x \<Rightarrow> otherS width x)"

definition fieldText :: "json_value option \<Rightarrow> string" where
  "fieldText v =
     (case v of
        Some (VString s) \<Rightarrow> s
      | Some (VNumber f) \<Rightarrow> fmt0f f
      | Some (VBool b) \<Rightarrow> (if b then ''true'' else ''false'')
      | Some (VArray _) \<Rightarrow> ''<[]interface {}>''
      | Some (VObject _) \<Rightarrow> ''<map[string]interface {}>''
      | _ \<Rightarrow> ''<'' @ badNil @ ''>'')"

fun formatFields :: "json_object \<Rightarrow> nat \<Rightarrow> string list \<Rightarrow> string \<Rightarrow> string" where
  "formatFields meta i [] out = out"
| "formatFields meta i (k # ks) out =
     formatFields meta (i + 1) ks (out @ (if i > 0 then '' '' else []) @ k @ ''=['' @ fieldText (meta k) @ '']'')"

text \<open>\<open>order\<close> is the order in which the entries of the map are visited.\<close>

definition decodeTraceAndFormat ::
    "(bytes \<Rightarrow> json_object res) \<Rightarrow> (nat \<Rightarrow> json_value \<Rightarrow> string) \<Rightarrow> (json_object \<Rightarrow> string list) \<Rightarrow> bytes \<Rightarrow> string res" where
  "decodeTraceAndFormat unmarshal otherS order decode =
     (if length decode > 0 then
        (case unmarshal decode of
           Inl err \<Rightarrow> Inl GoPanic
         | Inr meta \<Rightarrow>
             (let out = padRight 24 (fmtS otherS 8 (meta DecoderFieldName) @ '' '' @ fmtS otherS 0 (meta MessageFieldName))
              in if length (order meta) > 2
                 then
                   (let keys = sort (filter (\<lambda>k. k \<noteq> DecoderFieldName \<and> k \<noteq> MessageFieldName) (order meta))
                    in Inr (formatFields meta 0 keys (out @ '' {'') @ ''}''))
                 else Inr out))
      else Inr [])"

definition msgToString ::
    "(bytes \<Rightarrow> json_object res) \<Rightarrow> (nat \<Rightarrow> json_value \<Rightarrow> string) \<Rightarrow> (json_object \<Rightarrow> string list) \<Rightarrow> ChannelMessage \<Rightarrow> string res" where
  "msgToString unmarshal otherS order msg =
     rbind (decodeTraceAndFormat unmarshal otherS order (cm_Decode msg)) (\<lambda>decoded.
       Inr (padRight 16 (cm_Identity msg) @ '' '' @ padLeft 8 (cm_Channel msg) @ '' '' @ (if cm_IsRx msg then ''<-'' else ''->'') @
         '' #'' @ padRight 5 (fmtInt (sint (cm_Sequence msg))) @ '' '' @
         padLeft 5 (if cm_ReplyFor msg \<noteq> -1 then ''>'' @ fmtInt (sint (cm_ReplyFor msg)) else []) @ '' | '' @ decoded @ [CHR 0x0A]))"


text \<open>The line the handler logs for a message, if it logs.\<close>

definition logLine ::
    "(bytes \<Rightarrow> json_object res) \<Rightarrow> (nat \<Rightarrow> json_value \<Rightarrow> string) \<Rightarrow> (json_object \<Rightarrow> string list) \<Rightarrow> int64 \<Rightarrow> string \<Rightarrow> bool \<Rightarrow> Message
       \<Rightarrow> TraceHandler \<Rightarrow> string option res" where
  "logLine unmarshal otherS order now label isRx msg h =
     (if th_logTraces h
      then rbind (msgToString unmarshal otherS order (traceMessage now label isRx msg h)) (\<lambda>line. Inr (Some line))
      else Inr None)"

section \<open>The form of a trace line\<close>

definition field_of :: "json_object \<Rightarrow> string \<Rightarrow> string" where
  "field_of meta k = k @ ''=['' @ fieldText (meta k) @ '']''"

fun joined :: "string list \<Rightarrow> string" where
  "joined [] = []"
| "joined [x] = x"
| "joined (x # y # xs) = x @ '' '' @ joined (y # xs)"

lemma formatFields_Suc:
  "formatFields meta (Suc i) ks out = out @ concat (map (\<lambda>k. '' '' @ field_of meta k) ks)"
  by (induction ks arbitrary: i out) (simp_all add: field_of_def)

lemma joined_Cons: "joined (x # xs) = x @ concat (map (\<lambda>y. '' '' @ y) xs)"
  by (induction xs arbitrary: x) simp_all

lemma formatFields_joined: "formatFields meta 0 ks out = out @ joined (map (field_of meta) ks)"
  by (cases ks) (simp_all add: formatFields_Suc joined_Cons comp_def, simp add: field_of_def)

text \<open>
  The line of a decoded message does not depend on the order in which the map is visited: behind
  the padded names of decoder and message it has the other fields in ascending order of their
  names, each once, provided the map has more than two entries.
\<close>

theorem decode_format_canonical:
  assumes "decode \<noteq> []" "unmarshal decode = Inr meta" "enumerates (order meta) meta"
  shows "decodeTraceAndFormat unmarshal otherS order decode =
    Inr (padRight 24 (fmtS otherS 8 (meta DecoderFieldName) @ '' '' @ fmtS otherS 0 (meta MessageFieldName)) @
      (if card (dom meta) > 2
       then '' {'' @ joined (map (field_of meta) (sorted_list_of_set (dom meta - {DecoderFieldName, MessageFieldName}))) @ ''}''
       else []))"
proof -
  let ?f = "filter (\<lambda>k. k \<noteq> DecoderFieldName \<and> k \<noteq> MessageFieldName) (order meta)"
  have d: "distinct (order meta)" "set (order meta) = dom meta" using assms(3) by (auto simp: enumerates_def)
  have n: "length (order meta) = card (dom meta)" using d distinct_card by fastforce
  have "sorted_list_of_set (set ?f) = sort (remdups ?f)" by (rule sorted_list_of_set_sort_remdups)
  moreover have "remdups ?f = ?f" using d(1) by (simp add: distinct_remdups_id)
  moreover have "set ?f = dom meta - {DecoderFieldName, MessageFieldName}" using d(2) by auto
  ultimately have k: "sort ?f = sorted_list_of_set (dom meta - {DecoderFieldName, MessageFieldName})" by simp
  show ?thesis
    using assms(1,2) by (simp add: decodeTraceAndFormat_def n k formatFields_joined Let_def)
qed

theorem decode_format_canonical_witness:
  "decodeTraceAndFormat (\<lambda>_. Inr [DecoderFieldName \<mapsto> VString ''a'', MessageFieldName \<mapsto> VString ''b'', ''y'' \<mapsto> VBool True, ''x'' \<mapsto> VString ''z''])
     (\<lambda>_ _. []) (\<lambda>_. [''y'', MessageFieldName, ''x'', DecoderFieldName]) [1] =
   Inr ''a        b               {x=[z] y=[true]}''"
proof -
  let ?m = "[DecoderFieldName \<mapsto> VString ''a'', MessageFieldName \<mapsto> VString ''b'', ''y'' \<mapsto> VBool True, ''x'' \<mapsto> VString ''z'']"
  have n: "DecoderFieldName \<noteq> MessageFieldName" "DecoderFieldName \<noteq> ''x''" "DecoderFieldName \<noteq> ''y''" "MessageFieldName \<noteq> ''x''" "MessageFieldName \<noteq> ''y''"
    by (simp_all add: DecoderFieldName_def MessageFieldName_def)
  have dom: "dom ?m = {DecoderFieldName, MessageFieldName, ''x'', ''y''}" using n by auto
  have "{DecoderFieldName, MessageFieldName, ''x'', ''y''} - {DecoderFieldName, MessageFieldName} = set [''x'', ''y'']" using n by auto
  then have s: "sorted_list_of_set (dom ?m - {DecoderFieldName, MessageFieldName}) = [''x'', ''y'']"
    unfolding dom by (simp only: sorted_list_of_set_sort_remdups) (simp add: less_char_def)
  have c: "card (dom ?m) > 2" unfolding dom using n by (simp add: card_insert_if)
  have e: "enumerates [''y'', MessageFieldName, ''x'', DecoderFieldName] ?m" using n by (auto simp: enumerates_def)
  have r: "replicate 7 c = [c, c, c, c, c, c, c]" "replicate 14 c = [c, c, c, c, c, c, c, c, c, c, c, c, c, c]" for c :: char
    by (simp_all add: numeral_eq_Suc)
  show ?thesis
    using decode_format_canonical [of "[1]" "\<lambda>_. Inr ?m" ?m "\<lambda>_. [''y'', MessageFieldName, ''x'', DecoderFieldName]" "\<lambda>_ _. []"] s c e n
    by (simp add: fmtS_def padRight_def runes_def field_of_def fieldText_def r)
qed

text \<open>What \<^verbatim>\<open>String\<close> prints of a reply depends on where the reply number is stored.\<close>

theorem string_prints_address:
  assumes "IsReply m" "1000 \<le> a" "1000 \<le> b" "a \<noteq> b"
  shows "message_String a m \<noteq> message_String b m"
proof -
  have "padLeft 4 (fmtInt (int n)) = decimal n" if "1000 \<le> n" for n :: nat
  proof -
    have r: "runes (decimal k) = length (decimal k)" for k
    proof (induction k rule: decimal.induct)
      case (1 k)
      have "(of_char (char_of (48 + j) :: char) :: nat) div 64 \<noteq> 2" if "j < 10" for j :: nat
        using that by simp
      with 1 show ?case by (subst (1 2) decimal.simps) (auto simp: runes_def)
    qed
    have "4 \<le> length (decimal n)"
      using that by (subst decimal.simps, subst decimal.simps, subst decimal.simps, subst decimal.simps)
        (simp add: div_less_iff_less_mult)
    then show ?thesis by (simp add: padLeft_def fmtInt_def r)
  qed
  then show ?thesis using assms by (simp add: message_String_def)
qed

text \<open>
  No handler of the package logs trace lines: no operation sets the flag that the constructor
  leaves unset.
\<close>

inductive handler_from :: "TraceHandler \<Rightarrow> TraceHandler \<Rightarrow> bool" for h0 :: TraceHandler where
  handler_new: "handler_from h0 h0"
| handler_decoder: "handler_from h0 h \<Longrightarrow> handler_from h0 (AddDecoder d h)"
| handler_connect: "handler_from h0 h \<Longrightarrow> handler_from h0 (trace_Connect pb fw now label addr h)"
| handler_rx: "handler_from h0 h \<Longrightarrow> handler_from h0 (trace_Rx pb fw now label msg h)"
| handler_tx: "handler_from h0 h \<Longrightarrow> handler_from h0 (trace_Tx pb fw now label msg h)"
| handler_close: "handler_from h0 h \<Longrightarrow> handler_from h0 (trace_Close pb fw now label h)"

theorem trace_lines_never_logged:
  assumes "NewTraceHandler None i = Inr h0" "handler_from h0 h"
  shows "logLine unmarshal otherS order now label isRx msg h = Inr None"
proof -
  from assms(2) have "th_logTraces h = th_logTraces h0"
    by induction (simp_all add: AddDecoder_def trace_Connect_def trace_Rx_def trace_Tx_def trace_Close_def writeChannelMessage_def)
  then show ?thesis using assms(1) by (auto simp: NewTraceHandler_def logLine_def)
qed

end
