(* ===== verification/Typed_Messages.thy ===== *)
theory Typed_Messages
  imports Envelopes Wire
begin

text \<open>
  \<^verbatim>\<open>protobufs/protobufs.go\<close>: protobuf messages that know their content type, as envelopes and
  as responses. The protobuf encoding is another module's: \<open>marshal\<close> and \<open>unmarshal\<close> are
  parameters, \<open>typeOf\<close> is \<^verbatim>\<open>GetContentType\<close>.
\<close>

definition MarshalProto :: "('p \<Rightarrow> bytes res) \<Rightarrow> nat \<Rightarrow> int32 \<Rightarrow> 'p \<Rightarrow> Envelope" where
  "MarshalProto marshal i contentType msg =
     (case marshal msg of
        Inl e \<Rightarrow> Timed (ErrorEnvelope i (Some (ErrWrap ''failed to marshal'' e)))
      | Inr b \<Rightarrow> MessageEnvelope i (NewMessage contentType b))"

definition MarshalTyped :: "('p \<Rightarrow> bytes res) \<Rightarrow> ('p \<Rightarrow> int32) \<Rightarrow> nat \<Rightarrow> 'p \<Rightarrow> Envelope" where
  "MarshalTyped marshal typeOf i msg = MarshalProto marshal i (typeOf msg) msg"

text \<open>
  \<^verbatim>\<open>TypedResponseImpl.Unmarshall\<close> on the two results of a \<^verbatim>\<open>SendForReply\<close>;
  \<open>target\<close> is the message it unmarshals into, whose old fields protobuf resets. A nil response
  without an error is dereferenced.
\<close>

definition Unmarshall :: "(bytes \<Rightarrow> 'p res) \<Rightarrow> ('p \<Rightarrow> int32) \<Rightarrow> 'p \<Rightarrow> Message option \<times> err option \<Rightarrow> 'p res" where
  "Unmarshall unmarshal typeOf target = (\<lambda>(responseMsg, e).
     case e of
       Some e \<Rightarrow> Inl e
     | None \<Rightarrow>
         (case responseMsg of
            None \<Rightarrow> Inl GoPanic
          | Some m \<Rightarrow>
              if ContentType m \<noteq> typeOf target then Inl (ErrText ''unexpected response type'')
              else unmarshal (Body m)))"

text \<open>
  A typed message survives the wire: what the sender marshals, the receiver of the frame unmarshals
  again, into any target of the same type; a target of another type gets an error instead.
\<close>

lemma typed_message_roundtrip:
  assumes "marshal p = Inr b" "unmarshal b = Inr p"
    and "env_ToSendable (MarshalTyped marshal typeOf i p) = s" "Msg s = Some m"
    and "enumerates ks (Headers (putReplyFor (SetSequence n m)))" "frame_fits ks (SetSequence n m)"
    and "content r = fst (MarshalV2 ks (SetSequence n m)) @ rest" "fst (ReadV2 r) = Inr got"
  shows "Unmarshall unmarshal typeOf target (Some got, None) =
    (if typeOf target = typeOf p then Inr p else Inl (ErrText ''unexpected response type''))"
proof -
  have m: "m = NewMessage (typeOf p) b"
    using assms(1,3,4) by (auto simp: MarshalTyped_def MarshalProto_def)
  have "got = received (SetSequence n m)" using ReadV2_of_frame [OF assms(5-7)] assms(8) by simp
  then have "ContentType got = typeOf p" "Body got = b"
    by (simp_all add: m received_def SetSequence_def NewMessage_def)
  then show ?thesis using assms(2) by (simp add: Unmarshall_def)
qed

text \<open>A message that cannot be marshalled is an envelope whose every send returns that error.\<close>

lemma unmarshallable_message_sends_nothing:
  assumes "marshal p = Inl e"
  shows "env_Send Next pick later (MarshalTyped marshal typeOf i p) st = Some (Some (ErrWrap ''failed to marshal'' e), st)"
    "Unmarshall unmarshal typeOf target
       (the (SendForReply Next pick later during pick' closed (env_WithTimeout now d (MarshalTyped marshal typeOf i p)) st)) =
     Inl (ErrWrap ''failed to marshal'' e)"
  using assms by (simp_all add: MarshalTyped_def MarshalProto_def Unmarshall_def)

end
