(* ===== verification/Loggers.thy ===== *)
theory Loggers
  imports Chan_Prelude
begin

text \<open>
  The loggers of \<^verbatim>\<open>logging.go\<close>: the precedence by which a logger is resolved, the cache
  of area loggers, and the handler that forwards to the process default and replays on it what
  was bound. The main result characterises when logging through the process default returns: for
  every default but those that lead back into the package from within another handler, which the
  code cannot detect.
\<close>

section \<open>Handlers\<close>

text \<open>
  \<open>'h\<close> stands for the handlers of the process, whose methods are the fields of
  \<open>process_ops\<close>. A \<open>Wrapping\<close> handler forwards all its methods to another one.
\<close>

datatype attr_value = StringValue string | OtherValue nat

type_synonym slog_attr = "string \<times> attr_value"

record handlerOp =
  opAttrs :: "slog_attr list"
  opGroup :: string

record defaultHandler =
  opsOf :: "handlerOp list"

datatype 'h slogHandler = Process 'h | Delegating defaultHandler | Wrapping "'h slogHandler"

record ('h, 'r) process_ops =
  processAttrs :: "slog_attr list \<Rightarrow> 'h \<Rightarrow> 'h"
  processGroup :: "string \<Rightarrow> 'h \<Rightarrow> 'h"
  processEnabled :: "'h \<Rightarrow> int \<Rightarrow> bool"
  processHandle :: "'h \<Rightarrow> 'r \<Rightarrow> err option"

definition default_WithAttrs :: "slog_attr list \<Rightarrow> defaultHandler \<Rightarrow> defaultHandler" where
  "default_WithAttrs attrs h = (if attrs = [] then h else h\<lparr>opsOf := opsOf h @ [\<lparr>opAttrs = attrs, opGroup = []\<rparr>]\<rparr>)"

definition default_WithGroup :: "string \<Rightarrow> defaultHandler \<Rightarrow> defaultHandler" where
  "default_WithGroup name h = (if name = [] then h else h\<lparr>opsOf := opsOf h @ [\<lparr>opAttrs = [], opGroup = name\<rparr>]\<rparr>)"

text \<open>The calls on the interface \<^verbatim>\<open>slog.Handler\<close>.\<close>

fun WithAttrs :: "('h, 'r) process_ops \<Rightarrow> slog_attr list \<Rightarrow> 'h slogHandler \<Rightarrow> 'h slogHandler" where
  "WithAttrs p attrs (Process x) = Process (processAttrs p attrs x)"
| "WithAttrs p attrs (Delegating h) = Delegating (default_WithAttrs attrs h)"
| "WithAttrs p attrs (Wrapping h) = Wrapping (WithAttrs p attrs h)"

fun WithGroup :: "('h, 'r) process_ops \<Rightarrow> string \<Rightarrow> 'h slogHandler \<Rightarrow> 'h slogHandler" where
  "WithGroup p name (Process x) = Process (processGroup p name x)"
| "WithGroup p name (Delegating h) = Delegating (default_WithGroup name h)"
| "WithGroup p name (Wrapping h) = Wrapping (WithGroup p name h)"

definition nonDelegating :: "'h \<Rightarrow> 'h slogHandler \<Rightarrow> 'h slogHandler" where
  "nonDelegating fallbackHandler target = (case target of Delegating _ \<Rightarrow> Process fallbackHandler | _ \<Rightarrow> target)"

definition replay :: "('h, 'r) process_ops \<Rightarrow> defaultHandler \<Rightarrow> 'h slogHandler \<Rightarrow> 'h slogHandler" where
  "replay p h base =
     foldl (\<lambda>handler op. if opGroup op \<noteq> [] then WithGroup p (opGroup op) handler else WithAttrs p (opAttrs op) handler)
       base (opsOf h)"

text \<open>\<open>dflt\<close> is the handler of \<^verbatim>\<open>slog.Default()\<close> when the record is handled.\<close>

definition resolve :: "('h, 'r) process_ops \<Rightarrow> 'h \<Rightarrow> 'h slogHandler \<Rightarrow> defaultHandler \<Rightarrow> 'h slogHandler" where
  "resolve p fallbackHandler dflt h = replay p h (nonDelegating fallbackHandler dflt)"

text \<open>A call that recurses without end has the value \<open>None\<close>.\<close>

partial_function (option) Enabled ::
    "('h, 'r) process_ops \<Rightarrow> 'h \<Rightarrow> 'h slogHandler \<Rightarrow> int \<Rightarrow> 'h slogHandler \<Rightarrow> bool option" where
  "Enabled p fallbackHandler dflt level handler =
     (case handler of
        Process x \<Rightarrow> Some (processEnabled p x level)
      | Delegating h \<Rightarrow> Enabled p fallbackHandler dflt level (resolve p fallbackHandler dflt h)
      | Wrapping h \<Rightarrow> Enabled p fallbackHandler dflt level h)"

partial_function (option) Handle ::
    "('h, 'r) process_ops \<Rightarrow> 'h \<Rightarrow> 'h slogHandler \<Rightarrow> 'r \<Rightarrow> 'h slogHandler \<Rightarrow> ('h \<times> err option) option" where
  "Handle p fallbackHandler dflt r handler =
     (case handler of
        Process x \<Rightarrow> Some (x, processHandle p x r)
      | Delegating h \<Rightarrow> Handle p fallbackHandler dflt r (resolve p fallbackHandler dflt h)
      | Wrapping h \<Rightarrow> Handle p fallbackHandler dflt r h)"

section \<open>Loggers\<close>

text \<open>A logger is its handler; \<^verbatim>\<open>With\<close> binds attributes on it.\<close>

type_synonym 'h logger = "'h slogHandler"
type_synonym 'h logger_cache = "string \<rightharpoonup> 'h logger"

definition areaLogger :: "('h, 'r) process_ops \<Rightarrow> string \<Rightarrow> 'h logger" where
  "areaLogger p name = WithAttrs p [(''channel'', StringValue name)] (Delegating \<lparr>opsOf = []\<rparr>)"

text \<open>
  \<open>seen\<close> is the cache at the first look-up and \<open>cache\<close> when the new logger is stored;
  other goroutines may have added to it in between.
\<close>

definition defaultAreaLogger ::
    "('h, 'r) process_ops \<Rightarrow> 'h logger_cache \<Rightarrow> string \<Rightarrow> 'h logger_cache \<Rightarrow> 'h logger \<times> 'h logger_cache" where
  "defaultAreaLogger p seen name cache =
     (case seen name of
        Some l \<Rightarrow> (l, cache)
      | None \<Rightarrow>
          (case cache name of
             Some l \<Rightarrow> (l, cache)
           | None \<Rightarrow> (areaLogger p name, cache(name \<mapsto> areaLogger p name))))"

type_synonym 'h resolver = "string \<Rightarrow> 'h logger option"

definition resolveArea ::
    "('h, 'r) process_ops \<Rightarrow> 'h logger_cache \<Rightarrow> string \<Rightarrow> 'h resolver option \<Rightarrow> 'h logger_cache \<Rightarrow> 'h logger \<times> 'h logger_cache" where
  "resolveArea p seen name loggerFor cache =
     (case loggerFor of
        None \<Rightarrow> defaultAreaLogger p seen name cache
      | Some f \<Rightarrow> (case f name of Some l \<Rightarrow> (l, cache) | None \<Rightarrow> defaultAreaLogger p seen name cache))"

text \<open>\<open>opts\<close> is the \<^verbatim>\<open>Logger\<close> field of the options, when there are options.\<close>

definition resolveEventLogger ::
    "('h, 'r) process_ops \<Rightarrow> 'h logger_cache \<Rightarrow> 'h logger option option \<Rightarrow> string \<Rightarrow> 'h resolver option \<Rightarrow> 'h logger_cache
       \<Rightarrow> 'h logger \<times> 'h logger_cache" where
  "resolveEventLogger p seen opts name loggerFor cache =
     (case opts of
        Some (Some l) \<Rightarrow> (l, cache)
      | _ \<Rightarrow> resolveArea p seen name loggerFor cache)"

text \<open>The package state: the installed resolver and the cache.\<close>

record 'h logging_state =
  loggerFor :: "'h resolver option"
  defaultLoggerByName :: "'h logger_cache"

definition SetLoggerFor :: "'h resolver \<Rightarrow> 'h logging_state \<Rightarrow> 'h logging_state" where
  "SetLoggerFor f st = st\<lparr>loggerFor := Some f\<rparr>"

definition For :: "('h, 'r) process_ops \<Rightarrow> 'h logger_cache \<Rightarrow> string \<Rightarrow> 'h logging_state \<Rightarrow> 'h logger \<times> 'h logging_state" where
  "For p seen name st =
     (case resolveArea p seen name (loggerFor st) (defaultLoggerByName st) of
        (l, cache) \<Rightarrow> (l, st\<lparr>defaultLoggerByName := cache\<rparr>))"

section \<open>The cache of area loggers\<close>

text \<open>Every cached logger is the one of its name.\<close>

definition wf_cache :: "('h, 'r) process_ops \<Rightarrow> 'h logger_cache \<Rightarrow> bool" where
  "wf_cache p cache \<longleftrightarrow> (\<forall>name l. cache name = Some l \<longrightarrow> l = areaLogger p name)"

theorem area_logger_cached:
  assumes "wf_cache p cache" "seen \<subseteq>\<^sub>m cache" "defaultAreaLogger p seen name cache = (l, cache')"
  shows "l = areaLogger p name" "cache' name = Some l" "cache \<subseteq>\<^sub>m cache'" "wf_cache p cache'"
proof -
  have "seen name = None \<or> seen name = cache name"
    using assms(2) by (cases "seen name") (auto simp: map_le_def dom_def)
  then show "l = areaLogger p name" "cache' name = Some l" "cache \<subseteq>\<^sub>m cache'" "wf_cache p cache'"
    using assms(1,3) by (auto simp: defaultAreaLogger_def wf_cache_def map_le_def split: option.splits if_splits)
qed

text \<open>
  The precedence: the logger of the options, then the resolver's, then the area logger. A
  resolver that has none for the name counts as none.
\<close>

theorem event_logger_precedence:
  assumes "wf_cache p cache" "seen \<subseteq>\<^sub>m cache"
  shows "fst (resolveEventLogger p seen opts name f cache) =
    (case opts of Some (Some l) \<Rightarrow> l
     | _ \<Rightarrow> (case Option.bind f (\<lambda>g. g name) of Some l \<Rightarrow> l | None \<Rightarrow> areaLogger p name))"
proof -
  have "fst (defaultAreaLogger p seen name cache) = areaLogger p name"
    using area_logger_cached(1) [OF assms, of name] by (metis prod.collapse)
  then show ?thesis by (simp add: resolveEventLogger_def resolveArea_def split: option.splits)
qed


section \<open>Logging through the process default\<close>

text \<open>What a user of a logger binds, on a handler and on a handler of the process.\<close>

datatype binding_op = BindAttrs "slog_attr list" | BindGroup string

fun bind_op :: "('h, 'r) process_ops \<Rightarrow> 'h slogHandler \<Rightarrow> binding_op \<Rightarrow> 'h slogHandler" where
  "bind_op p h (BindAttrs attrs) = WithAttrs p attrs h"
| "bind_op p h (BindGroup name) = WithGroup p name h"

fun process_bind :: "('h, 'r) process_ops \<Rightarrow> 'h \<Rightarrow> binding_op \<Rightarrow> 'h" where
  "process_bind p x (BindAttrs attrs) = processAttrs p attrs x"
| "process_bind p x (BindGroup name) = processGroup p name x"

fun binds :: "binding_op \<Rightarrow> bool" where
  "binds (BindAttrs attrs) \<longleftrightarrow> attrs \<noteq> []"
| "binds (BindGroup name) \<longleftrightarrow> name \<noteq> []"

text \<open>The handler of the process a handler forwards to in the end, if it is not the default again.\<close>

fun process_of :: "'h slogHandler \<Rightarrow> 'h option" where
  "process_of (Process x) = Some x"
| "process_of (Delegating _) = None"
| "process_of (Wrapping h) = process_of h"

definition wraps_channel :: "'h slogHandler \<Rightarrow> bool" where
  "wraps_channel dflt \<longleftrightarrow> (\<forall>h. dflt \<noteq> Delegating h) \<and> process_of dflt = None"

definition process_target :: "'h \<Rightarrow> 'h slogHandler \<Rightarrow> 'h" where
  "process_target fallbackHandler dflt = (case process_of dflt of Some x \<Rightarrow> x | None \<Rightarrow> fallbackHandler)"

definition bound_process :: "('h, 'r) process_ops \<Rightarrow> 'h \<Rightarrow> 'h slogHandler \<Rightarrow> string \<Rightarrow> binding_op list \<Rightarrow> 'h" where
  "bound_process p fallbackHandler dflt name bs =
     foldl (process_bind p) (process_target fallbackHandler dflt)
       (BindAttrs [(''channel'', StringValue name)] # filter binds bs)"

lemma process_of_bind:
  "process_of (bind_op p h b) = map_option (\<lambda>x. process_bind p x b) (process_of h)"
  by (cases b; induction h) simp_all

lemma process_of_binds:
  "process_of (foldl (bind_op p) h bs) = map_option (\<lambda>x. foldl (process_bind p) x bs) (process_of h)"
  by (induction bs arbitrary: h) (simp_all add: process_of_bind option.map_comp comp_def option.map_ident)

text \<open>The recorded operations are the bindings that bind something, in order.\<close>

definition op_of :: "binding_op \<Rightarrow> handlerOp" where
  "op_of b = (case b of BindAttrs attrs \<Rightarrow> \<lparr>opAttrs = attrs, opGroup = []\<rparr> | BindGroup name \<Rightarrow> \<lparr>opAttrs = [], opGroup = name\<rparr>)"

lemma recorded_bindings:
  "foldl (bind_op p) (Delegating h) bs = Delegating (h\<lparr>opsOf := opsOf h @ map op_of (filter binds bs)\<rparr>)"
proof (induction bs arbitrary: h)
  case (Cons b bs)
  then show ?case
    by (cases b) (simp_all add: default_WithAttrs_def default_WithGroup_def op_of_def)
qed simp

lemma replay_bindings:
  "replay p \<lparr>opsOf = map op_of (filter binds bs)\<rparr> base = foldl (bind_op p) base (filter binds bs)"
  unfolding replay_def
  by (induction bs arbitrary: base) (auto simp: op_of_def split: binding_op.splits)

lemma process_of_replay: "process_of (replay p h base) = None \<longleftrightarrow> process_of base = None"
proof -
  have "process_of (foldl f base os) = None \<longleftrightarrow> process_of base = None"
    if "\<And>x o'. process_of (f x o') = None \<longleftrightarrow> process_of x = None" for f :: "'a slogHandler \<Rightarrow> handlerOp \<Rightarrow> 'a slogHandler" and os
    using that by (induction os arbitrary: base) simp_all
  moreover have "process_of (WithGroup p n x) = None \<longleftrightarrow> process_of x = None"
    "process_of (WithAttrs p a x) = None \<longleftrightarrow> process_of x = None" for n a x
    using process_of_bind [of p x "BindGroup n"] process_of_bind [of p x "BindAttrs a"] by simp_all
  ultimately show ?thesis unfolding replay_def by simp
qed

lemma process_of_nonDelegating:
  "process_of (nonDelegating fb dflt) = (if wraps_channel dflt then None else Some (process_target fb dflt))"
  by (cases dflt) (auto simp: nonDelegating_def wraps_channel_def process_target_def)

lemma forward_simps [simp]:
  "Handle p fb dflt r (Process x) = Some (x, processHandle p x r)"
  "Handle p fb dflt r (Delegating d) = Handle p fb dflt r (resolve p fb dflt d)"
  "Handle p fb dflt r (Wrapping h) = Handle p fb dflt r h"
  "Enabled p fb dflt level (Process x) = Some (processEnabled p x level)"
  "Enabled p fb dflt level (Delegating d) = Enabled p fb dflt level (resolve p fb dflt d)"
  "Enabled p fb dflt level (Wrapping h) = Enabled p fb dflt level h"
  by (subst Handle.simps Enabled.simps, simp)+

text \<open>Forwarding ends at the handler of the process, when there is one.\<close>

lemma forwarding_ends:
  assumes "process_of h = Some x"
  shows "Handle p fb dflt r h = Some (x, processHandle p x r)" "Enabled p fb dflt level h = Some (processEnabled p x level)"
  using assms by (induction h) simp_all

lemma resolve_wrapped: "wraps_channel dflt \<Longrightarrow> process_of (resolve p fb dflt d) = None"
  by (simp add: resolve_def process_of_replay process_of_nonDelegating)

lemma Handle_returns:
  assumes "Handle p fb dflt r h = Some y"
  shows "wraps_channel dflt \<longrightarrow> process_of h \<noteq> None"
  using assms
proof (rule Handle.raw_induct [where P = "\<lambda>p fb dflt r h y. wraps_channel dflt \<longrightarrow> process_of h \<noteq> None", rotated])
  fix f and p :: "('a, 'b) process_ops" and fb dflt r h y
  assume ih: "\<And>p fb dflt r h y. f p fb dflt r h = Some y \<Longrightarrow> wraps_channel dflt \<longrightarrow> process_of h \<noteq> None"
    and run: "(case h of Process x \<Rightarrow> Some (x, processHandle p x r)
      | Delegating d \<Rightarrow> f p fb dflt r (resolve p fb dflt d)
      | Wrapping h \<Rightarrow> f p fb dflt r h) = Some y"
  show "wraps_channel dflt \<longrightarrow> process_of h \<noteq> None"
    using run ih [of p fb dflt r _ y] resolve_wrapped [of dflt p fb] by (cases h) force+
qed

lemma Enabled_returns:
  assumes "Enabled p fb dflt level h = Some y"
  shows "wraps_channel dflt \<longrightarrow> process_of h \<noteq> None"
  using assms
proof (rule Enabled.raw_induct [where P = "\<lambda>p fb dflt level h y. wraps_channel dflt \<longrightarrow> process_of h \<noteq> None", rotated])
  fix f and p :: "('a, 'b) process_ops" and fb dflt level h y
  assume ih: "\<And>p fb dflt level h y. f p fb dflt level h = Some y \<Longrightarrow> wraps_channel dflt \<longrightarrow> process_of h \<noteq> None"
    and run: "(case h of Process x \<Rightarrow> Some (processEnabled p x level)
      | Delegating d \<Rightarrow> f p fb dflt level (resolve p fb dflt d)
      | Wrapping h \<Rightarrow> f p fb dflt level h) = Some y"
  show "wraps_channel dflt \<longrightarrow> process_of h \<noteq> None"
    using run ih [of p fb dflt level _ y] resolve_wrapped [of dflt p fb] by (cases h) force+
qed

lemma forwarding_diverges:
  assumes "wraps_channel dflt" "process_of h = None"
  shows "Handle p fb dflt r h = None" "Enabled p fb dflt level h = None"
  using assms Handle_returns [of p fb dflt r h] Enabled_returns [of p fb dflt level h]
  by (metis not_Some_eq)+

text \<open>
  C39. Logging through an area logger, with whatever attributes and groups bound on it, returns
  for every process default except those that wrap one of the package's own handlers, also when
  the default is such a handler itself: the record reaches one handler of the process, the
  default's or the fallback, on which the channel name and exactly the bindings that bind
  something were performed in their order; enablement is asked of the same handler.
\<close>

theorem logging_reaches_process_handler:
  fixes p :: "('h, 'r) process_ops"
  shows "(let x = bound_process p fallbackHandler dflt name bs; logger = foldl (bind_op p) (areaLogger p name) bs
    in Handle p fallbackHandler dflt r logger = (if wraps_channel dflt then None else Some (x, processHandle p x r)) \<and>
       Enabled p fallbackHandler dflt level logger = (if wraps_channel dflt then None else Some (processEnabled p x level)))"
proof -
  let ?bs = "BindAttrs [(''channel'', StringValue name)] # bs" and ?h = "\<lparr>opsOf = []\<rparr> :: defaultHandler"
  let ?t = "resolve p fallbackHandler dflt \<lparr>opsOf = map op_of (filter binds ?bs)\<rparr>"
  have l: "foldl (bind_op p) (areaLogger p name) bs = Delegating \<lparr>opsOf = map op_of (filter binds ?bs)\<rparr>"
    using recorded_bindings [of p ?h ?bs] by (simp add: areaLogger_def)
  have t: "process_of ?t = (if wraps_channel dflt then None else Some (bound_process p fallbackHandler dflt name bs))"
    unfolding resolve_def replay_bindings process_of_binds process_of_nonDelegating by (simp add: bound_process_def)
  show ?thesis
    unfolding Let_def l forward_simps
    by (cases "wraps_channel dflt") (simp_all only: t if_True if_False not_False_eq_True
        forwarding_ends [of ?t "bound_process p fallbackHandler dflt name bs"] forwarding_diverges [of dflt ?t])
qed

end
