(* ===== verification/Spec2Isabelle.thy ===== *)
theory Spec2Isabelle
  imports Message_Accessors Delivery Channel_Constraints Single_Channel Group_Channels Existing_Conn
    Multi_Listener Classic_Listener Heartbeat Latency Formatting Typed_Messages Channel_Options Loggers
begin

text \<open>
  A verification of the message channel library of \<^verbatim>\<open>src/\<close>: messages with headers travel
  over channels, a channel multiplexes one or more underlays (connections), and dialers and
  listeners make underlays by exchanging a hello message.

  \<^bold>\<open>The program and how its parts interact.\<close> A sender puts an envelope into a queue
  (\<^verbatim>\<open>senders.go\<close>, \<^verbatim>\<open>message_source.go\<close>, \<^verbatim>\<open>envelope.go\<close>). A goroutine per
  underlay takes it out, registers a waiter when a reply is expected, and writes the message as one
  V2 frame (\<^verbatim>\<open>impl.go\<close>, \<^verbatim>\<open>message.go\<close>). The goroutine at the other end reads frames and
  hands each message to the waiter it answers or to a handler. Underlays come from
  \<^verbatim>\<open>classic_dialer.go\<close> and \<^verbatim>\<open>classic_listener.go\<close>, whose handshake fixes the connection
  id and the group secret; \<^verbatim>\<open>multi_listener.go\<close> routes the underlays of a group to one channel,
  and \<^verbatim>\<open>dial_policy.go\<close> paces the dials with which a channel keeps its underlays up. On top are
  heartbeats, latency probes, traces and typed messages.

  \<^bold>\<open>Conventions.\<close> Go integers are words of their width, strings are byte strings, a call
  that may fail returns \<open>err + 'a\<close> and a panic is the error \<open>GoPanic\<close>. What the network, the
  clock, the scheduler, a random source or another module answers is an argument of the operation;
  a Go \<^verbatim>\<open>select\<close> takes the choice as a number, a map takes its iteration order as a list
  (\<open>enumerates\<close>). Calls to handlers are recorded as events. Goroutines that interleave are step
  relations, and their invariants are instances of the locale \<open>inductive_invariant\<close>.

  \<^bold>\<open>The theories, in the order of their imports.\<close>
  \<^item> \<open>Chan_Prelude\<close>: results, slices, map iteration, byte order, decimal digits, reachability.
    \<open>Go_IO\<close>: readers as chunks. \<open>Go_Chan\<close>: buffered channels, select, contexts, error chains, with
    the locale \<open>bounded_fifo\<close>.
  \<^item> \<open>Headers\<close>, \<open>Header_Codecs\<close>, \<open>Wire\<close> (\<^verbatim>\<open>message.go\<close>, \<^verbatim>\<open>messages.go\<close>): typed headers, composite
    header values, and the V2 frame with the hello reader. Shown: round trips for every chunking
    and header order, \<open>ReadV2\<close> as a refinement of the frame grammar \<open>decode_frame\<close>, absence
    of panics, bounds on what a hello may allocate, well-formedness of received messages.
    \<open>Message_Accessors\<close>: the accessors of a message, and that what one end puts the other end gets.
  \<^item> \<open>Senders\<close>, \<open>Waiters\<close>, \<open>Underlays\<close>, \<open>Envelopes\<close> (\<^verbatim>\<open>senders.go\<close>, \<^verbatim>\<open>message_source.go\<close>,
    \<^verbatim>\<open>impl.go\<close>, \<^verbatim>\<open>underlays.go\<close>, \<^verbatim>\<open>envelope.go\<close>): queues are first in first out, the waiter
    counter is exact, members are removed once, timeouts of envelopes only tighten.
  \<^item> \<open>Constants\<close>, \<open>Channel_Impl\<close> (\<^verbatim>\<open>impl.go\<close>, \<^verbatim>\<open>bind.go\<close>, \<^verbatim>\<open>channel.go\<close>): the record
    \<open>channelImpl\<close> and every operation on it. \<open>Channel_Lifecycle\<close>: its invariant under all
    interleavings, clean closing, admission by the group secret. \<open>Channel_IO\<close>: what a transmit and a
    receive do in every outcome, and that envelopes survive them. \<open>Channel_Constraints\<close>: the dial
    loop reaches the desired counts. \<open>Single_Channel\<close>: channels on one underlay and typed bindings.
  \<^item> \<open>Conn_Underlays\<close>, \<open>Underlay_Streams\<close> (\<^verbatim>\<open>classic_impl.go\<close>, \<^verbatim>\<open>datagram_underlay.go\<close>,
    \<^verbatim>\<open>existing_conn_impl.go\<close>, \<^verbatim>\<open>ws_impl.go\<close>, \<^verbatim>\<open>ws_listener.go\<close>, \<^verbatim>\<open>websockets/\<close>,
    \<^verbatim>\<open>type_logging_underlay.go\<close>): the implementations of an underlay, the locale of their close
    contract, and the locale \<open>message_stream\<close> with in-order delivery of sequences. \<open>Delivery\<close>: queue,
    transmit loop, stream and receive loop together, from the senders of one channel to the
    handlers of the other.
  \<^item> \<open>Hello\<close>, \<open>Handshake\<close>, \<open>Existing_Conn\<close> (\<^verbatim>\<open>classic_dialer.go\<close>, \<^verbatim>\<open>classic_listener.go\<close>,
    \<^verbatim>\<open>hello_acceptor.go\<close>, \<^verbatim>\<open>hello_reject.go\<close>, \<^verbatim>\<open>accept_dispatcher.go\<close>,
    \<^verbatim>\<open>existing_conn_dialer.go\<close>, \<^verbatim>\<open>existing_conn_listener.go\<close>): both sides of the handshake down to
    the bytes. Shown: agreement, refusals, that no dial leaks a connection, routing.
    \<open>Classic_Listener\<close>: construction of the listener and the hand-over of underlays to
    \<^verbatim>\<open>Create\<close> under all interleavings.
  \<^item> \<open>Dial_Policy\<close> (\<^verbatim>\<open>dial_policy.go\<close>): delays with the wrap-around of durations, pacing, fresh ids.
    \<open>Group_Channels\<close>: handshake, dial policy and channels together, when a group grows.
  \<^item> \<open>Multi_Listener\<close> (\<^verbatim>\<open>multi_listener.go\<close>): registry, reservations and callbacks as a step relation
    over any number of goroutines; one live channel per group, no lost wake-up.
  \<^item> \<open>Heartbeat\<close> (\<^verbatim>\<open>heartbeater.go\<close>), \<open>Latency\<close> (\<^verbatim>\<open>latency/latency.go\<close>), \<open>Tracing\<close> and
    \<open>Formatting\<close> (\<^verbatim>\<open>trace.go\<close>, \<^verbatim>\<open>trace_decode.go\<close>, \<^verbatim>\<open>decoder.go\<close>, \<^verbatim>\<open>trace/\<close>, labels and
    \<^verbatim>\<open>String\<close>), \<open>Typed_Messages\<close> (\<^verbatim>\<open>protobufs/protobufs.go\<close>), \<open>Channel_Options\<close>
    (\<^verbatim>\<open>options.go\<close>, \<^verbatim>\<open>constants.go\<close>), \<open>Loggers\<close> (\<^verbatim>\<open>logging.go\<close>).
  \<^item> This theory: a request and its reply, from the transmit over both wires to the goroutine that
    waits.

  \<^bold>\<open>Termination and bounds.\<close> The retry loop of a dial is bounded by its try counter and the
  reader of traces by the file. The constraint loop (\<open>applyLoop\<close>) has fuel for the number of its
  traversals, since dials may fail for ever; any fuel above the number of missing underlays is
  enough when dials succeed, which is the theorem about it. The forwarding of log records may recurse for
  ever in the program; it is a partial function, and the theorem says exactly for which process defaults it
  returns. Sizes are bounded only where the code bounds them: 16384 and 4192 bytes for a hello,
  128 entries and 8192 bytes in composite headers, \<open>2 ^ 31\<close> bytes for a frame.

  \<^bold>\<open>Parameters.\<close> The transport, the websocket library, identities, uuids and the id sequence,
  protobuf and JSON encoding, the goroutine pool and the handlers of \<^verbatim>\<open>log/slog\<close> are not part of
  the sources. What is relied on is a hypothesis of the theorem that needs it: that an unmarshal
  undoes a marshal, that generated secrets are not empty, that rounding is monotone.

  \<^bold>\<open>Not modelled.\<close> \<^verbatim>\<open>trace/pb\<close> is generated code, and \<^verbatim>\<open>version\<close> is a text file. Log calls
  have no effect on any state and are left out, and so are methods that only return a field or
  delegate to the transport (addresses, certificates, deadlines of a connection) and the function
  types that adapt a function to a one-method interface. \<^verbatim>\<open>Options.String\<close> is JSON encoding.
  Data races are outside the models: operations that the code protects by a lock or does with one
  atomic instruction are single steps, the others are split at their accesses to shared state.
\<close>

section \<open>A request and its reply\<close>

lemma rx_waiters_keeps:
  assumes "wf_waiters (waiters ch)" "enumerates ks (wm (waiters ch))"
    and "wm (waiters ch) k = Some e" "\<not> expired now e"
  shows "wm (rx_waiters now ks ch) k = Some e"
  using assms reapExpired_map [OF assms(1,2), of now] by (simp add: rx_waiters_def unexpired_def)

text \<open>The reply as the requester's channel sees it.\<close>

lemma rx_message_reply:
  assumes "fold fst (transformHandlers ch) (received (ReplyTo req a)) = received (ReplyTo req a)"
  shows "sequence req \<noteq> -1 \<Longrightarrow> IsReply (rx_message ch (received (ReplyTo req a)))" "ReplyFor (rx_message ch (received (ReplyTo req a))) = sequence req"
    "Body (rx_message ch (received (ReplyTo req a))) = Body a" "ContentType (rx_message ch (received (ReplyTo req a))) = ContentType a"
proof -
  have rf: "ReplyFor (received (ReplyTo req a)) = sequence req"
    by (simp add: ReplyFor_uncached received_def putReplyFor_def PutUint32Header_def PutUint32_def)
  show "ReplyFor (rx_message ch (received (ReplyTo req a))) = sequence req"
    "sequence req \<noteq> -1 \<Longrightarrow> IsReply (rx_message ch (received (ReplyTo req a)))"
    using rf by (simp_all add: rx_message_def assms IsReply_def)
  have "Body (cacheReplyFor x) = Body x" "ContentType (cacheReplyFor x) = ContentType x" for x :: Message
    by (simp_all add: cacheReplyFor_def Let_def split: option.splits)
  then show "Body (rx_message ch (received (ReplyTo req a))) = Body a" "ContentType (rx_message ch (received (ReplyTo req a))) = ContentType a"
    unfolding rx_message_def assms by (simp_all add: received_def)
qed

text \<open>What a written request leaves behind: its message on the wire and its waiter.\<close>

lemma tx_written:
  assumes "tx env now u t s wt ch = Inr (e, ch1)" "tx_outcome_of env s wt = Written" "skind s = KReply" "Msg s = Some m"
  shows "EvTx (uid u) (tx_message ch m) None \<in> set (trace ch1)"
    "\<exists>ttl. wm (waiters ch1) (sequence (tx_message ch m)) = Some (WaiterEntry \<lparr>replyReceiver = sid s, ttlMs = ttl\<rparr>)"
proof -
  have "AddWaiter now (tx_sendable ch s) (waiters ch) = Inr (waiters ch1)"
    using tx_spec [OF assms(1)] assms(2) by (simp add: tx_waiters_def)
  then show "\<exists>ttl. wm (waiters ch1) (sequence (tx_message ch m)) = Some (WaiterEntry \<lparr>replyReceiver = sid s, ttlMs = ttl\<rparr>)"
    using assms(3,4) by (auto simp: AddWaiter_def ReplyReceiver_def tx_sendable_def storeWaiter_def Let_def dest!: sym [of _ "waiters ch1"])
  show "EvTx (uid u) (tx_message ch m) None \<in> set (trace ch1)"
    using assms(1,2,4)
    by (auto simp: tx_def tx_outcome_of_def tx_message_def Let_def rbind_eq_Inr split: option.splits if_splits)
qed

text \<open>The waiting goroutine gets the reply that was put into its channel.\<close>

lemma WaitForReply_accepted:
  "\<not> cdone c \<Longrightarrow>
   WaitForReply (Some (None, st)) (\<lambda>env. Proceeds (AcceptReply m env)) pick False hasCancel c =
     Some (Inr m, CancelF (AcceptReply m (new_envelope hasCancel c)))"
  by (simp add: WaitForReply_def WaitForReply_select_def AcceptReply_def new_envelope_def)

text \<open>
  C1. A request gets its reply: when a channel has written the request of a reply envelope, the far
  end reads it off its stream and answers it with any message, and that answer comes back over a
  stream, then receiving it hands exactly this answer to the goroutine that waits for the request,
  which returns it, and the request is no longer registered. The streams may be cut anywhere, the
  headers written in any order, and the channel may have done anything in between, even reap
  waiters, as long as this waiter was neither removed nor had expired; transform handlers may have
  changed the request, but leave the reply alone.
\<close>

theorem request_gets_its_reply:
  assumes "tx env now u t s wt ch = Inr (e, ch1)" "tx_outcome_of env s wt = Written" "skind s = KReply" "Msg s = Some m"
    and "q = tx_message ch m" "sequence q \<noteq> -1"
    and "enumerates ks (Headers (putReplyFor q))" "frame_fits ks q" "content r = fst (MarshalV2 ks q) @ rest"
    and "fst (ReadV2 r) = Inr got"
    and "enumerates ks' (Headers (putReplyFor (ReplyTo got a)))" "frame_fits ks' (ReplyTo got a)"
    and "content r' = fst (MarshalV2 ks' (ReplyTo got a)) @ rest'" "fst (ReadV2 r') = Inr reply"
    and "wf_waiters (waiters ch2)" "enumerates ws (wm (waiters ch2))"
    and "wm (waiters ch2) (sequence q) = wm (waiters ch1) (sequence q)"
    and "\<not> expired now' (the (wm (waiters ch2) (sequence q)))"
    and "fold fst (transformHandlers ch2) reply = reply" "\<not> cdone c"
  shows "\<exists>ch3. EvTx (uid u) q None \<in> set (trace ch1) \<and> rx now' ws reply ch2 = Inr ch3 \<and>
    last (trace ch3) = EvAcceptReply (sid s) (rx_message ch2 reply) \<and> wm (waiters ch3) (sequence q) = None \<and>
    map_option fst (WaitForReply (Some (None, st)) (\<lambda>env. Proceeds (AcceptReply (rx_message ch2 reply) env)) pick False hasCancel c) =
      Some (Inr (rx_message ch2 reply)) \<and>
    Body (rx_message ch2 reply) = Body a \<and> ContentType (rx_message ch2 reply) = ContentType a"
proof -
  note w = tx_written [OF assms(1-4), folded assms(5)]
  obtain ttl where ttl: "wm (waiters ch2) (sequence q) = Some (WaiterEntry \<lparr>replyReceiver = sid s, ttlMs = ttl\<rparr>)"
    using w(2) assms(17) by auto
  have seq: "sequence got = sequence q"
    using ReadV2_of_frame [OF assms(7-9)] assms(10) by (auto simp: received_def)
  have reply: "reply = received (ReplyTo got a)" using ReadV2_of_frame [OF assms(11-13)] assms(14) by simp
  note rm = rx_message_reply [of ch2 got a, folded reply, OF assms(19), unfolded seq]
  have wm': "wm (rx_waiters now' ws ch2) (sequence q) = Some (WaiterEntry \<lparr>replyReceiver = sid s, ttlMs = ttl\<rparr>)"
    by (rule rx_waiters_keeps [OF assms(15,16) ttl]) (use assms(18) ttl in simp)
  note wf = wf_rx_waiters [OF assms(15,16), of now']
  have "fst (takeWaiter (sequence q) (rx_waiters now' ws ch2)) = Some (sid s)"
    by (simp add: takeWaiter_fst [OF wf] wm')
  then have "destination (rx_waiters now' ws ch2) ch2 (rx_message ch2 reply) = EvAcceptReply (sid s) (rx_message ch2 reply)"
    using rm(1,2) assms(6) by (simp add: destination_def)
  moreover have "wm (snd (takeWaiter (sequence q) (rx_waiters now' ws ch2))) (sequence q) = None"
    by (simp add: takeWaiter_snd [OF wf])
  ultimately show ?thesis
    using rx_spec [OF assms(15,16), of now' reply] rm assms(6,20) w(1) by (auto simp: WaitForReply_accepted)
qed

text \<open>A request with sequence number 7 that is answered at once, both frames in one piece.\<close>

definition ok_tx_env :: tx_env where
  "ok_tx_env = \<lparr>setWriteTimeout = None, txWrite = None, handleTxFailed = False\<rparr>"

lemma sample_channel_plain:
  "waiters sample_channel = empty_waiters" "transformHandlers sample_channel = []" "tx_message sample_channel m = m"
  by (simp_all add: sample_channel_def startMultiplex_def addUnderlay_def Add_underlay_def initialImpl_def tx_message_def)

lemma sample_request_written:
  "\<exists>e ch1. tx ok_tx_env 100 (sample_underlay 1 ''a'') ''a'' (sample_request 7) 0 sample_channel = Inr (e, ch1) \<and>
     waiters ch1 = storeWaiter 7 \<lparr>replyReceiver = 3, ttlMs = 30100\<rparr> empty_waiters \<and> transformHandlers ch1 = []"
  by (simp add: tx_def ok_tx_env_def sample_request_def writeContext_def Background_def sample_channel_plain AddWaiter_def
      ReplyReceiver_def SetSequence_def NewMessage_def Let_def)

theorem request_gets_its_reply_witness:
  "\<exists>ch1 ch3 m. rx 5 [7] (received (ReplyTo (SetSequence 7 (NewMessage 5 [])) (NewMessage 2 [4]))) ch1 = Inr ch3 \<and>
     last (trace ch3) = EvAcceptReply 3 m \<and> Body m = [4] \<and> wm (waiters ch3) 7 = None"
proof -
  let ?q = "SetSequence 7 (NewMessage 5 [])" and ?s = "sample_request 7"
  obtain e ch1 where run: "tx ok_tx_env 100 (sample_underlay 1 ''a'') ''a'' ?s 0 sample_channel = Inr (e, ch1)"
    and ws: "waiters ch1 = storeWaiter 7 \<lparr>replyReceiver = 3, ttlMs = 30100\<rparr> empty_waiters" and tr: "transformHandlers ch1 = []"
    using sample_request_written by blast
  have oc: "tx_outcome_of ok_tx_env ?s 0 = Written" and s: "skind ?s = KReply" "Msg ?s = Some ?q" "sid ?s = 3"
    by (simp_all add: tx_outcome_of_def ok_tx_env_def sample_request_def writeContext_def Background_def)
  have self: "putReplyFor ?q = ?q" "received ?q = ?q" "sequence ?q = 7" "sequence ?q \<noteq> -1"
    by (simp_all add: putReplyFor_def received_def SetSequence_def NewMessage_def)
  have q: "enumerates [] (Headers (putReplyFor ?q))" "frame_fits [] ?q"
    unfolding frame_fits_def self by (simp_all add: enumerates_def SetSequence_def NewMessage_def)
  have a: "enumerates [1] (Headers (putReplyFor (ReplyTo ?q (NewMessage 2 [4]))))" "frame_fits [1] (ReplyTo ?q (NewMessage 2 [4]))"
    by (simp_all add: enumerates_def frame_fits_def ReplyTo_def putReplyFor_def PutUint32Header_def SetSequence_def NewMessage_def
        header_keys)
  have b: "content (NewBuffer f) = f @ []" for f by simp
  note got = ReadV2_of_frame [OF q b, unfolded self(2)] and answered = ReadV2_of_frame [OF a b]
  have wf: "wf_waiters (waiters ch1)" "enumerates [7] (wm (waiters ch1))" "\<not> expired 5 (the (wm (waiters ch1) (sequence ?q)))"
    unfolding ws self(3) by (simp_all add: wf_store) (simp_all add: storeWaiter_def enumerates_def expired_def)
  have d: "\<not> cdone Background" by (simp add: Background_def)
  have id: "fold fst (transformHandlers ch1) x = x" for x using tr by simp
  have "Body (NewMessage 2 [4]) = [4]" by (simp add: NewMessage_def)
  then show ?thesis
    using request_gets_its_reply [OF run oc s(1,2) sample_channel_plain(3) [symmetric] self(4) q b got a b answered wf(1,2) refl wf(3)
        id d, of sample_sender 0 True, unfolded self(3) s(3)]
    by metis
qed

end
